(* ===== verification/Prelude.thy ===== *)
theory Prelude
  imports Main "HOL-Library.Char_ord" "HOL-Library.List_Lexorder"
    "HOL-Library.Product_Lexorder" "HOL-Library.Option_ord" "HOL-Library.Sublist"
begin

text \<open>
  Shared vocabulary of the development: instants and durations, the decimal rendering the
  source obtains from \<^verbatim>\<open>strconv.Itoa\<close>/\<^verbatim>\<open>%d\<close>, SQL-style operations on tables that are
  lists of rows in rowid order, and the collections of facts the component proofs use.
\<close>

named_theorems op_defs "operations unfolded to their table updates"
named_theorems row_simps "effect of a table update on a row"

section \<open>Time\<close>

text \<open>
  An instant is a number of nanoseconds since the Unix epoch (Go's resolution), a duration a
  number of nanoseconds. The database keeps instants as fixed-width UTC text with three
  decimals; a stored instant is therefore a whole number of milliseconds (see theory
  Timestamps for the text itself).
\<close>

type_synonym instant = int
type_synonym duration = int
type_synonym stamp = int

definition ts :: "instant \<Rightarrow> stamp" where
  "ts t = t div 1000000"

definition parseTS :: "stamp \<Rightarrow> instant" where
  "parseTS s = s * 1000000"

abbreviation second :: duration where
  "second \<equiv> 1000000000"

abbreviation minute :: duration where
  "minute \<equiv> 60 * second"

section \<open>Decimal rendering\<close>

definition digit_char :: "nat \<Rightarrow> char" where
  "digit_char d = char_of (48 + d)"

fun show_nat :: "nat \<Rightarrow> string" where
  "show_nat n = (if n < 10 then [digit_char n] else show_nat (n div 10) @ [digit_char (n mod 10)])"

declare show_nat.simps [simp del]

definition show_int :: "int \<Rightarrow> string" where
  "show_int i = (if i < 0 then ''-'' @ show_nat (nat (- i)) else show_nat (nat i))"

section \<open>Tables\<close>

text \<open>
  A table is the list of its rows in rowid order. \<open>update_where\<close> is
  \<^verbatim>\<open>UPDATE ... SET f WHERE p\<close>, \<open>count_where\<close> is \<^verbatim>\<open>SELECT count(*) WHERE p\<close>,
  \<open>delete_where\<close> is \<^verbatim>\<open>DELETE WHERE p\<close> and \<open>row_by\<close> is a \<^verbatim>\<open>SELECT\<close> on a unique column.
\<close>

definition update_where :: "('r \<Rightarrow> bool) \<Rightarrow> ('r \<Rightarrow> 'r) \<Rightarrow> 'r list \<Rightarrow> 'r list" where
  "update_where p f rs = map (\<lambda>r. if p r then f r else r) rs"

definition count_where :: "('r \<Rightarrow> bool) \<Rightarrow> 'r list \<Rightarrow> nat" where
  "count_where p rs = length (filter p rs)"

definition delete_where :: "('r \<Rightarrow> bool) \<Rightarrow> 'r list \<Rightarrow> 'r list" where
  "delete_where p rs = filter (\<lambda>r. \<not> p r) rs"

definition row_by :: "('r \<Rightarrow> 'k) \<Rightarrow> 'k \<Rightarrow> 'r list \<Rightarrow> 'r option" where
  "row_by key k rs = find (\<lambda>r. key r = k) rs"

section \<open>Facts on instants\<close>

lemma ts_mono: "s \<le> t \<Longrightarrow> ts s \<le> ts t"
  by (simp add: ts_def zdiv_mono1)

lemma ts_parseTS [simp]: "ts (parseTS s) = s"
  by (simp add: ts_def parseTS_def)

lemma parseTS_ts_le: "parseTS (ts t) \<le> t"
  unfolding parseTS_def ts_def by presburger

lemma parseTS_ts_gt: "t < parseTS (ts t) + 1000000"
  unfolding parseTS_def ts_def by presburger

lemma parseTS_less [simp]: "parseTS s < parseTS s' \<longleftrightarrow> s < s'"
  by (simp add: parseTS_def)

section \<open>Facts on decimal rendering\<close>

lemma digit_char_inj: "d < 10 \<Longrightarrow> e < 10 \<Longrightarrow> digit_char d = digit_char e \<longleftrightarrow> d = e"
proof -
  assume "d < 10" "e < 10"
  then have "char_of (48 + d) = (char_of (48 + e) :: char) \<longleftrightarrow> (48 + d) mod 256 = (48 + e) mod 256"
    by (metis of_char_of char_of_mod_256 of_char_mod_256)
  with \<open>d < 10\<close> \<open>e < 10\<close> show ?thesis by (simp add: digit_char_def)
qed

lemma show_nat_nonempty [simp]: "show_nat n \<noteq> []"
  by (subst show_nat.simps) simp

lemma show_nat_digits: "c \<in> set (show_nat n) \<Longrightarrow> \<exists>d < 10. c = digit_char d"
proof (induction n rule: show_nat.induct)
  case (1 n)
  then show ?case
    by (subst (asm) show_nat.simps) (auto split: if_splits intro: exI [of _ "n mod 10"])
qed

lemma show_nat_inj: "show_nat m = show_nat n \<Longrightarrow> m = n"
proof (induction m arbitrary: n rule: show_nat.induct)
  case (1 m)
  have single: "\<And>k. 10 \<le> k \<Longrightarrow> length (show_nat k) > 1"
    by (subst show_nat.simps) simp
  show ?case
  proof (cases "m < 10")
    case True
    then have m: "show_nat m = [digit_char m]" by (subst show_nat.simps) simp
    with "1.prems" have "show_nat n = [digit_char m]" by simp
    then have "\<not> 10 \<le> n" using single [of n] by auto
    then have "show_nat n = [digit_char n]" by (subst show_nat.simps) simp
    with m "1.prems" True \<open>\<not> 10 \<le> n\<close> show ?thesis by (simp add: digit_char_inj)
  next
    case False
    then have m: "show_nat m = show_nat (m div 10) @ [digit_char (m mod 10)]"
      by (subst show_nat.simps) simp
    have "10 \<le> n"
    proof (rule ccontr)
      assume "\<not> 10 \<le> n"
      then have "show_nat n = [digit_char n]" by (subst show_nat.simps) simp
      with m "1.prems" show False by (metis append1_eq_conv append_Nil show_nat_nonempty)
    qed
    then have n: "show_nat n = show_nat (n div 10) @ [digit_char (n mod 10)]"
      by (subst show_nat.simps) simp
    from m n "1.prems" have "m div 10 = n div 10" and "m mod 10 = n mod 10"
      using "1.IH" [OF False] by (auto simp: digit_char_inj)
    then show ?thesis by (metis div_mult_mod_eq)
  qed
qed

section \<open>Facts on tables\<close>

lemma update_where_Nil [simp]: "update_where p f [] = []"
  by (simp add: update_where_def)

lemma update_where_Cons [simp]:
  "update_where p f (r # rs) = (if p r then f r else r) # update_where p f rs"
  by (simp add: update_where_def)

lemma length_update_where [simp]: "length (update_where p f rs) = length rs"
  by (simp add: update_where_def)

lemma set_update_where: "set (update_where p f rs) = (\<lambda>r. if p r then f r else r) ` set rs"
  by (simp add: update_where_def)

lemma map_update_where: "(\<And>r. g (f r) = g r) \<Longrightarrow> map g (update_where p f rs) = map g rs"
  by (simp add: update_where_def)

lemma row_by_Nil [simp]: "row_by key k [] = None"
  by (simp add: row_by_def)

lemma row_by_Cons [simp]: "row_by key k (r # rs) = (if key r = k then Some r else row_by key k rs)"
  by (simp add: row_by_def)

lemma row_by_SomeD: "row_by key k rs = Some r \<Longrightarrow> r \<in> set rs \<and> key r = k"
  by (induction rs) (auto split: if_splits)

lemma row_by_None_iff: "row_by key k rs = None \<longleftrightarrow> k \<notin> key ` set rs"
  by (induction rs) auto

lemma row_by_distinct:
  "distinct (map key rs) \<Longrightarrow> r \<in> set rs \<Longrightarrow> row_by key (key r) rs = Some r"
  by (induction rs) force+

lemma row_by_append:
  "row_by key k (rs @ rs') = (case row_by key k rs of None \<Rightarrow> row_by key k rs' | Some r \<Rightarrow> Some r)"
  by (induction rs) auto

lemma row_by_update_where [row_simps]:
  "(\<And>r. key (f r) = key r) \<Longrightarrow>
   row_by key k (update_where p f rs) =
     map_option (\<lambda>r. if p r then f r else r) (row_by key k rs)"
  by (induction rs) auto

lemma count_where_Nil [simp]: "count_where p [] = 0"
  by (simp add: count_where_def)

lemma count_where_Cons [simp]: "count_where p (r # rs) = (if p r then Suc (count_where p rs) else count_where p rs)"
  by (simp add: count_where_def)

lemma count_where_append [simp]: "count_where p (rs @ rs') = count_where p rs + count_where p rs'"
  by (simp add: count_where_def)

lemma count_where_mono:
  "(\<And>r. r \<in> set rs \<Longrightarrow> p (g r) \<Longrightarrow> p r) \<Longrightarrow> count_where p (map g rs) \<le> count_where p rs"
  by (induction rs) auto

lemma count_where_delete_le: "count_where p (delete_where q rs) \<le> count_where p rs"
  by (induction rs) (auto simp: delete_where_def)

lemma count_where_update_le:
  "(\<And>r. r \<in> set rs \<Longrightarrow> q r \<Longrightarrow> p (f r) \<Longrightarrow> p r) \<Longrightarrow>
   count_where p (update_where q f rs) \<le> count_where p rs"
  by (induction rs) auto

lemma count_where_zero: "\<forall>r \<in> set rs. \<not> p r \<Longrightarrow> count_where p rs = 0"
  by (induction rs) auto

text \<open>Updating the one row with a given key changes a count by at most that row.\<close>

lemma count_where_update_key_le:
  assumes "distinct (map key rs)"
  shows "count_where p (update_where (\<lambda>r. key r = k) f rs) \<le> Suc (count_where p rs)"
  using assms
proof (induction rs)
  case Nil
  then show ?case by simp
next
  case (Cons r rs)
  show ?case
  proof (cases "key r = k")
    case True
    with Cons.prems have "k \<notin> key ` set rs" by auto
    then have "\<And>x. x \<in> set rs \<Longrightarrow> key x \<noteq> k" by force
    then have "update_where (\<lambda>r. key r = k) f rs = rs"
      by (simp add: update_where_def map_idI)
    with True show ?thesis by simp
  next
    case False
    with Cons show ?thesis by simp
  qed
qed

lemma set_delete_where [simp]: "set (delete_where p rs) = {r \<in> set rs. \<not> p r}"
  by (auto simp: delete_where_def)

lemma distinct_map_delete_where: "distinct (map g rs) \<Longrightarrow> distinct (map g (delete_where p rs))"
  by (simp add: delete_where_def distinct_map_filter)

lemma filter_key_distinct:
  "distinct (map key rs) \<Longrightarrow>
   filter (\<lambda>r. key r = k) rs = (case row_by key k rs of None \<Rightarrow> [] | Some r \<Rightarrow> [r])"
proof (induction rs)
  case (Cons r rs)
  show ?case
  proof (cases "key r = k")
    case True
    with Cons.prems have "row_by key k rs = None" by (auto simp: row_by_None_iff)
    with Cons True show ?thesis by simp
  qed (use Cons in simp)
qed simp

section \<open>The first rows of an ordered query\<close>

lemma take_sort_key_le:
  fixes key :: "'r \<Rightarrow> 'k::linorder"
  assumes "a \<in> set (take n (sort_key key rs))" and "b \<in> set (drop n (sort_key key rs))"
  shows "key a \<le> key b"
proof -
  have "sorted (map key (take n (sort_key key rs) @ drop n (sort_key key rs)))"
    by (simp only: append_take_drop_id sorted_sort_key)
  with assms show ?thesis by (simp only: map_append sorted_append) auto
qed

lemma set_take_drop: "set xs = set (take n xs) \<union> set (drop n xs)"
  by (metis append_take_drop_id set_append)

lemma count_where_le_imp: "(\<And>r. p r \<Longrightarrow> q r) \<Longrightarrow> count_where p rs \<le> count_where q rs"
  by (induction rs) (auto intro: le_SucI)

lemma count_where_less:
  assumes "\<And>r. p r \<Longrightarrow> q r" and "x \<in> set rs" and "\<not> p x" and "q x"
  shows "count_where p rs < count_where q rs"
proof -
  from assms(2) obtain us vs where "rs = us @ x # vs" by (auto simp: in_set_conv_decomp)
  with assms count_where_le_imp [of p q us] count_where_le_imp [of p q vs] show ?thesis by simp
qed

text \<open>A row that ranks strictly before the row at position \<open>k\<close> is offered before it.\<close>

lemma take_sort_key_before:
  fixes key :: "'r \<Rightarrow> 'k::linorder"
  assumes "k < length (take n (sort_key key rs))" and "z \<in> set rs"
    and "key z < key (take n (sort_key key rs) ! k)"
  shows "\<exists>i < k. take n (sort_key key rs) ! i = z"
proof -
  let ?s = "sort_key key rs"
  have k: "k < n" "k < length ?s" using assms(1) by auto
  obtain i where i: "i < length ?s" "?s ! i = z"
    using assms(2) by (metis in_set_conv_nth set_sort)
  have "i < k"
  proof (rule ccontr)
    assume "\<not> i < k"
    then have "map key ?s ! k \<le> map key ?s ! i"
      using i(1) by (intro sorted_nth_mono) auto
    with i k assms(3) show False by simp
  qed
  with i k show ?thesis by auto
qed

section \<open>Whole seconds\<close>

lemma parseTS_ts_second: "t mod second = 0 \<Longrightarrow> parseTS (ts t) = t"
proof -
  assume "t mod second = 0"
  then obtain q where "t = second * q" by (metis dvd_def mod_eq_0_iff_dvd)
  then have "t = 1000000 * (1000 * q)" by simp
  then show ?thesis unfolding parseTS_def ts_def by simp
qed

lemma ts_less_second: "s < t \<Longrightarrow> t mod second = 0 \<Longrightarrow> ts s < ts t"
  using parseTS_ts_le [of s] parseTS_ts_second [of t] parseTS_less [of "ts s" "ts t"] by simp

section \<open>First occurrences\<close>

text \<open>The elements whose key has not been seen before, in order.\<close>

fun first_by :: "('a \<Rightarrow> 'k) \<Rightarrow> 'k list \<Rightarrow> 'a list \<Rightarrow> 'a list" where
  "first_by key seen [] = []"
| "first_by key seen (x # xs) =
     (if key x \<in> set seen then first_by key seen xs else x # first_by key (key x # seen) xs)"

lemma first_by_keys: "key ` set (first_by key seen xs) = key ` set xs - set seen"
  by (induction xs arbitrary: seen) auto

lemma first_by_subset: "set (first_by key seen xs) \<subseteq> set xs"
  by (induction key seen xs rule: first_by.induct) auto

lemma first_by_distinct: "distinct (map key (first_by key seen xs))"
proof (induction xs arbitrary: seen)
  case (Cons x xs)
  have "key x \<notin> key ` set (first_by key (key x # seen) xs)" by (simp add: first_by_keys)
  with Cons show ?case by simp
qed simp

end
