(* ===== verification/Store_Data.thy ===== *)
theory Store_Data
  imports Prelude
begin

text \<open>
  The persistent state of \<^verbatim>\<open>internal/store\<close>: job states and error codes, one record per
  table row and the database as the record of its tables. Rows are kept in rowid order.
  A column that is NULL exactly when the Go field is the empty string is a \<open>string\<close>, a
  nullable timestamp or integer is an \<open>option\<close>.
\<close>

section \<open>Job states and error codes\<close>

datatype job_state =
  StateReceived | StateResolving | StateForwarding | StateAwaitingTarget
| StateCompleted | StateFailed | StateCancelled

fun state_name :: "job_state \<Rightarrow> string" where
  "state_name StateReceived = ''received''"
| "state_name StateResolving = ''resolving''"
| "state_name StateForwarding = ''forwarding''"
| "state_name StateAwaitingTarget = ''awaiting_target''"
| "state_name StateCompleted = ''completed''"
| "state_name StateFailed = ''failed''"
| "state_name StateCancelled = ''cancelled''"

definition IsTerminal :: "job_state \<Rightarrow> bool" where
  "IsTerminal st \<longleftrightarrow> st = StateCompleted \<or> st = StateFailed \<or> st = StateCancelled"

definition in_flight :: "job_state \<Rightarrow> bool" where
  "in_flight st \<longleftrightarrow> st = StateResolving \<or> st = StateForwarding"

definition JobErrorCodes :: "string list" where
  "JobErrorCodes =
    [''invalid_payload'', ''unknown_target'', ''unknown_resolvent'',
     ''resource_error'', ''invalid_resource_response'', ''target_error'',
     ''target_job_failed'', ''target_timeout'', ''max_attempts_exceeded'', ''internal'']"

section \<open>Errors\<close>

text \<open>
  The sentinel errors of the package. \<open>ErrDriver\<close> stands for any error the SQL driver
  reports (the transaction is rolled back), \<open>ErrConstraint\<close> for a violated constraint other
  than the idempotency index, \<open>ErrWrongState\<close> for the refusal of \<^verbatim>\<open>transition\<close>'s guard and
  \<open>ErrRace\<close> for \<^verbatim>\<open>CreateJob\<close> giving up on an unsettled idempotency race.
\<close>

datatype store_error =
  ErrNotFound | ErrTerminalState | ErrIdempotencyConflict | ErrQueueFull | ErrNotCancellable
| ErrScheduleLimit | ErrWrongState | ErrConstraint | ErrDriver | ErrRace

type_synonym 'a res = "store_error + 'a"

section \<open>Rows\<close>

record job_options =
  opt_cache :: string

definition CacheUse :: string where "CacheUse = ''use''"
definition CacheBypass :: string where "CacheBypass = ''bypass''"
definition CacheRefresh :: string where "CacheRefresh = ''refresh''"

definition options_zero :: "job_options \<Rightarrow> bool" where
  "options_zero o' \<longleftrightarrow> opt_cache o' = ''''"

record job =
  j_seq :: int
  j_id :: string
  j_client :: string
  j_idem :: string
  j_target :: string
  j_state :: job_state
  j_attempts :: int
  j_max_attempts :: int
  j_next_attempt_at :: "stamp option"
  j_not_before :: "stamp option"
  j_callback_url :: string
  j_priority :: int
  j_options :: job_options
  j_payload :: string
  j_resolved_payload :: "string option"
  j_target_job_id :: string
  j_poll_deadline :: "stamp option"
  j_target_status :: "int option"
  j_target_response :: "string option"
  j_result_path :: string
  j_result_ct :: string
  j_error_code :: string
  j_error_message :: string
  j_created_at :: stamp
  j_updated_at :: stamp
  j_completed_at :: "stamp option"

record event =
  e_id :: int
  e_job :: string
  e_from :: "job_state option"
  e_to :: job_state
  e_detail :: string
  e_created_at :: stamp

record delivery =
  d_job :: string
  d_url :: string
  d_event :: string
  d_attempts :: int
  d_next_attempt_at :: "stamp option"
  d_delivered_at :: "stamp option"
  d_last_status :: "int option"
  d_last_error :: string
  d_updated_at :: stamp

record series_row =
  c_hash :: string
  c_type :: string
  c_response :: string
  c_created_at :: stamp
  c_expires_at :: stamp

record schedule =
  s_id :: string
  s_client :: string
  s_target :: string
  s_payload :: string
  s_cron :: string
  s_timezone :: string
  s_priority :: int
  s_options :: job_options
  s_enabled :: bool
  s_idem :: string
  s_next_run_at :: "stamp option"
  s_last_run_at :: "stamp option"
  s_last_job_id :: string
  s_created_at :: stamp
  s_updated_at :: stamp

section \<open>The database\<close>

text \<open>
  \<open>event_seq\<close> is the AUTOINCREMENT counter of \<^verbatim>\<open>job_events\<close>; \<open>client_claims\<close> maps a client
  to the time it was last handed a job.
\<close>

record db =
  jobs :: "job list"
  job_events :: "event list"
  event_seq :: int
  client_claims :: "string \<Rightarrow> stamp option"
  deliveries :: "delivery list"
  series_cache :: "series_row list"
  schedules :: "schedule list"

definition empty_db :: db where
  "empty_db = \<lparr>jobs = [], job_events = [], event_seq = 0, client_claims = (\<lambda>_. None),
    deliveries = [], series_cache = [], schedules = []\<rparr>"

text \<open>A rowid table without AUTOINCREMENT hands out one more than the largest rowid in use.\<close>

definition next_rowid :: "job list \<Rightarrow> int" where
  "next_rowid rs = (if rs = [] then 1 else Max (j_seq ` set rs) + 1)"

definition find_job :: "db \<Rightarrow> string \<Rightarrow> job option" where
  "find_job d i = row_by j_id i (jobs d)"

definition update_job :: "string \<Rightarrow> (job \<Rightarrow> job) \<Rightarrow> db \<Rightarrow> db" where
  "update_job i f d = d\<lparr>jobs := update_where (\<lambda>j. j_id j = i) f (jobs d)\<rparr>"

section \<open>Facts\<close>

lemma state_name_inj: "state_name s = state_name t \<Longrightarrow> s = t"
  by (cases s; cases t) simp_all

lemma IsTerminal_simps [simp]:
  "IsTerminal StateCompleted" "IsTerminal StateFailed" "IsTerminal StateCancelled"
  "\<not> IsTerminal StateReceived" "\<not> IsTerminal StateResolving" "\<not> IsTerminal StateForwarding"
  "\<not> IsTerminal StateAwaitingTarget"
  by (simp_all add: IsTerminal_def)

lemma in_flight_simps [simp]:
  "in_flight StateResolving" "in_flight StateForwarding"
  "\<not> in_flight StateCompleted" "\<not> in_flight StateFailed" "\<not> in_flight StateCancelled"
  "\<not> in_flight StateReceived" "\<not> in_flight StateAwaitingTarget"
  by (simp_all add: in_flight_def)

lemma in_flight_not_terminal: "in_flight s \<Longrightarrow> \<not> IsTerminal s"
  by (auto simp: in_flight_def IsTerminal_def)

lemma find_job_SomeD: "find_job d i = Some j \<Longrightarrow> j \<in> set (jobs d) \<and> j_id j = i"
  unfolding find_job_def by (rule row_by_SomeD)

lemma find_job_None: "find_job d i = None \<longleftrightarrow> i \<notin> j_id ` set (jobs d)"
  by (simp add: find_job_def row_by_None_iff)

lemma find_job_self:
  "distinct (map j_id (jobs d)) \<Longrightarrow> j \<in> set (jobs d) \<Longrightarrow> find_job d (j_id j) = Some j"
  by (simp add: find_job_def row_by_distinct)

lemma find_job_update_job [row_simps]:
  "(\<And>j. j_id (f j) = j_id j) \<Longrightarrow>
   find_job (update_job i f d) k = map_option (\<lambda>j. if k = i then f j else j) (find_job d k)"
  unfolding find_job_def update_job_def
  by (cases "row_by j_id k (jobs d)") (auto simp: row_by_update_where dest: row_by_SomeD)

lemma update_job_tables [simp]:
  "job_events (update_job i f d) = job_events d"
  "event_seq (update_job i f d) = event_seq d"
  "client_claims (update_job i f d) = client_claims d"
  "deliveries (update_job i f d) = deliveries d"
  "series_cache (update_job i f d) = series_cache d"
  "schedules (update_job i f d) = schedules d"
  by (simp_all add: update_job_def)

lemma jobs_update_job: "jobs (update_job i f d) = update_where (\<lambda>j. j_id j = i) f (jobs d)"
  by (simp add: update_job_def)

lemma next_rowid_fresh: "j \<in> set rs \<Longrightarrow> j_seq j < next_rowid rs"
proof -
  assume "j \<in> set rs"
  then have "j_seq j \<le> Max (j_seq ` set rs)" by (intro Max_ge) auto
  with \<open>j \<in> set rs\<close> show ?thesis by (auto simp: next_rowid_def)
qed

end
