(* ===== verification/Job_Store.thy ===== *)
theory Job_Store
  imports Store_Data
begin

text \<open>
  \<^verbatim>\<open>internal/store/jobs.go\<close>, \<^verbatim>\<open>events.go\<close> and the transactional half of
  \<^verbatim>\<open>deliveries.go\<close>: creation, reading and listing of jobs and every state transition.
  Each operation is one SQLite transaction (\<^verbatim>\<open>BEGIN IMMEDIATE\<close> .. \<^verbatim>\<open>COMMIT\<close>), so it is a
  function from the database to a result and the database it leaves. The first argument of a
  writing operation says whether the driver carries the transaction through; when it does
  not, the transaction is rolled back and the operation answers \<open>ErrDriver\<close>. Each operation
  reads the clock once (\<open>now\<close>).
\<close>

section \<open>The audit trail and the callback outbox\<close>

definition appendEventTx :: "string \<Rightarrow> job_state option \<Rightarrow> job_state \<Rightarrow> string \<Rightarrow> instant \<Rightarrow> db \<Rightarrow> db" where
  "appendEventTx i frm to detail now d =
     d\<lparr>job_events := job_events d @
         [\<lparr>e_id = event_seq d + 1, e_job = i, e_from = frm, e_to = to, e_detail = detail,
           e_created_at = ts now\<rparr>],
       event_seq := event_seq d + 1\<rparr>"

definition ListEvents :: "db \<Rightarrow> string \<Rightarrow> event list" where
  "ListEvents d i = sort_key e_id (filter (\<lambda>e. e_job e = i) (job_events d))"

definition EventFor :: "job_state \<Rightarrow> string" where
  "EventFor st = ''request.'' @ state_name st"

text \<open>
  The delivery row of a job that just became terminal, when it asked for a callback;
  \<^verbatim>\<open>job_id\<close> is the primary key of \<^verbatim>\<open>callback_deliveries\<close>, so a second row is refused.
\<close>

definition enqueueCallbackTx :: "string \<Rightarrow> job_state \<Rightarrow> instant \<Rightarrow> db \<Rightarrow> db res" where
  "enqueueCallbackTx i to now d =
     (case find_job d i of
        None \<Rightarrow> Inl ErrDriver
      | Some j \<Rightarrow>
          if j_callback_url j = '''' then Inr d
          else if i \<in> d_job ` set (deliveries d) then Inl ErrConstraint
          else Inr (d\<lparr>deliveries := deliveries d @
                 [\<lparr>d_job = i, d_url = j_callback_url j, d_event = EventFor to, d_attempts = 0,
                   d_next_attempt_at = Some (ts now), d_delivered_at = None,
                   d_last_status = None, d_last_error = '''', d_updated_at = ts now\<rparr>]\<rparr>))"

section \<open>Transitions\<close>

definition currentState :: "db \<Rightarrow> string \<Rightarrow> job_state res" where
  "currentState d i = (case find_job d i of None \<Rightarrow> Inl ErrNotFound | Some j \<Rightarrow> Inr (j_state j))"

text \<open>\<^verbatim>\<open>buildUpdate\<close>: state and \<^verbatim>\<open>updated_at\<close> plus the caller's extra columns.\<close>

definition buildUpdate :: "job_state \<Rightarrow> instant \<Rightarrow> (job \<Rightarrow> job) \<Rightarrow> job \<Rightarrow> job" where
  "buildUpdate to now build j = build (j\<lparr>j_state := to, j_updated_at := ts now\<rparr>)"

definition transitionGuarded ::
  "bool \<Rightarrow> instant \<Rightarrow> string \<Rightarrow> (job_state \<Rightarrow> store_error option) \<Rightarrow> job_state \<Rightarrow> string
   \<Rightarrow> (job \<Rightarrow> job) \<Rightarrow> db \<Rightarrow> unit res \<times> db" where
  "transitionGuarded up now i guard to detail build d =
     (if \<not> up then (Inl ErrDriver, d)
      else case currentState d i of
        Inl e \<Rightarrow> (Inl e, d)
      | Inr current \<Rightarrow>
          if IsTerminal current then (Inl ErrTerminalState, d)
          else case guard current of
            Some e \<Rightarrow> (Inl e, d)
          | None \<Rightarrow>
              let d' = appendEventTx i (Some current) to detail now
                         (update_job i (buildUpdate to now build) d)
              in if IsTerminal to
                 then (case enqueueCallbackTx i to now d' of
                         Inl e \<Rightarrow> (Inl e, d)
                       | Inr d'' \<Rightarrow> (Inr (), d''))
                 else (Inr (), d'))"

text \<open>\<open>None\<close> as from-state is \<^verbatim>\<open>anyState\<close>.\<close>

definition from_guard :: "job_state option \<Rightarrow> job_state \<Rightarrow> store_error option" where
  "from_guard frm current =
     (case frm of None \<Rightarrow> None | Some s \<Rightarrow> if current \<noteq> s then Some ErrWrongState else None)"

definition transition ::
  "bool \<Rightarrow> instant \<Rightarrow> string \<Rightarrow> job_state option \<Rightarrow> job_state \<Rightarrow> string \<Rightarrow> (job \<Rightarrow> job) \<Rightarrow> db
   \<Rightarrow> unit res \<times> db" where
  "transition up now i frm to detail build d =
     transitionGuarded up now i (from_guard frm) to detail build d"

definition set_resolved :: "string \<Rightarrow> job \<Rightarrow> job" where
  "set_resolved p j = j\<lparr>j_resolved_payload := Some p\<rparr>"

definition SetResolved :: "bool \<Rightarrow> instant \<Rightarrow> string \<Rightarrow> string \<Rightarrow> string \<Rightarrow> db \<Rightarrow> unit res \<times> db" where
  "SetResolved up now i resolved detail =
     transition up now i (Some StateResolving) StateForwarding detail (set_resolved resolved)"

definition set_awaiting :: "string \<Rightarrow> int \<Rightarrow> string \<Rightarrow> instant \<Rightarrow> instant \<Rightarrow> job \<Rightarrow> job" where
  "set_awaiting tid status body firstPollAt pollDeadline j =
     j\<lparr>j_target_job_id := tid, j_target_status := Some status, j_target_response := Some body,
       j_next_attempt_at := Some (ts firstPollAt), j_poll_deadline := Some (ts pollDeadline)\<rparr>"

definition MarkAwaitingTarget ::
  "bool \<Rightarrow> instant \<Rightarrow> string \<Rightarrow> string \<Rightarrow> int \<Rightarrow> string \<Rightarrow> instant \<Rightarrow> instant \<Rightarrow> db
   \<Rightarrow> unit res \<times> db" where
  "MarkAwaitingTarget up now i tid status body firstPollAt pollDeadline =
     transition up now i (Some StateForwarding) StateAwaitingTarget
       (''target accepted (status '' @ show_int status @ ''), polling job '' @ tid)
       (set_awaiting tid status body firstPollAt pollDeadline)"

definition set_completed ::
  "int \<Rightarrow> string option \<Rightarrow> string \<Rightarrow> string \<Rightarrow> instant \<Rightarrow> job \<Rightarrow> job" where
  "set_completed status response path ct now j =
     (let j1 = j\<lparr>j_target_status := Some status\<rparr>;
          j2 = (case response of None \<Rightarrow> j1 | Some r \<Rightarrow> j1\<lparr>j_target_response := Some r\<rparr>);
          j3 = (if path \<noteq> '''' then j2\<lparr>j_result_path := path, j_result_ct := ct\<rparr> else j2)
      in j3\<lparr>j_next_attempt_at := None, j_completed_at := Some (ts now)\<rparr>)"

definition MarkCompleted ::
  "bool \<Rightarrow> instant \<Rightarrow> string \<Rightarrow> int \<Rightarrow> string option \<Rightarrow> string \<Rightarrow> string \<Rightarrow> string \<Rightarrow> db
   \<Rightarrow> unit res \<times> db" where
  "MarkCompleted up now i status response path ct detail =
     transition up now i None StateCompleted detail (set_completed status response path ct now)"

definition set_failed :: "string \<Rightarrow> string \<Rightarrow> instant \<Rightarrow> job \<Rightarrow> job" where
  "set_failed code message now j =
     j\<lparr>j_error_code := code, j_error_message := message, j_next_attempt_at := None,
       j_completed_at := Some (ts now)\<rparr>"

definition MarkFailed :: "bool \<Rightarrow> instant \<Rightarrow> string \<Rightarrow> string \<Rightarrow> string \<Rightarrow> db \<Rightarrow> unit res \<times> db" where
  "MarkFailed up now i code message =
     transition up now i None StateFailed (code @ '': '' @ message) (set_failed code message now)"

definition cancel_guard :: "job_state \<Rightarrow> store_error option" where
  "cancel_guard current =
     (if current = StateResolving \<or> current = StateForwarding then Some ErrNotCancellable else None)"

definition set_cancelled :: "instant \<Rightarrow> job \<Rightarrow> job" where
  "set_cancelled now j = j\<lparr>j_next_attempt_at := None, j_completed_at := Some (ts now)\<rparr>"

definition MarkCancelled :: "bool \<Rightarrow> instant \<Rightarrow> string \<Rightarrow> string \<Rightarrow> db \<Rightarrow> unit res \<times> db" where
  "MarkCancelled up now i detail =
     transitionGuarded up now i cancel_guard StateCancelled detail (set_cancelled now)"

definition set_next_attempt :: "stamp option \<Rightarrow> job \<Rightarrow> job" where
  "set_next_attempt at j = j\<lparr>j_next_attempt_at := at\<rparr>"

definition Requeue :: "bool \<Rightarrow> instant \<Rightarrow> string \<Rightarrow> instant \<Rightarrow> string \<Rightarrow> db \<Rightarrow> unit res \<times> db" where
  "Requeue up now i nextAttemptAt detail =
     transition up now i None StateReceived detail (set_next_attempt (Some (ts nextAttemptAt)))"

section \<open>Recovery and rescue\<close>

text \<open>\<^verbatim>\<open>requeueAll\<close> stops at the first error; \<open>up\<close> tells, per job, whether the driver works.\<close>

fun requeueAll :: "(string \<Rightarrow> bool) \<Rightarrow> instant \<Rightarrow> string list \<Rightarrow> string \<Rightarrow> db \<Rightarrow> unit res \<times> db" where
  "requeueAll up now [] detail d = (Inr (), d)"
| "requeueAll up now (i # is) detail d =
     (case transition (up i) now i None StateReceived detail (set_next_attempt None) d of
        (Inl e, d') \<Rightarrow> (Inl e, d')
      | (Inr _, d') \<Rightarrow> requeueAll up now is detail d')"

definition in_flight_ids :: "db \<Rightarrow> string list" where
  "in_flight_ids d = map j_id (filter (\<lambda>j. in_flight (j_state j)) (jobs d))"

text \<open>Both answer the number of selected jobs together with the outcome of requeueing them.\<close>

definition RecoverInFlight :: "(string \<Rightarrow> bool) \<Rightarrow> instant \<Rightarrow> db \<Rightarrow> (nat \<times> unit res) \<times> db" where
  "RecoverInFlight up now d =
     (let ids = in_flight_ids d; (r, d') = requeueAll up now ids ''recovered after restart'' d
      in ((length ids, r), d'))"

definition stuck_ids :: "(string \<Rightarrow> instant) \<Rightarrow> db \<Rightarrow> string list" where
  "stuck_ids cutoffFor d =
     map j_id (filter (\<lambda>j. in_flight (j_state j) \<and> parseTS (j_updated_at j) < cutoffFor (j_target j))
       (jobs d))"

definition RescueStuck ::
  "(string \<Rightarrow> bool) \<Rightarrow> instant \<Rightarrow> (string \<Rightarrow> instant) \<Rightarrow> db \<Rightarrow> (nat \<times> unit res) \<times> db" where
  "RescueStuck up now cutoffFor d =
     (let ids = stuck_ids cutoffFor d; (r, d') = requeueAll up now ids ''rescued stuck job'' d
      in ((length ids, r), d'))"

section \<open>Retention\<close>

definition TerminalBefore :: "db \<Rightarrow> instant \<Rightarrow> nat \<Rightarrow> string list \<times> string list" where
  "TerminalBefore d cutoff limit =
     (let rows = take limit (sort_key j_completed_at
            (filter (\<lambda>j. IsTerminal (j_state j)
                \<and> (case j_completed_at j of None \<Rightarrow> False | Some c \<Rightarrow> c < ts cutoff)) (jobs d)))
      in (map j_id rows, filter (\<lambda>p. p \<noteq> '''') (map j_result_path rows)))"

definition deleteChunk :: nat where
  "deleteChunk = 500"

text \<open>Deleting a job cascades to its events and its delivery.\<close>

definition deleteJobChunk :: "string list \<Rightarrow> db \<Rightarrow> db" where
  "deleteJobChunk ids d =
     d\<lparr>jobs := delete_where (\<lambda>j. j_id j \<in> set ids) (jobs d),
       job_events := delete_where (\<lambda>e. e_job e \<in> set ids) (job_events d),
       deliveries := delete_where (\<lambda>r. d_job r \<in> set ids) (deliveries d)\<rparr>"

function deleteChunks :: "(nat \<Rightarrow> bool) \<Rightarrow> nat \<Rightarrow> string list \<Rightarrow> db \<Rightarrow> unit res \<times> db" where
  "deleteChunks up n ids d =
     (if ids = [] then (Inr (), d)
      else if \<not> up n then (Inl ErrDriver, d)
      else deleteChunks up (Suc n) (drop deleteChunk ids) (deleteJobChunk (take deleteChunk ids) d))"
  by pat_completeness auto
termination
  by (relation "measure (\<lambda>(up, n, ids, d). length ids)") (auto simp: deleteChunk_def)

declare deleteChunks.simps [simp del]

definition DeleteJobs :: "(nat \<Rightarrow> bool) \<Rightarrow> string list \<Rightarrow> db \<Rightarrow> unit res \<times> db" where
  "DeleteJobs up ids d = deleteChunks up 0 ids d"

section \<open>Creation\<close>

definition has_idem :: "string \<Rightarrow> string \<Rightarrow> job \<Rightarrow> bool" where
  "has_idem client key j \<longleftrightarrow> j_client j = client \<and> j_idem j = key \<and> j_idem j \<noteq> ''''"

definition queued_count :: "db \<Rightarrow> string \<Rightarrow> nat" where
  "queued_count d client = count_where (\<lambda>j. j_client j = client \<and> \<not> IsTerminal (j_state j)) (jobs d)"

definition GetJob :: "db \<Rightarrow> string \<Rightarrow> job res" where
  "GetJob d i = (case find_job d i of None \<Rightarrow> Inl ErrNotFound | Some j \<Rightarrow> Inr j)"

definition GetJobByIdempotency :: "db \<Rightarrow> string \<Rightarrow> string \<Rightarrow> job res" where
  "GetJobByIdempotency d client key =
     (case find (has_idem client key) (jobs d) of None \<Rightarrow> Inl ErrNotFound | Some j \<Rightarrow> Inr j)"

definition replayIdempotent :: "db \<Rightarrow> job \<Rightarrow> (bool \<times> job) res" where
  "replayIdempotent d j =
     (case GetJobByIdempotency d (j_client j) (j_idem j) of
        Inl e \<Rightarrow> Inl e
      | Inr ex \<Rightarrow>
          if j_target ex \<noteq> j_target j \<or> j_payload ex \<noteq> j_payload j then Inl ErrIdempotencyConflict
          else Inr (False, ex))"

text \<open>
  The row \<^verbatim>\<open>insertJob\<close> writes: the columns it names come from the job, attempts is 0, the
  first \<^verbatim>\<open>next_attempt_at\<close> is \<^verbatim>\<open>not_before\<close> and every other column is NULL.
\<close>

definition new_row :: "job \<Rightarrow> instant \<Rightarrow> int \<Rightarrow> job" where
  "new_row j now rowid =
     \<lparr>j_seq = rowid, j_id = j_id j, j_client = j_client j, j_idem = j_idem j,
      j_target = j_target j, j_state = StateReceived, j_attempts = 0,
      j_max_attempts = j_max_attempts j, j_next_attempt_at = j_not_before j,
      j_not_before = j_not_before j, j_callback_url = j_callback_url j,
      j_priority = j_priority j, j_options = j_options j, j_payload = j_payload j,
      j_resolved_payload = None, j_target_job_id = '''', j_poll_deadline = None,
      j_target_status = None, j_target_response = None, j_result_path = '''',
      j_result_ct = '''', j_error_code = '''', j_error_message = '''',
      j_created_at = ts now, j_updated_at = ts now, j_completed_at = None\<rparr>"

datatype insert_error = UniqueId | UniqueIdem

definition insertJob :: "job \<Rightarrow> instant \<Rightarrow> db \<Rightarrow> insert_error + db" where
  "insertJob j now d =
     (if j_id j \<in> j_id ` set (jobs d) then Inl UniqueId
      else if j_idem j \<noteq> '''' \<and> (\<exists>r \<in> set (jobs d). has_idem (j_client j) (j_idem j) r) then Inl UniqueIdem
      else Inr (d\<lparr>jobs := jobs d @ [new_row j now (next_rowid (jobs d))]\<rparr>))"

text \<open>
  One attempt at creation. A replay reads the stored job after the transaction was rolled
  back; \<open>env\<close> is what other connections commit in between (the identity when nothing
  interferes).
\<close>

definition createJobOnce ::
  "bool \<Rightarrow> (db \<Rightarrow> db) \<Rightarrow> instant \<Rightarrow> job \<Rightarrow> int \<Rightarrow> db \<Rightarrow> (bool \<times> job) res \<times> db" where
  "createJobOnce up env now j queueCap d =
     (if \<not> up then (Inl ErrDriver, d)
      else if 0 < queueCap \<and> j_idem j \<noteq> ''''
              \<and> 0 < count_where (has_idem (j_client j) (j_idem j)) (jobs d)
      then (replayIdempotent (env d) j, env d)
      else if 0 < queueCap \<and> queueCap \<le> int (queued_count d (j_client j))
      then (Inl ErrQueueFull, d)
      else case insertJob j now d of
        Inl UniqueIdem \<Rightarrow> (replayIdempotent (env d) j, env d)
      | Inl UniqueId \<Rightarrow> (Inl ErrConstraint, d)
      | Inr d' \<Rightarrow>
          (let detail = (if j_not_before j \<noteq> None then ''job accepted, delayed'' else ''job accepted'')
           in (Inr (True, j\<lparr>j_state := StateReceived, j_created_at := ts now, j_updated_at := ts now\<rparr>),
               appendEventTx (j_id j) None StateReceived detail now d')))"

fun createJobLoop ::
  "nat \<Rightarrow> bool \<Rightarrow> (nat \<Rightarrow> db \<Rightarrow> db) \<Rightarrow> instant \<Rightarrow> job \<Rightarrow> int \<Rightarrow> db \<Rightarrow> (bool \<times> job) res \<times> db" where
  "createJobLoop 0 up env now j queueCap d = (Inl ErrRace, d)"
| "createJobLoop (Suc n) up env now j queueCap d =
     (case createJobOnce up (env n) now j queueCap d of
        (Inl ErrNotFound, d') \<Rightarrow> createJobLoop n up env now j queueCap d'
      | r \<Rightarrow> r)"

definition CreateJob ::
  "bool \<Rightarrow> (nat \<Rightarrow> db \<Rightarrow> db) \<Rightarrow> instant \<Rightarrow> job \<Rightarrow> int \<Rightarrow> db \<Rightarrow> (bool \<times> job) res \<times> db" where
  "CreateJob up env now j queueCap d = createJobLoop 3 up env now j queueCap d"

abbreviation undisturbed :: "nat \<Rightarrow> db \<Rightarrow> db" where
  "undisturbed \<equiv> \<lambda>_ d. d"

section \<open>Chunked deletion\<close>

lemma deleteJobChunk_append:
  "deleteJobChunk ys (deleteJobChunk xs d) = deleteJobChunk (xs @ ys) d"
  by (simp add: deleteJobChunk_def delete_where_def conj_commute)

lemma deleteJobChunk_Nil [simp]: "deleteJobChunk [] d = d"
  by (simp add: deleteJobChunk_def delete_where_def)

text \<open>Whatever the driver does, a prefix of the ids is deleted; all of them when no error is reported.\<close>

lemma deleteChunks_prefix:
  "\<exists>n'. snd (deleteChunks up n ids d) = deleteJobChunk (take n' ids) d
     \<and> (fst (deleteChunks up n ids d) = Inr () \<longrightarrow> take n' ids = ids)"
proof (induction up n ids d rule: deleteChunks.induct)
  case (1 up n ids d)
  show ?case
  proof (cases "ids = [] \<or> \<not> up n")
    case True
    then show ?thesis
      by (subst (1 2) deleteChunks.simps) (auto intro: exI [of _ 0])
  next
    case False
    let ?c = deleteChunk
    have run: "deleteChunks up n ids d =
        deleteChunks up (Suc n) (drop ?c ids) (deleteJobChunk (take ?c ids) d)"
      using False by (subst deleteChunks.simps) simp
    from 1 False obtain n' where n': "snd (deleteChunks up n ids d) =
        deleteJobChunk (take n' (drop ?c ids)) (deleteJobChunk (take ?c ids) d)"
      "fst (deleteChunks up n ids d) = Inr () \<longrightarrow> take n' (drop ?c ids) = drop ?c ids"
      unfolding run by blast
    have "take ?c ids @ take n' (drop ?c ids) = take (?c + n') ids" by (simp add: take_add)
    with n' show ?thesis
      by (metis append_take_drop_id deleteJobChunk_append)
  qed
qed

lemma deleteChunks_all: "deleteChunks (\<lambda>_. True) n ids d = (Inr (), deleteJobChunk ids d)"
proof (induction "\<lambda>_ :: nat. True" n ids d rule: deleteChunks.induct)
  case (1 n ids d)
  then show ?case
    by (subst deleteChunks.simps) (simp add: deleteJobChunk_append)
qed

end
