(* ===== verification/Job_Claim.thy ===== *)
theory Job_Claim
  imports Job_Store
begin

text \<open>
  The queue half of \<^verbatim>\<open>internal/store/jobs.go\<close>: which jobs are eligible, in which order
  they are offered (\<^verbatim>\<open>claimCandidates\<close>), the compare-and-set claims and the poll
  schedule. \<open>ClaimNext\<close> is one undisturbed call; \<open>claimOne\<close> takes a candidate that may have
  been read from an older database, which is how concurrent workers are covered.
\<close>

section \<open>Policy and candidates\<close>

record claim_policy =
  PollLease :: "(string \<Rightarrow> duration) option"
  MaxConcurrent :: "(string \<Rightarrow> int) option"

definition pollLeaseOf :: "claim_policy \<Rightarrow> string \<Rightarrow> duration" where
  "pollLeaseOf p target = (case PollLease p of None \<Rightarrow> minute | Some f \<Rightarrow> f target)"

definition maxConcurrentOf :: "claim_policy \<Rightarrow> string \<Rightarrow> int" where
  "maxConcurrentOf p client = (case MaxConcurrent p of None \<Rightarrow> 0 | Some f \<Rightarrow> f client)"

definition claimBatch :: nat where "claimBatch = 8"
definition claimRounds :: nat where "claimRounds = 8"

record claim_cand =
  cc_id :: string
  cc_state :: job_state
  cc_target :: string
  cc_client :: string
  cc_next_at :: "stamp option"
  cc_attempts :: int
  cc_max_attempts :: int

definition cand_of :: "job \<Rightarrow> claim_cand" where
  "cand_of j = \<lparr>cc_id = j_id j, cc_state = j_state j, cc_target = j_target j, cc_client = j_client j,
     cc_next_at = j_next_attempt_at j, cc_attempts = j_attempts j, cc_max_attempts = j_max_attempts j\<rparr>"

definition due_received :: "stamp \<Rightarrow> job \<Rightarrow> bool" where
  "due_received nowS j \<longleftrightarrow> j_state j = StateReceived
     \<and> (case j_next_attempt_at j of None \<Rightarrow> True | Some n \<Rightarrow> n \<le> nowS)"

definition due_poll :: "stamp \<Rightarrow> job \<Rightarrow> bool" where
  "due_poll nowS j \<longleftrightarrow> j_state j = StateAwaitingTarget
     \<and> (case j_next_attempt_at j of None \<Rightarrow> False | Some n \<Rightarrow> n \<le> nowS)"

definition eligible :: "stamp \<Rightarrow> string list \<Rightarrow> job \<Rightarrow> bool" where
  "eligible nowS excluded j \<longleftrightarrow> (due_received nowS j \<or> due_poll nowS j) \<and> j_client j \<notin> set excluded"

text \<open>
  \<^verbatim>\<open>ROW_NUMBER() OVER (PARTITION BY client ORDER BY priority DESC, created_at, rowid)\<close>
  among the rows the query selected.
\<close>

definition window_key :: "job \<Rightarrow> int \<times> stamp \<times> int" where
  "window_key j = (- j_priority j, j_created_at j, j_seq j)"

definition turn :: "job list \<Rightarrow> job \<Rightarrow> nat" where
  "turn rows j = Suc (count_where (\<lambda>r. j_client r = j_client j \<and> window_key r < window_key j) rows)"

definition claim_key ::
  "(string \<Rightarrow> stamp option) \<Rightarrow> job list \<Rightarrow> job \<Rightarrow> int \<times> nat \<times> stamp option \<times> stamp \<times> int" where
  "claim_key served rows j =
     (- j_priority j, turn rows j, served (j_client j), j_created_at j, j_seq j)"

definition candidate_rows :: "db \<Rightarrow> stamp \<Rightarrow> string list \<Rightarrow> job list" where
  "candidate_rows d nowS excluded =
     (let rows = filter (eligible nowS excluded) (jobs d)
      in take claimBatch (sort_key (claim_key (client_claims d) rows) rows))"

definition claimCandidates :: "db \<Rightarrow> stamp \<Rightarrow> string list \<Rightarrow> claim_cand list" where
  "claimCandidates d nowS excluded = map cand_of (candidate_rows d nowS excluded)"

definition inFlightByClient :: "db \<Rightarrow> string \<Rightarrow> nat" where
  "inFlightByClient d client = count_where (\<lambda>j. j_client j = client \<and> in_flight (j_state j)) (jobs d)"

section \<open>Claims\<close>

definition set_claimed :: "instant \<Rightarrow> job \<Rightarrow> job" where
  "set_claimed now j = j\<lparr>j_state := StateResolving, j_attempts := j_attempts j + 1,
     j_next_attempt_at := None, j_updated_at := ts now\<rparr>"

definition claimReceived ::
  "bool \<Rightarrow> string \<Rightarrow> string \<Rightarrow> int \<Rightarrow> instant \<Rightarrow> db \<Rightarrow> bool res \<times> db" where
  "claimReceived up i client maxConcurrent now d =
     (if \<not> up then (Inl ErrDriver, d)
      else case find_job d i of
        None \<Rightarrow> (Inr False, d)
      | Some j \<Rightarrow>
          if due_received (ts now) j
             \<and> (maxConcurrent \<le> 0 \<or> int (inFlightByClient d client) < maxConcurrent)
          then (let d1 = update_job i (set_claimed now) d;
                    d2 = d1\<lparr>client_claims := (client_claims d1)(client := Some (ts now))\<rparr>
                in (Inr True, appendEventTx i (Some StateReceived) StateResolving ''claimed by worker'' now d2))
          else (Inr False, d))"

definition set_poll_time :: "instant \<Rightarrow> instant \<Rightarrow> job \<Rightarrow> job" where
  "set_poll_time at now j = j\<lparr>j_next_attempt_at := Some (ts at), j_updated_at := ts now\<rparr>"

definition claimPollTick ::
  "bool \<Rightarrow> string \<Rightarrow> stamp option \<Rightarrow> instant \<Rightarrow> instant \<Rightarrow> db \<Rightarrow> bool res \<times> db" where
  "claimPollTick up i prevNextAt lease now d =
     (if \<not> up then (Inl ErrDriver, d)
      else case find_job d i of
        None \<Rightarrow> (Inr False, d)
      | Some j \<Rightarrow>
          if j_state j = StateAwaitingTarget \<and> prevNextAt \<noteq> None \<and> j_next_attempt_at j = prevNextAt
          then (Inr True, update_job i (set_poll_time lease now) d)
          else (Inr False, d))"

definition claimOne :: "bool \<Rightarrow> claim_cand \<Rightarrow> instant \<Rightarrow> claim_policy \<Rightarrow> db \<Rightarrow> bool res \<times> db" where
  "claimOne up c now policy d =
     (case cc_state c of
        StateReceived \<Rightarrow>
          if cc_max_attempts c \<le> cc_attempts c
          then (case transition up now (cc_id c) (Some StateReceived) StateFailed
                       (''max_attempts_exceeded: attempts exhausted, last attempt interrupted'')
                       (set_failed ''max_attempts_exceeded''
                          (''gave up after '' @ show_int (cc_attempts c)
                             @ '' attempts; the last attempt was interrupted'') now) d of
                  (Inl ErrTerminalState, d') \<Rightarrow> (Inr False, d')
                | (Inl e, d') \<Rightarrow> (Inl e, d')
                | (Inr _, d') \<Rightarrow> (Inr False, d'))
          else claimReceived up (cc_id c) (cc_client c) (maxConcurrentOf policy (cc_client c)) now d
      | StateAwaitingTarget \<Rightarrow>
          claimPollTick up (cc_id c) (cc_next_at c) (now + pollLeaseOf policy (cc_target c)) now d
      | _ \<Rightarrow> (Inr False, d))"

text \<open>
  The inner loop of \<^verbatim>\<open>ClaimNext\<close>: the id of the claimed job, if any, and the clients
  skipped because they are at their ceiling.
\<close>

fun tryCands ::
  "bool \<Rightarrow> instant \<Rightarrow> claim_policy \<Rightarrow> (string \<Rightarrow> bool) \<Rightarrow> claim_cand list \<Rightarrow> string list \<Rightarrow> db
   \<Rightarrow> (string option \<times> string list) res \<times> db" where
  "tryCands up now policy atCeiling [] capped d = (Inr (None, capped), d)"
| "tryCands up now policy atCeiling (c # cs) capped d =
     (if cc_state c = StateReceived \<and> atCeiling (cc_client c)
      then tryCands up now policy atCeiling cs (List.insert (cc_client c) capped) d
      else case claimOne up c now policy d of
        (Inl e, d') \<Rightarrow> (Inl e, d')
      | (Inr True, d') \<Rightarrow> (Inr (Some (cc_id c), capped), d')
      | (Inr False, d') \<Rightarrow> tryCands up now policy atCeiling cs capped d')"

fun claimLoop ::
  "nat \<Rightarrow> bool \<Rightarrow> instant \<Rightarrow> claim_policy \<Rightarrow> (string \<Rightarrow> bool) \<Rightarrow> string list \<Rightarrow> db
   \<Rightarrow> job option res \<times> db" where
  "claimLoop 0 up now policy atCeiling excluded d = (Inr None, d)"
| "claimLoop (Suc n) up now policy atCeiling excluded d =
     (if \<not> up then (Inl ErrDriver, d)
      else let cands = claimCandidates d (ts now) excluded
      in case tryCands up now policy atCeiling cands [] d of
        (Inl e, d') \<Rightarrow> (Inl e, d')
      | (Inr (Some i, _), d') \<Rightarrow>
          (case GetJob d' i of Inl e \<Rightarrow> (Inl e, d') | Inr j \<Rightarrow> (Inr (Some j), d'))
      | (Inr (None, capped), d') \<Rightarrow>
          if length cands < claimBatch then (Inr None, d')
          else claimLoop n up now policy atCeiling (excluded @ capped) d')"

definition at_ceiling :: "claim_policy \<Rightarrow> db \<Rightarrow> string \<Rightarrow> bool" where
  "at_ceiling policy d client =
     (let limit = maxConcurrentOf policy client
      in 0 < limit \<and> limit \<le> (if MaxConcurrent policy = None then 0 else int (inFlightByClient d client)))"

definition ClaimNext :: "bool \<Rightarrow> instant \<Rightarrow> claim_policy \<Rightarrow> db \<Rightarrow> job option res \<times> db" where
  "ClaimNext up now policy d =
     (if \<not> up then (Inl ErrDriver, d)
      else claimLoop claimRounds up now policy (at_ceiling policy d) [] d)"

section \<open>The poll schedule\<close>

definition ReschedulePoll :: "bool \<Rightarrow> string \<Rightarrow> instant \<Rightarrow> instant \<Rightarrow> db \<Rightarrow> bool res \<times> db" where
  "ReschedulePoll up i at now d =
     (if \<not> up then (Inl ErrDriver, d)
      else case find_job d i of
        None \<Rightarrow> (Inr False, d)
      | Some j \<Rightarrow>
          if j_state j = StateAwaitingTarget then (Inr True, update_job i (set_poll_time at now) d)
          else (Inr False, d))"

text \<open>\<open>rnd i\<close> is the random delay below its target's spread that is drawn for job \<open>i\<close>.\<close>

fun rescheduleAll ::
  "bool \<Rightarrow> (string \<Rightarrow> duration) \<Rightarrow> (string \<Rightarrow> duration) \<Rightarrow> instant \<Rightarrow> job list \<Rightarrow> db \<Rightarrow> unit res \<times> db" where
  "rescheduleAll up spreadFor rnd now [] d = (Inr (), d)"
| "rescheduleAll up spreadFor rnd now (w # ws) d =
     (let at = (if 0 < spreadFor (j_target w) then now + rnd (j_id w) else now)
      in case ReschedulePoll up (j_id w) at now d of
        (Inl e, d') \<Rightarrow> (Inl e, d')
      | (Inr _, d') \<Rightarrow> rescheduleAll up spreadFor rnd now ws d')"

definition ResetPollSchedules ::
  "bool \<Rightarrow> (string \<Rightarrow> duration) \<Rightarrow> (string \<Rightarrow> duration) \<Rightarrow> instant \<Rightarrow> db \<Rightarrow> nat res \<times> db" where
  "ResetPollSchedules up spreadFor rnd now d =
     (let ws = filter (\<lambda>j. j_state j = StateAwaitingTarget) (jobs d)
      in case rescheduleAll up spreadFor rnd now ws d of
           (Inl e, d') \<Rightarrow> (Inl e, d')
         | (Inr _, d') \<Rightarrow> (Inr (length ws), d'))"

end
