(* ===== verification/Delivery_Store.thy ===== *)
theory Delivery_Store
  imports Job_Store
begin

text \<open>
  \<^verbatim>\<open>internal/store/deliveries.go\<close> and \<^verbatim>\<open>cache.go\<close>: the completion-callback outbox as the
  deliverer sees it, and the resolved-series cache.
\<close>

section \<open>Callback deliveries\<close>

datatype delivery_state = DeliveryPending | DeliveryDelivered | DeliveryFailed

definition delivery_state :: "delivery \<Rightarrow> delivery_state" where
  "delivery_state r =
     (if d_delivered_at r \<noteq> None then DeliveryDelivered
      else if d_next_attempt_at r = None then DeliveryFailed
      else DeliveryPending)"

definition GetDelivery :: "db \<Rightarrow> string \<Rightarrow> delivery res" where
  "GetDelivery d i = (case row_by d_job i (deliveries d) of None \<Rightarrow> Inl ErrNotFound | Some r \<Rightarrow> Inr r)"

definition delivery_due :: "stamp \<Rightarrow> delivery \<Rightarrow> bool" where
  "delivery_due nowS r \<longleftrightarrow> d_delivered_at r = None
     \<and> (case d_next_attempt_at r of None \<Rightarrow> False | Some n \<Rightarrow> n \<le> nowS)"

definition DueDeliveries :: "db \<Rightarrow> instant \<Rightarrow> nat \<Rightarrow> delivery list" where
  "DueDeliveries d now limit =
     take limit (sort_key d_next_attempt_at (filter (delivery_due (ts now)) (deliveries d)))"

definition set_attempt ::
  "int option \<Rightarrow> string \<Rightarrow> bool \<Rightarrow> instant option \<Rightarrow> instant \<Rightarrow> delivery \<Rightarrow> delivery" where
  "set_attempt status lastErr delivered next now r =
     r\<lparr>d_attempts := d_attempts r + 1, d_last_status := status, d_last_error := lastErr,
       d_delivered_at := (if delivered then Some (ts now) else None),
       d_next_attempt_at := map_option ts next, d_updated_at := ts now\<rparr>"

definition RecordAttempt ::
  "bool \<Rightarrow> string \<Rightarrow> int \<Rightarrow> int option \<Rightarrow> string \<Rightarrow> bool \<Rightarrow> instant option \<Rightarrow> instant \<Rightarrow> db
   \<Rightarrow> unit res \<times> db" where
  "RecordAttempt up i prevAttempts status lastErr delivered next now d =
     (if \<not> up then (Inl ErrDriver, d)
      else if \<exists>r \<in> set (deliveries d). d_job r = i \<and> d_attempts r = prevAttempts
      then (Inr (), d\<lparr>deliveries := update_where (\<lambda>r. d_job r = i \<and> d_attempts r = prevAttempts)
              (set_attempt status lastErr delivered next now) (deliveries d)\<rparr>)
      else (Inl ErrNotFound, d))"

section \<open>The series cache\<close>

definition GetSeries :: "bool \<Rightarrow> instant \<Rightarrow> string \<Rightarrow> db \<Rightarrow> string option res" where
  "GetSeries up now h d =
     (if \<not> up then Inl ErrDriver
      else Inr (map_option c_response
             (find (\<lambda>r. c_hash r = h \<and> ts now < c_expires_at r) (series_cache d))))"

definition put_series_row ::
  "string \<Rightarrow> string \<Rightarrow> string \<Rightarrow> instant \<Rightarrow> duration \<Rightarrow> series_row list \<Rightarrow> series_row list" where
  "put_series_row h typ response now ttl rows =
     (if h \<in> c_hash ` set rows
      then update_where (\<lambda>r. c_hash r = h)
             (\<lambda>r. r\<lparr>c_response := response, c_created_at := ts now, c_expires_at := ts (now + ttl)\<rparr>) rows
      else rows @ [\<lparr>c_hash = h, c_type = typ, c_response = response, c_created_at = ts now,
                    c_expires_at = ts (now + ttl)\<rparr>])"

definition PutSeries ::
  "bool \<Rightarrow> instant \<Rightarrow> string \<Rightarrow> string \<Rightarrow> string \<Rightarrow> duration \<Rightarrow> db \<Rightarrow> unit res \<times> db" where
  "PutSeries up now h typ response ttl d =
     (if \<not> up then (Inl ErrDriver, d)
      else (Inr (), d\<lparr>series_cache := put_series_row h typ response now ttl (series_cache d)\<rparr>))"

definition PurgeExpiredSeries :: "bool \<Rightarrow> instant \<Rightarrow> db \<Rightarrow> nat res \<times> db" where
  "PurgeExpiredSeries up now d =
     (if \<not> up then (Inl ErrDriver, d)
      else (Inr (count_where (\<lambda>r. c_expires_at r \<le> ts now) (series_cache d)),
            d\<lparr>series_cache := delete_where (\<lambda>r. c_expires_at r \<le> ts now) (series_cache d)\<rparr>))"

end
