(* ===== verification/Timestamps.thy ===== *)
theory Timestamps
  imports Prelude
begin

text \<open>
  The textual form of instants: the calendar date and time of day of an instant at or after
  the Unix epoch, \<^verbatim>\<open>time.RFC3339\<close> in UTC, and the fixed-width layout
  \<^verbatim>\<open>2006-01-02T15:04:05.000Z\<close> of \<^verbatim>\<open>internal/store/store.go\<close>. The calendar walks forward
  from 1970, year by year and month by month.
\<close>

section \<open>Calendar\<close>

definition leap_year :: "nat \<Rightarrow> bool" where
  "leap_year y \<longleftrightarrow> (y mod 4 = 0 \<and> y mod 100 \<noteq> 0) \<or> y mod 400 = 0"

definition year_days :: "nat \<Rightarrow> nat" where
  "year_days y = (if leap_year y then 366 else 365)"

definition month_lengths :: "nat \<Rightarrow> nat list" where
  "month_lengths y = [31, if leap_year y then 29 else 28, 31, 30, 31, 30, 31, 31, 30, 31, 30, 31]"

text \<open>The year and the zero-based day of that year, \<open>n\<close> days after 1 January of \<open>y\<close>.\<close>

function year_of :: "nat \<Rightarrow> nat \<Rightarrow> nat \<times> nat" where
  "year_of y n = (if n < year_days y then (y, n) else year_of (Suc y) (n - year_days y))"
  by pat_completeness auto
termination
  by (relation "measure snd") (auto simp: year_days_def)

declare year_of.simps [simp del]

text \<open>Month (from 1) and day of the month (from 1) of a zero-based day, over the month lengths.\<close>

fun month_of :: "nat \<Rightarrow> nat list \<Rightarrow> nat \<Rightarrow> nat \<times> nat" where
  "month_of m [] n = (m, Suc n)"
| "month_of m (l # ls) n = (if n < l then (m, Suc n) else month_of (Suc m) ls (n - l))"

record civil =
  cv_year :: nat
  cv_month :: nat
  cv_day :: nat
  cv_hour :: nat
  cv_min :: nat
  cv_sec :: nat
  cv_ms :: nat

text \<open>The UTC calendar fields of a number of milliseconds since the epoch.\<close>

definition civil_of :: "nat \<Rightarrow> civil" where
  "civil_of n =
     (let (y, yd) = year_of 1970 (n div 86400000); (m, dd) = month_of 1 (month_lengths y) yd
      in \<lparr>cv_year = y, cv_month = m, cv_day = dd, cv_hour = n div 3600000 mod 24,
          cv_min = n div 60000 mod 60, cv_sec = n div 1000 mod 60, cv_ms = n mod 1000\<rparr>)"

section \<open>Rendering\<close>

fun pad :: "nat \<Rightarrow> nat \<Rightarrow> string" where
  "pad 0 n = []"
| "pad (Suc w) n = pad w (n div 10) @ [digit_char (n mod 10)]"

definition date_time_text :: "civil \<Rightarrow> string" where
  "date_time_text c =
     pad 4 (cv_year c) @ ''-'' @ pad 2 (cv_month c) @ ''-'' @ pad 2 (cv_day c) @ ''T''
       @ pad 2 (cv_hour c) @ '':'' @ pad 2 (cv_min c) @ '':'' @ pad 2 (cv_sec c)"

definition ts_text :: "instant \<Rightarrow> string" where
  "ts_text t = (let c = civil_of (nat (ts t)) in date_time_text c @ ''.'' @ pad 3 (cv_ms c) @ ''Z'')"

definition rfc3339 :: "instant \<Rightarrow> string" where
  "rfc3339 t = date_time_text (civil_of (nat (ts t))) @ ''Z''"

end
