(* ===== verification/Schedule_Store.thy ===== *)
theory Schedule_Store
  imports Job_Store Timestamps
begin

text \<open>
  \<^verbatim>\<open>internal/store/schedules.go\<close>: recurring submissions, their due query and the
  compare-and-set that moves a schedule on.
\<close>

definition RunKeyPrefix :: "string \<Rightarrow> string" where
  "RunKeyPrefix scheduleID = ''schedule:'' @ scheduleID @ '':''"

definition RunKey :: "string \<Rightarrow> instant \<Rightarrow> string" where
  "RunKey scheduleID t = RunKeyPrefix scheduleID @ rfc3339 t"

definition sameAs :: "schedule \<Rightarrow> schedule \<Rightarrow> bool" where
  "sameAs sc other \<longleftrightarrow> s_target sc = s_target other \<and> s_payload sc = s_payload other
     \<and> s_cron sc = s_cron other \<and> s_timezone sc = s_timezone other
     \<and> s_priority sc = s_priority other \<and> s_options sc = s_options other"

definition schedule_by_idem :: "db \<Rightarrow> string \<Rightarrow> string \<Rightarrow> schedule option" where
  "schedule_by_idem d client key =
     find (\<lambda>s. s_client s = client \<and> s_idem s = key \<and> s_idem s \<noteq> '''') (schedules d)"

definition held_schedules :: "db \<Rightarrow> string \<Rightarrow> nat" where
  "held_schedules d client = count_where (\<lambda>s. s_client s = client) (schedules d)"

definition new_schedule_row :: "schedule \<Rightarrow> instant \<Rightarrow> schedule" where
  "new_schedule_row sc now = sc\<lparr>s_enabled := True, s_last_run_at := None, s_last_job_id := '''',
     s_created_at := ts now, s_updated_at := ts now\<rparr>"

definition CreateSchedule ::
  "bool \<Rightarrow> instant \<Rightarrow> schedule \<Rightarrow> int \<Rightarrow> db \<Rightarrow> (bool \<times> schedule) res \<times> db" where
  "CreateSchedule up now sc limit d =
     (if \<not> up then (Inl ErrDriver, d)
      else case (if s_idem sc = '''' then None else schedule_by_idem d (s_client sc) (s_idem sc)) of
        Some ex \<Rightarrow>
          if \<not> sameAs ex sc then (Inl ErrIdempotencyConflict, d) else (Inr (False, ex), d)
      | None \<Rightarrow>
          if limit \<le> int (held_schedules d (s_client sc)) then (Inl ErrScheduleLimit, d)
          else if s_id sc \<in> s_id ` set (schedules d) then (Inl ErrConstraint, d)
          else (Inr (True, sc\<lparr>s_created_at := ts now, s_updated_at := ts now\<rparr>),
                d\<lparr>schedules := schedules d @ [new_schedule_row sc now]\<rparr>))"

definition GetSchedule :: "db \<Rightarrow> string \<Rightarrow> schedule res" where
  "GetSchedule d i = (case row_by s_id i (schedules d) of None \<Rightarrow> Inl ErrNotFound | Some s \<Rightarrow> Inr s)"

definition ListSchedules :: "db \<Rightarrow> string \<Rightarrow> nat \<Rightarrow> schedule list" where
  "ListSchedules d client limit =
     take limit (sort_key s_created_at
       (filter (\<lambda>s. client = '''' \<or> s_client s = client) (schedules d)))"

definition DeleteSchedule :: "bool \<Rightarrow> string \<Rightarrow> db \<Rightarrow> unit res \<times> db" where
  "DeleteSchedule up i d =
     (if \<not> up then (Inl ErrDriver, d)
      else if i \<in> s_id ` set (schedules d)
      then (Inr (), d\<lparr>schedules := delete_where (\<lambda>s. s_id s = i) (schedules d)\<rparr>)
      else (Inl ErrNotFound, d))"

definition schedule_due :: "stamp \<Rightarrow> schedule \<Rightarrow> bool" where
  "schedule_due nowS s \<longleftrightarrow> s_enabled s
     \<and> (case s_next_run_at s of None \<Rightarrow> False | Some n \<Rightarrow> n \<le> nowS)"

definition DueSchedules :: "db \<Rightarrow> instant \<Rightarrow> nat \<Rightarrow> schedule list" where
  "DueSchedules d now limit =
     take limit (sort_key s_next_run_at (filter (schedule_due (ts now)) (schedules d)))"

definition set_advanced :: "instant \<Rightarrow> string \<Rightarrow> instant \<Rightarrow> instant \<Rightarrow> schedule \<Rightarrow> schedule" where
  "set_advanced due jobID next now s =
     s\<lparr>s_last_run_at := Some (ts due), s_last_job_id := jobID, s_next_run_at := Some (ts next),
       s_updated_at := ts now\<rparr>"

definition AdvanceSchedule ::
  "bool \<Rightarrow> string \<Rightarrow> instant \<Rightarrow> string \<Rightarrow> instant \<Rightarrow> instant \<Rightarrow> db \<Rightarrow> bool res \<times> db" where
  "AdvanceSchedule up i due jobID next now d =
     (if \<not> up then (Inl ErrDriver, d)
      else if \<exists>s \<in> set (schedules d). s_id s = i \<and> s_next_run_at s = Some (ts due)
      then (Inr True, d\<lparr>schedules := update_where (\<lambda>s. s_id s = i \<and> s_next_run_at s = Some (ts due))
              (set_advanced due jobID next now) (schedules d)\<rparr>)
      else (Inr False, d))"

end
