(* ===== verification/Job_Lifecycle.thy ===== *)
theory Job_Lifecycle
  imports Job_Claim Delivery_Store Schedule_Store
begin

text \<open>
  The life of a job under arbitrary interleavings of the store's transactions. \<open>store_step\<close>
  has one rule per transaction any component commits, with unconstrained (possibly stale)
  arguments; \<open>reachable_db\<close> is what a sequence of them makes of an empty database. \<open>db_ok\<close>
  is the invariant: keys are unique, rows are consistent with their state, the audit trail
  of every job is a path of the documented state machine that ends in its current state, and
  the callback outbox holds exactly the terminal jobs that asked for one.
\<close>

section \<open>The documented state machine\<close>

inductive lifecycle_edge :: "job_state option \<Rightarrow> job_state \<Rightarrow> bool" where
  accept: "lifecycle_edge None StateReceived"
| claim: "lifecycle_edge (Some StateReceived) StateResolving"
| resolve: "lifecycle_edge (Some StateResolving) StateForwarding"
| park: "lifecycle_edge (Some StateForwarding) StateAwaitingTarget"
| finish: "\<not> IsTerminal s \<Longrightarrow> lifecycle_edge (Some s) StateCompleted"
| fail: "\<not> IsTerminal s \<Longrightarrow> lifecycle_edge (Some s) StateFailed"
| requeue: "\<not> IsTerminal s \<Longrightarrow> lifecycle_edge (Some s) StateReceived"
| cancel: "s = StateReceived \<or> s = StateAwaitingTarget \<Longrightarrow> lifecycle_edge (Some s) StateCancelled"

inductive_simps lifecycle_edge_simps:
  "lifecycle_edge None t" "lifecycle_edge (Some s) t"

lemma no_edge_from_terminal: "IsTerminal s \<Longrightarrow> \<not> lifecycle_edge (Some s) t"
  by (auto simp: lifecycle_edge_simps)

section \<open>The invariant\<close>

definition ids_ok :: "db \<Rightarrow> bool" where
  "ids_ok d \<longleftrightarrow> distinct (map j_id (jobs d)) \<and> sorted_wrt (<) (map j_seq (jobs d))"

definition idem_keys :: "job list \<Rightarrow> (string \<times> string) list" where
  "idem_keys rs = map (\<lambda>j. (j_client j, j_idem j)) (filter (\<lambda>j. j_idem j \<noteq> '''') rs)"

definition idem_ok :: "db \<Rightarrow> bool" where
  "idem_ok d \<longleftrightarrow> distinct (idem_keys (jobs d))"

definition row_ok :: "job \<Rightarrow> bool" where
  "row_ok j \<longleftrightarrow>
     (IsTerminal (j_state j) \<longleftrightarrow> j_completed_at j \<noteq> None)
   \<and> (IsTerminal (j_state j) \<or> in_flight (j_state j) \<longrightarrow> j_next_attempt_at j = None)
   \<and> (j_state j = StateAwaitingTarget \<longrightarrow>
        j_next_attempt_at j \<noteq> None \<and> j_poll_deadline j \<noteq> None \<and> j_target_status j \<noteq> None)
   \<and> (j_state j = StateForwarding \<longrightarrow> j_resolved_payload j \<noteq> None)
   \<and> (j_state j = StateCompleted \<longrightarrow> j_target_status j \<noteq> None)
   \<and> (j_state j = StateFailed \<longleftrightarrow> j_error_code j \<noteq> '''')
   \<and> (j_error_code j \<noteq> '''' \<longrightarrow> j_error_code j \<in> set JobErrorCodes)
   \<and> 0 \<le> j_attempts j
   \<and> (in_flight (j_state j) \<or> j_state j = StateAwaitingTarget \<longrightarrow> 0 < j_attempts j)"

definition rows_ok :: "db \<Rightarrow> bool" where
  "rows_ok d \<longleftrightarrow> (\<forall>j \<in> set (jobs d). row_ok j)"

definition events_of :: "db \<Rightarrow> string \<Rightarrow> event list" where
  "events_of d i = filter (\<lambda>e. e_job e = i) (job_events d)"

fun trail_from :: "job_state option \<Rightarrow> event list \<Rightarrow> bool" where
  "trail_from s [] = True"
| "trail_from s (e # es) \<longleftrightarrow> e_from e = s \<and> lifecycle_edge s (e_to e) \<and> trail_from (Some (e_to e)) es"

fun trail_end :: "job_state option \<Rightarrow> event list \<Rightarrow> job_state option" where
  "trail_end s [] = s"
| "trail_end s (e # es) = trail_end (Some (e_to e)) es"

text \<open>The trail of a row: a path from acceptance to its state with one claim per counted attempt.\<close>

definition trail_of :: "event list \<Rightarrow> job \<Rightarrow> bool" where
  "trail_of es j \<longleftrightarrow> trail_from None es \<and> trail_end None es = Some (j_state j)
     \<and> j_attempts j = int (count_where (\<lambda>e. e_to e = StateResolving) es)"

definition trail_ok :: "db \<Rightarrow> bool" where
  "trail_ok d \<longleftrightarrow>
     (\<forall>j \<in> set (jobs d). trail_of (events_of d (j_id j)) j)
   \<and> (\<forall>e \<in> set (job_events d). e_job e \<in> j_id ` set (jobs d))
   \<and> sorted_wrt (<) (map e_id (job_events d))
   \<and> (\<forall>e \<in> set (job_events d). e_id e \<le> event_seq d)"

definition outbox_ok :: "db \<Rightarrow> bool" where
  "outbox_ok d \<longleftrightarrow>
     distinct (map d_job (deliveries d))
   \<and> (\<forall>r \<in> set (deliveries d). \<exists>j \<in> set (jobs d). j_id j = d_job r \<and> IsTerminal (j_state j)
        \<and> j_callback_url j \<noteq> '''' \<and> d_url r = j_callback_url j \<and> d_event r = EventFor (j_state j))
   \<and> (\<forall>j \<in> set (jobs d). IsTerminal (j_state j) \<and> j_callback_url j \<noteq> '''' \<longrightarrow>
        j_id j \<in> d_job ` set (deliveries d))"

definition db_ok :: "db \<Rightarrow> bool" where
  "db_ok d \<longleftrightarrow> ids_ok d \<and> idem_ok d \<and> rows_ok d \<and> trail_ok d \<and> outbox_ok d"

lemmas db_ok_parts = db_ok_def ids_ok_def idem_ok_def rows_ok_def trail_ok_def outbox_ok_def

lemma db_ok_empty: "db_ok empty_db"
  by (simp add: db_ok_parts empty_db_def idem_keys_def)

section \<open>Trails and keys\<close>

lemma trail_from_snoc:
  "trail_from s (es @ [e]) \<longleftrightarrow>
     trail_from s es \<and> e_from e = trail_end s es \<and> lifecycle_edge (trail_end s es) (e_to e)"
  by (induction es arbitrary: s) auto

lemma trail_end_snoc [simp]: "trail_end s (es @ [e]) = Some (e_to e)"
  by (induction es arbitrary: s) auto

lemma events_of_snoc:
  "job_events d' = job_events d @ [e] \<Longrightarrow>
   events_of d' i = events_of d i @ (if e_job e = i then [e] else [])"
  by (simp add: events_of_def)

lemma idem_keys_update:
  "(\<And>j. P j \<Longrightarrow> j_client (f j) = j_client j \<and> j_idem (f j) = j_idem j) \<Longrightarrow>
   idem_keys (update_where P f rs) = idem_keys rs"
  by (induction rs) (auto simp: idem_keys_def)

lemma idem_keys_delete: "distinct (idem_keys rs) \<Longrightarrow> distinct (idem_keys (delete_where p rs))"
proof (induction rs)
  case (Cons j rs)
  have "set (idem_keys (delete_where p rs)) \<subseteq> set (idem_keys rs)"
    by (auto simp: idem_keys_def)
  with Cons show ?case by (auto simp: idem_keys_def delete_where_def)
qed (simp add: idem_keys_def delete_where_def)

lemma update_where_key_eq:
  assumes "distinct (map key rs)" and "row_by key k rs = Some r"
  shows "update_where (\<lambda>x. key x = k) f rs = update_where (\<lambda>x. x = r) f rs"
proof -
  have "key x = k \<longleftrightarrow> x = r" if "x \<in> set rs" for x
    using row_by_distinct [OF assms(1) that] assms(2) row_by_SomeD [OF assms(2)]
    by (metis option.inject)
  then show ?thesis unfolding update_where_def by (intro map_cong refl) simp
qed

section \<open>The five shapes of a committed change\<close>

text \<open>
  \<open>job_move d d' j f to ev\<close>: the row \<open>j\<close> was replaced by \<open>f j\<close>, which keeps the columns of the submission
  and is in state \<open>to\<close>; one event records the move and, when \<open>to\<close> is terminal and the job
  asked for a callback, one delivery was added.
\<close>

definition same_key :: "job \<Rightarrow> job \<Rightarrow> bool" where
  "same_key j j' \<longleftrightarrow> j_id j' = j_id j \<and> j_seq j' = j_seq j \<and> j_client j' = j_client j
     \<and> j_idem j' = j_idem j \<and> j_callback_url j' = j_callback_url j
     \<and> j_target j' = j_target j \<and> j_payload j' = j_payload j \<and> j_priority j' = j_priority j
     \<and> j_options j' = j_options j \<and> j_max_attempts j' = j_max_attempts j
     \<and> j_not_before j' = j_not_before j \<and> j_created_at j' = j_created_at j"

definition job_move :: "db \<Rightarrow> db \<Rightarrow> job \<Rightarrow> (job \<Rightarrow> job) \<Rightarrow> job_state \<Rightarrow> event \<Rightarrow> bool" where
  "job_move d d' j f to ev \<longleftrightarrow>
     j \<in> set (jobs d) \<and> \<not> IsTerminal (j_state j) \<and> same_key j (f j) \<and> j_state (f j) = to
   \<and> j_attempts (f j) = j_attempts j + (if to = StateResolving then 1 else 0)
   \<and> jobs d' = update_where (\<lambda>r. r = j) f (jobs d)
   \<and> job_events d' = job_events d @ [ev]
   \<and> e_job ev = j_id j \<and> e_from ev = Some (j_state j) \<and> e_to ev = to
   \<and> e_id ev = event_seq d + 1 \<and> event_seq d' = event_seq d + 1
   \<and> (if IsTerminal to \<and> j_callback_url j \<noteq> ''''
      then \<exists>r. deliveries d' = deliveries d @ [r] \<and> d_job r = j_id j \<and> d_url r = j_callback_url j
             \<and> d_event r = EventFor to
      else deliveries d' = deliveries d)"

lemma ids_ok_update:
  "ids_ok d \<Longrightarrow> jobs d' = update_where P f (jobs d) \<Longrightarrow>
   (\<And>j. P j \<Longrightarrow> j_id (f j) = j_id j \<and> j_seq (f j) = j_seq j) \<Longrightarrow> ids_ok d'"
  by (simp add: ids_ok_def update_where_def comp_def if_distrib cong: if_cong)

lemma job_move_facts:
  assumes "db_ok d" and "job_move d d' j f to ev"
  shows "j \<in> set (jobs d)" and "\<not> IsTerminal (j_state j)"
    and "set (jobs d') = (\<lambda>r. if r = j then f r else r) ` set (jobs d)"
    and "r \<in> set (jobs d) \<Longrightarrow> j_id r = j_id j \<Longrightarrow> r = j"
    and "j_id ` set (jobs d') = j_id ` set (jobs d)"
proof -
  note mv = assms(2) [unfolded job_move_def same_key_def]
  show j: "j \<in> set (jobs d)" and "\<not> IsTerminal (j_state j)" using mv by auto
  show jobs': "set (jobs d') = (\<lambda>r. if r = j then f r else r) ` set (jobs d)"
    using mv by (simp add: set_update_where)
  show "r \<in> set (jobs d) \<Longrightarrow> j_id r = j_id j \<Longrightarrow> r = j"
    using assms(1) j by (metis db_ok_def ids_ok_def row_by_distinct option.inject)
  show "j_id ` set (jobs d') = j_id ` set (jobs d)"
    unfolding jobs' image_image using mv by (intro image_cong) auto
qed

lemma job_move_keys:
  assumes ok: "db_ok d" and mv: "job_move d d' j f to ev" and row: "row_ok (f j)"
  shows "ids_ok d'" and "idem_ok d'" and "rows_ok d'"
proof -
  note mv' = mv [unfolded job_move_def same_key_def]
  show "ids_ok d'"
    using ok mv' by (auto intro: ids_ok_update simp: db_ok_def)
  have "idem_keys (jobs d') = idem_keys (jobs d)"
    using mv' by (auto intro: idem_keys_update)
  then show "idem_ok d'"
    using ok by (simp add: db_ok_def idem_ok_def)
  show "rows_ok d'"
    using ok row job_move_facts(3) [OF ok mv] by (auto simp: db_ok_def rows_ok_def)
qed

lemma job_move_trail:
  assumes ok: "db_ok d" and mv: "job_move d d' j f to ev"
    and edge: "lifecycle_edge (Some (j_state j)) to"
  shows "trail_ok d'"
proof -
  note mv' = mv [unfolded job_move_def same_key_def] and F = job_move_facts [OF ok mv]
  have t: "trail_of (events_of d (j_id r)) r"
    if "r \<in> set (jobs d)" for r using ok that by (simp add: db_ok_parts)
  have ev: "events_of d' i = events_of d i @ (if e_job ev = i then [ev] else [])" for i
    using mv' by (intro events_of_snoc) simp
  have "trail_of (events_of d' (j_id r)) r"
    if r: "r \<in> set (jobs d')" for r
  proof -
    from r F(3) obtain q where q: "q \<in> set (jobs d)" "r = (if q = j then f q else q)" by auto
    show ?thesis
    proof (cases "q = j")
      case True
      with q mv' have "j_id r = j_id j" "j_state r = to"
        "j_attempts r = j_attempts j + (if to = StateResolving then 1 else 0)" by auto
      with t [OF F(1)] mv' edge show ?thesis by (simp add: ev trail_of_def trail_from_snoc)
    next
      case False
      with q F(4) have "j_id r \<noteq> j_id j" "r = q" by auto
      with t [OF q(1)] mv' show ?thesis by (auto simp: ev)
    qed
  qed
  moreover have "\<forall>e \<in> set (job_events d'). e_job e \<in> j_id ` set (jobs d')"
    using ok F(1,5) mv' by (auto simp: db_ok_parts)
  moreover have "sorted_wrt (<) (map e_id (job_events d'))"
    using ok mv' by (auto simp: db_ok_parts sorted_wrt_append)
  moreover have "\<forall>e \<in> set (job_events d'). e_id e \<le> event_seq d'"
    using ok mv' by (auto simp: db_ok_parts)
  ultimately show ?thesis unfolding trail_ok_def by blast
qed

text \<open>A delivery matches the terminal job it belongs to.\<close>

definition delivers :: "delivery \<Rightarrow> job \<Rightarrow> bool" where
  "delivers r j \<longleftrightarrow> j_id j = d_job r \<and> IsTerminal (j_state j)
     \<and> j_callback_url j \<noteq> '''' \<and> d_url r = j_callback_url j \<and> d_event r = EventFor (j_state j)"

lemma outbox_ok_alt:
  "outbox_ok d \<longleftrightarrow> distinct (map d_job (deliveries d))
     \<and> (\<forall>r \<in> set (deliveries d). \<exists>j \<in> set (jobs d). delivers r j)
     \<and> (\<forall>j \<in> set (jobs d). IsTerminal (j_state j) \<and> j_callback_url j \<noteq> '''' \<longrightarrow>
          j_id j \<in> d_job ` set (deliveries d))"
  by (simp add: outbox_ok_def delivers_def)

lemma job_move_outbox:
  assumes ok: "db_ok d" and mv: "job_move d d' j f to ev"
  shows "outbox_ok d'"
proof -
  note mv' = mv [unfolded job_move_def same_key_def] and F = job_move_facts [OF ok mv]
  have out: "outbox_ok d" using ok by (simp add: db_ok_def)
  have nj: "j_id j \<notin> d_job ` set (deliveries d)"
  proof
    assume "j_id j \<in> d_job ` set (deliveries d)"
    with out obtain q where "q \<in> set (jobs d)" "j_id q = j_id j" "IsTerminal (j_state q)"
      by (force simp: outbox_ok_alt delivers_def)
    with F(2,4) show False by blast
  qed
  have keep: "\<exists>q \<in> set (jobs d'). delivers r q" if "r \<in> set (deliveries d)" for r
  proof -
    from that out obtain q where q: "q \<in> set (jobs d)" "delivers r q"
      by (auto simp: outbox_ok_alt)
    with F(2) have "q \<noteq> j" by (auto simp: delivers_def)
    with q F(3) show ?thesis by force
  qed
  have fj: "f j \<in> set (jobs d')" using F(1,3) by force
  consider (callback) r where "IsTerminal to" "j_callback_url j \<noteq> ''''"
      "deliveries d' = deliveries d @ [r]" "d_job r = j_id j"
      "d_url r = j_callback_url j" "d_event r = EventFor to"
    | (none) "deliveries d' = deliveries d" "\<not> (IsTerminal to \<and> j_callback_url j \<noteq> '''')"
    using mv' by (auto split: if_splits)
  then show ?thesis
  proof cases
    case callback
    with mv' have "delivers r (f j)" by (simp add: delivers_def)
    with callback fj keep have "\<forall>x \<in> set (deliveries d'). \<exists>q \<in> set (jobs d'). delivers x q" by auto
    moreover have "distinct (map d_job (deliveries d'))"
      using out callback nj by (auto simp: outbox_ok_def)
    moreover have "j_id q \<in> d_job ` set (deliveries d')"
      if "q \<in> set (jobs d')" "IsTerminal (j_state q)" "j_callback_url q \<noteq> ''''" for q
      using that F(3) out callback mv' by (auto simp: outbox_ok_def split: if_splits)
    ultimately show ?thesis unfolding outbox_ok_alt by blast
  next
    case none
    have "j_id q \<in> d_job ` set (deliveries d)"
      if "q \<in> set (jobs d')" "IsTerminal (j_state q)" "j_callback_url q \<noteq> ''''" for q
      using that F(3) out none(2) mv' by (auto simp: outbox_ok_def split: if_splits)
    with none(1) out keep show ?thesis unfolding outbox_ok_alt by auto
  qed
qed

lemma job_move_ok:
  assumes "db_ok d" and "job_move d d' j f to ev"
    and "lifecycle_edge (Some (j_state j)) to" and "row_ok (f j)"
  shows "db_ok d'"
  unfolding db_ok_def
  using job_move_keys [OF assms(1,2,4)] job_move_trail [OF assms(1-3)] job_move_outbox [OF assms(1,2)]
  by blast

text \<open>
  The other shapes: a row rewritten without leaving its state, a new job, pruned terminal jobs
  and a delivery attempt. Tables outside the job life cycle are irrelevant.
\<close>

definition job_touch :: "db \<Rightarrow> db \<Rightarrow> job \<Rightarrow> (job \<Rightarrow> job) \<Rightarrow> bool" where
  "job_touch d d' j f \<longleftrightarrow>
     j \<in> set (jobs d) \<and> same_key j (f j) \<and> j_state (f j) = j_state j \<and> j_attempts (f j) = j_attempts j
   \<and> jobs d' = update_where (\<lambda>r. r = j) f (jobs d)
   \<and> job_events d' = job_events d \<and> event_seq d' = event_seq d \<and> deliveries d' = deliveries d"

lemma db_ok_cong:
  "jobs d' = jobs d \<Longrightarrow> job_events d' = job_events d \<Longrightarrow> event_seq d' = event_seq d \<Longrightarrow>
   deliveries d' = deliveries d \<Longrightarrow> db_ok d' \<longleftrightarrow> db_ok d"
  by (simp add: db_ok_parts events_of_def)

lemma job_touch_ok:
  assumes ok: "db_ok d" and tc: "job_touch d d' j f" and row: "row_ok (f j)"
  shows "db_ok d'"
proof -
  note tc' = tc [unfolded job_touch_def same_key_def]
  have jobs': "set (jobs d') = (\<lambda>r. if r = j then f r else r) ` set (jobs d)"
    using tc' by (simp add: set_update_where)
  have ids': "j_id ` set (jobs d') = j_id ` set (jobs d)"
    unfolding jobs' image_image using tc' by (intro image_cong) auto
  have bwd: "\<exists>q \<in> set (jobs d). j_id r = j_id q \<and> j_state r = j_state q \<and> j_callback_url r = j_callback_url q
      \<and> j_attempts r = j_attempts q"
    if "r \<in> set (jobs d')" for r using that jobs' tc' by (auto split: if_splits)
  have fwd: "\<exists>q' \<in> set (jobs d'). j_id q' = j_id q \<and> j_state q' = j_state q \<and> j_callback_url q' = j_callback_url q"
    if "q \<in> set (jobs d)" for q using that jobs' tc' by (cases "q = j") force+
  have "ids_ok d'"
    using ok tc' by (auto intro: ids_ok_update simp: db_ok_def)
  moreover have "idem_keys (jobs d') = idem_keys (jobs d)"
    using tc' by (auto intro: idem_keys_update)
  then have "idem_ok d'" using ok by (simp add: db_ok_def idem_ok_def)
  moreover have "rows_ok d'"
    using ok row jobs' by (auto simp: db_ok_def rows_ok_def)
  moreover have "trail_ok d'"
  proof -
    have ev: "events_of d' = events_of d" using tc' by (simp add: events_of_def fun_eq_iff)
    have "trail_of (events_of d' (j_id r)) r"
      if "r \<in> set (jobs d')" for r
      using bwd [OF that] ok by (auto simp: ev db_ok_def trail_ok_def trail_of_def)
    with ok tc' ids' show ?thesis by (simp add: db_ok_def trail_ok_def)
  qed
  moreover have "outbox_ok d'"
  proof -
    have "\<exists>q' \<in> set (jobs d'). delivers r q'" if r: "r \<in> set (deliveries d')" for r
    proof -
      from r ok tc' obtain q where "q \<in> set (jobs d)" "delivers r q"
        by (auto simp: db_ok_def outbox_ok_alt)
      with fwd [of q] show ?thesis by (auto simp: delivers_def)
    qed
    moreover have "j_id r \<in> d_job ` set (deliveries d')"
      if "r \<in> set (jobs d')" "IsTerminal (j_state r)" "j_callback_url r \<noteq> ''''" for r
      using that bwd [of r] ok tc' by (auto simp: db_ok_def outbox_ok_def)
    ultimately show ?thesis using ok tc' unfolding outbox_ok_alt by (auto simp: db_ok_def outbox_ok_def)
  qed
  ultimately show ?thesis by (simp add: db_ok_def)
qed

lemma job_insert_ok:
  assumes ok: "db_ok d" and fresh: "j_id r \<notin> j_id ` set (jobs d)"
    and seq: "\<forall>q \<in> set (jobs d). j_seq q < j_seq r"
    and idem: "j_idem r \<noteq> '''' \<longrightarrow> (\<forall>q \<in> set (jobs d). \<not> has_idem (j_client r) (j_idem r) q)"
    and row: "row_ok r" "j_state r = StateReceived" "j_attempts r = 0"
    and tabs: "jobs d' = jobs d @ [r]" "job_events d' = job_events d @ [ev]" "deliveries d' = deliveries d"
    and ev: "e_job ev = j_id r" "e_from ev = None" "e_to ev = StateReceived"
      "e_id ev = event_seq d + 1" "event_seq d' = event_seq d + 1"
  shows "db_ok d'"
proof -
  have "ids_ok d'"
    using ok fresh seq tabs(1) by (auto simp: db_ok_parts sorted_wrt_append)
  moreover have "idem_ok d'"
    using ok idem tabs(1) by (auto simp: db_ok_def idem_ok_def idem_keys_def has_idem_def)
  moreover have "rows_ok d'"
    using ok row(1) tabs(1) by (auto simp: db_ok_parts)
  moreover have "trail_ok d'"
  proof -
    have none: "events_of d (j_id r) = []"
    proof -
      have "e_job e \<noteq> j_id r" if "e \<in> set (job_events d)" for e
        using ok fresh that unfolding db_ok_def trail_ok_def by metis
      then show ?thesis by (simp add: events_of_def filter_empty_conv)
    qed
    have evs: "events_of d' i = events_of d i @ (if e_job ev = i then [ev] else [])" for i
      using tabs(2) by (rule events_of_snoc)
    have "trail_of (events_of d' (j_id q)) q"
      if "q \<in> set (jobs d')" for q
    proof (cases "q \<in> set (jobs d)")
      case True
      with fresh have "j_id q \<noteq> j_id r" by (metis imageI)
      with True ok ev(1) show ?thesis by (auto simp: evs db_ok_parts)
    next
      case False
      with that tabs(1) have "q = r" by auto
      with none ev row(2,3) show ?thesis by (simp add: evs trail_of_def lifecycle_edge_simps)
    qed
    moreover have "\<forall>e \<in> set (job_events d'). e_job e \<in> j_id ` set (jobs d')"
      using ok tabs ev(1) by (auto simp: db_ok_parts)
    moreover have "sorted_wrt (<) (map e_id (job_events d'))"
      using ok tabs(2) ev(4) by (auto simp: db_ok_parts sorted_wrt_append)
    moreover have "\<forall>e \<in> set (job_events d'). e_id e \<le> event_seq d'"
      using ok tabs(2) ev(4,5) by (auto simp: db_ok_parts)
    ultimately show ?thesis unfolding trail_ok_def by blast
  qed
  moreover have "outbox_ok d'"
    using ok tabs row(2) by (auto simp: db_ok_def outbox_ok_alt)
  ultimately show ?thesis by (simp add: db_ok_def)
qed

lemma job_delete_ok:
  assumes ok: "db_ok d"
  shows "db_ok (deleteJobChunk ids d)"
proof -
  let ?d = "deleteJobChunk ids d"
  have "ids_ok ?d"
    using ok by (auto simp: db_ok_def ids_ok_def deleteJobChunk_def
        delete_where_def sorted_wrt_map distinct_map_filter intro: sorted_wrt_filter)
  moreover have "idem_ok ?d"
    using ok by (simp add: db_ok_def idem_ok_def deleteJobChunk_def idem_keys_delete)
  moreover have "rows_ok ?d"
    using ok by (auto simp: db_ok_parts deleteJobChunk_def)
  moreover have "trail_ok ?d"
  proof -
    have "events_of ?d i = events_of d i" if "i \<notin> set ids" for i
      using that by (auto simp: events_of_def deleteJobChunk_def delete_where_def intro: filter_cong)
    then have "\<forall>j \<in> set (jobs ?d). trail_of (events_of ?d (j_id j)) j"
      using ok by (auto simp: db_ok_parts deleteJobChunk_def)
    moreover have "sorted_wrt (<) (map e_id (job_events ?d))"
      using ok by (auto simp: db_ok_parts deleteJobChunk_def delete_where_def sorted_wrt_map
          intro: sorted_wrt_filter)
    ultimately show ?thesis
      using ok unfolding db_ok_def trail_ok_def by (auto simp: deleteJobChunk_def)
  qed
  moreover have "outbox_ok ?d"
  proof -
    have out: "outbox_ok d" using ok by (simp add: db_ok_def)
    have "\<exists>j \<in> set (jobs ?d). delivers r j" if "r \<in> set (deliveries ?d)" for r
      using that out by (fastforce simp: outbox_ok_alt deleteJobChunk_def delivers_def)
    moreover have "j_id j \<in> d_job ` set (deliveries ?d)"
      if "j \<in> set (jobs ?d)" "IsTerminal (j_state j)" "j_callback_url j \<noteq> ''''" for j
      using that out by (fastforce simp: outbox_ok_def deleteJobChunk_def)
    ultimately show ?thesis
      using out unfolding outbox_ok_alt
      by (auto simp: deleteJobChunk_def distinct_map_delete_where)
  qed
  ultimately show ?thesis by (simp add: db_ok_def)
qed

lemma delivery_update_ok:
  assumes ok: "db_ok d"
    and keep: "\<And>r. d_job (f r) = d_job r \<and> d_url (f r) = d_url r \<and> d_event (f r) = d_event r"
  shows "db_ok (d\<lparr>deliveries := update_where p f (deliveries d)\<rparr>)"
proof -
  have job_keys: "map d_job (update_where p f rs) = map d_job rs" for rs
    using keep by (simp add: map_update_where)
  have del: "delivers (if p r then f r else r) = delivers r" for r
    using keep by (auto simp: delivers_def fun_eq_iff)
  have job_set: "d_job ` set (update_where p f rs) = d_job ` set rs" for rs
    using arg_cong [OF job_keys, of set] by simp
  have out: "outbox_ok d" using ok by (simp add: db_ok_def)
  have "\<exists>j \<in> set (jobs d). delivers r j" if "r \<in> set (update_where p f (deliveries d))" for r
  proof -
    from that obtain q where "q \<in> set (deliveries d)" "r = (if p q then f q else q)"
      by (auto simp: set_update_where)
    with out del [of q] show ?thesis by (auto simp: outbox_ok_alt)
  qed
  with out have "outbox_ok (d\<lparr>deliveries := update_where p f (deliveries d)\<rparr>)"
    by (simp add: outbox_ok_alt job_keys job_set)
  with ok show ?thesis by (simp add: db_ok_parts events_of_def)
qed

end
