(* ===== verification/Job_Steps.thy ===== *)
theory Job_Steps
  imports Job_Lifecycle
begin

text \<open>
  Every writing operation of the store against the invariant of theory Job_Lifecycle. The
  contract \<open>audited_transition\<close> is what \<^verbatim>\<open>transitionGuarded\<close> asks of a caller (guard, target
  state and extra columns) and is met by each transition of \<^verbatim>\<open>jobs.go\<close>; \<open>store_step\<close> has one
  rule per transaction and \<open>reachable_db\<close> is any interleaving of them.
\<close>

section \<open>What a guarded transition does\<close>

lemma appendEventTx_tables [simp]:
  "jobs (appendEventTx i frm to detail now d) = jobs d"
  "deliveries (appendEventTx i frm to detail now d) = deliveries d"
  "event_seq (appendEventTx i frm to detail now d) = event_seq d + 1"
  "client_claims (appendEventTx i frm to detail now d) = client_claims d"
  "series_cache (appendEventTx i frm to detail now d) = series_cache d"
  "schedules (appendEventTx i frm to detail now d) = schedules d"
  by (simp_all add: appendEventTx_def)

lemma find_job_append [simp]: "find_job (appendEventTx i frm to detail now d) k = find_job d k"
  by (simp add: find_job_def)

definition may_move :: "db \<Rightarrow> string \<Rightarrow> (job_state \<Rightarrow> store_error option) \<Rightarrow> job \<Rightarrow> bool" where
  "may_move d i guard j \<longleftrightarrow>
     find_job d i = Some j \<and> \<not> IsTerminal (j_state j) \<and> guard (j_state j) = None"

definition refusal :: "db \<Rightarrow> string \<Rightarrow> (job_state \<Rightarrow> store_error option) \<Rightarrow> store_error option" where
  "refusal d i guard =
     (case find_job d i of
        None \<Rightarrow> Some ErrNotFound
      | Some j \<Rightarrow> if IsTerminal (j_state j) then Some ErrTerminalState else guard (j_state j))"

lemma no_delivery_yet:
  assumes "db_ok d" and "find_job d i = Some j" and "\<not> IsTerminal (j_state j)"
  shows "i \<notin> d_job ` set (deliveries d)"
proof
  assume "i \<in> d_job ` set (deliveries d)"
  with assms(1) obtain q where q: "q \<in> set (jobs d)" "j_id q = i" "IsTerminal (j_state q)"
    by (auto simp: db_ok_def outbox_ok_def)
  from assms(1) q have "find_job d i = Some q"
    using find_job_self [of d q] by (simp add: db_ok_def ids_ok_def)
  with assms(2,3) q(3) show False by simp
qed

lemma jobs_update_one:
  assumes "db_ok d" and "find_job d i = Some j"
  shows "jobs (update_job i f d) = update_where (\<lambda>r. r = j) f (jobs d)"
  using assms update_where_key_eq [of j_id "jobs d" i j f]
  by (simp add: jobs_update_job db_ok_def ids_ok_def find_job_def)

text \<open>
  On a consistent database a transition either refuses with the error the guards give and
  changes nothing, or moves exactly the one job.
\<close>

lemma transitionGuarded_refuse:
  assumes "refusal d i guard = Some e"
  shows "transitionGuarded True now i guard to detail build d = (Inl e, d)"
  using assms by (auto simp: transitionGuarded_def refusal_def currentState_def split: option.splits if_splits)

lemma transitionGuarded_down [simp]:
  "transitionGuarded False now i guard to detail build d = (Inl ErrDriver, d)"
  by (simp add: transitionGuarded_def)

lemma refusal_None: "refusal d i guard = None \<longleftrightarrow> (\<exists>j. may_move d i guard j)"
  by (auto simp: refusal_def may_move_def split: option.splits)

lemma transitionGuarded_move:
  assumes ok: "db_ok d" and may: "may_move d i guard j"
    and key: "\<And>r. same_key r (build r)" and st: "\<And>r. j_state (build r) = j_state r"
    and att: "\<And>r. j_attempts (build r) = j_attempts r" and to: "to \<noteq> StateResolving"
  obtains d' ev where "transitionGuarded True now i guard to detail build d = (Inr (), d')"
    and "job_move d d' j (buildUpdate to now build) to ev"
    and "client_claims d' = client_claims d"
    and "series_cache d' = series_cache d" and "schedules d' = schedules d"
    and "e_detail ev = detail" and "e_created_at ev = ts now"
proof -
  from may have j: "find_job d i = Some j" "\<not> IsTerminal (j_state j)" "guard (j_state j) = None"
    by (simp_all add: may_move_def)
  have mem: "j \<in> set (jobs d)" "j_id j = i" using find_job_SomeD [OF j(1)] by auto
  have bk: "same_key r (buildUpdate to now build r)" for r
    using key [of "r\<lparr>j_state := to, j_updated_at := ts now\<rparr>"]
    by (simp add: buildUpdate_def same_key_def)
  have bs: "j_state (buildUpdate to now build r) = to" for r by (simp add: buildUpdate_def st)
  define d1 where "d1 = appendEventTx i (Some (j_state j)) to detail now
    (update_job i (buildUpdate to now build) d)"
  define ev where "ev = \<lparr>e_id = event_seq d + 1, e_job = i, e_from = Some (j_state j), e_to = to,
    e_detail = detail, e_created_at = ts now\<rparr>"
  have e1: "job_events d1 = job_events d @ [ev]"
    by (simp add: d1_def ev_def appendEventTx_def)
  have jobs1: "jobs d1 = update_where (\<lambda>r. r = j) (buildUpdate to now build) (jobs d)"
    by (simp add: d1_def jobs_update_one [OF ok j(1)])
  have f1: "find_job d1 i = Some (buildUpdate to now build j)"
    using bk j(1) by (simp add: d1_def find_job_update_job same_key_def)
  have cb: "j_callback_url (buildUpdate to now build j) = j_callback_url j"
    using bk by (simp add: same_key_def)
  have nd: "i \<notin> d_job ` set (deliveries d1)"
    using no_delivery_yet [OF ok j(1,2)] by (simp add: d1_def)
  let ?add = "IsTerminal to \<and> j_callback_url j \<noteq> ''''"
  define row where "row = \<lparr>d_job = i, d_url = j_callback_url j, d_event = EventFor to, d_attempts = 0,
      d_next_attempt_at = Some (ts now), d_delivered_at = None,
      d_last_status = None, d_last_error = '''', d_updated_at = ts now\<rparr>"
  define d' where "d' = (if ?add then d1\<lparr>deliveries := deliveries d1 @ [row]\<rparr> else d1)"
  have "transitionGuarded True now i guard to detail build d = (Inr (), d')"
    using j f1 cb nd
    by (simp add: transitionGuarded_def currentState_def d1_def [symmetric] Let_def
        enqueueCallbackTx_def row_def d'_def)
  moreover have "job_move d d' j (buildUpdate to now build) to ev"
    using mem j(2) bk bs jobs1 e1 to
    by (auto simp: job_move_def d'_def ev_def row_def d1_def buildUpdate_def att)
  moreover have "client_claims d' = client_claims d" "series_cache d' = series_cache d"
      "schedules d' = schedules d" by (auto simp: d'_def d1_def)
  moreover have "e_detail ev = detail" "e_created_at ev = ts now" by (simp_all add: ev_def)
  ultimately show thesis using that by blast
qed

section \<open>The contract of a transition\<close>

text \<open>
  What one transaction may do to one row: keep the submission, stay or follow an edge of the
  state machine, and leave a terminal row as it is.
\<close>

definition row_step :: "job \<Rightarrow> job \<Rightarrow> bool" where
  "row_step j j' \<longleftrightarrow> same_key j j'
     \<and> (j_state j' = j_state j \<or> lifecycle_edge (Some (j_state j)) (j_state j'))
     \<and> (IsTerminal (j_state j) \<longrightarrow> j' = j)"

lemma row_step_refl [simp]: "row_step j j"
  by (simp add: row_step_def same_key_def)

locale audited_transition =
  fixes now :: instant and guard :: "job_state \<Rightarrow> store_error option" and to :: job_state
    and build :: "job \<Rightarrow> job"
  assumes keeps_key: "same_key j (build j)"
    and keeps_state: "j_state (build j) = j_state j"
    and keeps_attempts: "j_attempts (build j) = j_attempts j"
    and no_claim: "to \<noteq> StateResolving"
    and edge: "\<not> IsTerminal s \<Longrightarrow> guard s = None \<Longrightarrow> lifecycle_edge (Some s) to"
    and keeps_row: "row_ok j \<Longrightarrow> \<not> IsTerminal (j_state j) \<Longrightarrow> guard (j_state j) = None \<Longrightarrow>
          row_ok (buildUpdate to now build j)"
begin

lemma answer:
  "db_ok d \<Longrightarrow> fst (transitionGuarded up now i guard to detail build d) =
     (if \<not> up then Inl ErrDriver else case refusal d i guard of Some e \<Rightarrow> Inl e | None \<Rightarrow> Inr ())"
proof -
  assume ok: "db_ok d"
  show ?thesis
  proof (cases "refusal d i guard")
    case (Some e)
    then show ?thesis by (cases up) (simp_all add: transitionGuarded_refuse)
  next
    case None
    then obtain j where "may_move d i guard j" by (auto simp: refusal_None)
    with ok obtain d' where "transitionGuarded True now i guard to detail build d = (Inr (), d')"
      by (rule transitionGuarded_move [OF _ _ keeps_key keeps_state keeps_attempts no_claim])
    with None show ?thesis by (cases up) simp_all
  qed
qed

lemma outcome:
  assumes "db_ok d" and "transitionGuarded up now i guard to detail build d = (r, d')"
  shows "(\<exists>e. r = Inl e \<and> d' = d) \<or>
    (\<exists>j ev. r = Inr () \<and> up \<and> may_move d i guard j \<and> job_move d d' j (buildUpdate to now build) to ev
       \<and> client_claims d' = client_claims d \<and> series_cache d' = series_cache d \<and> schedules d' = schedules d)"
proof (cases "up \<and> refusal d i guard = None")
  case True
  then obtain j where j: "may_move d i guard j" by (auto simp: refusal_None)
  from assms(1) j obtain d1 ev where "transitionGuarded True now i guard to detail build d = (Inr (), d1)"
      "job_move d d1 j (buildUpdate to now build) to ev"
      "client_claims d1 = client_claims d" "series_cache d1 = series_cache d" "schedules d1 = schedules d"
    by (rule transitionGuarded_move [OF _ _ keeps_key keeps_state keeps_attempts no_claim])
  with assms(2) True j show ?thesis by auto
next
  case False
  then show ?thesis using assms(2) by (cases up) (auto simp: transitionGuarded_refuse)
qed

lemma error_keeps_db:
  "db_ok d \<Longrightarrow> transitionGuarded up now i guard to detail build d = (Inl e, d') \<Longrightarrow> d' = d"
  using outcome by blast

lemma preserves:
  assumes "db_ok d" and "transitionGuarded up now i guard to detail build d = (r, d')"
  shows "db_ok d'"
  using outcome [OF assms]
proof (elim disjE exE conjE)
  fix j ev
  assume may: "may_move d i guard j" and mv: "job_move d d' j (buildUpdate to now build) to ev"
  from may have j: "find_job d i = Some j" "\<not> IsTerminal (j_state j)" "guard (j_state j) = None"
    by (simp_all add: may_move_def)
  with assms(1) find_job_SomeD [OF j(1)] have "row_ok j" by (auto simp: db_ok_def rows_ok_def)
  with j assms(1) mv edge keeps_row show ?thesis by (blast intro: job_move_ok)
qed (use assms in simp)

text \<open>The row afterwards, and that no other row is touched.\<close>

lemma find_after:
  assumes "db_ok d" and "transitionGuarded up now i guard to detail build d = (r, d')"
  shows "find_job d' k =
    (if k = i \<and> r = Inr () then map_option (buildUpdate to now build) (find_job d k) else find_job d k)"
  using outcome [OF assms]
proof (elim disjE exE conjE)
  fix j ev
  assume may: "may_move d i guard j" and mv: "job_move d d' j (buildUpdate to now build) to ev"
    and r: "r = Inr ()"
  have fj: "find_job d i = Some j" using may by (simp add: may_move_def)
  have key: "j_id (buildUpdate to now build q) = j_id q" for q
    using keeps_key [of "q\<lparr>j_state := to, j_updated_at := ts now\<rparr>"]
    by (simp add: buildUpdate_def same_key_def)
  have "jobs d' = jobs (update_job i (buildUpdate to now build) d)"
    using mv by (simp add: job_move_def jobs_update_one [OF assms(1) fj])
  then have "find_job d' k = find_job (update_job i (buildUpdate to now build) d) k"
    by (simp add: find_job_def)
  with r show ?thesis by (auto simp: find_job_update_job key option.map_ident)
qed simp

lemma in_flight_le:
  assumes "db_ok d" and "transitionGuarded up now i guard to detail build d = (r, d')"
    and stays: "\<And>s. guard s = None \<Longrightarrow> in_flight to \<Longrightarrow> in_flight s"
  shows "inFlightByClient d' c \<le> inFlightByClient d c"
  using outcome [OF assms(1,2)]
proof (elim disjE exE conjE)
  fix j ev
  assume "may_move d i guard j" and "job_move d d' j (buildUpdate to now build) to ev"
  then show ?thesis using stays
    by (auto simp: inFlightByClient_def job_move_def may_move_def same_key_def
        intro!: count_where_update_le)
qed simp

lemma row_stays:
  assumes ok: "db_ok d" and run: "transitionGuarded up now i guard to detail build d = (r, d')"
    and k: "find_job d k = Some j"
  shows "\<exists>j'. find_job d' k = Some j' \<and> row_step j j'"
proof (cases "k = i \<and> r = Inr ()")
  case True
  with outcome [OF ok run] k have g: "\<not> IsTerminal (j_state j)" "guard (j_state j) = None"
    by (auto simp: may_move_def)
  have "same_key j (buildUpdate to now build j)"
    using keeps_key [of "j\<lparr>j_state := to, j_updated_at := ts now\<rparr>"]
    by (simp add: buildUpdate_def same_key_def)
  with g edge k True find_after [OF ok run, of k] show ?thesis
    by (simp add: row_step_def buildUpdate_def keeps_state)
next
  case False
  then have "find_job d' k = Some j" using k find_after [OF ok run, of k] by auto
  then show ?thesis by simp
qed

end

section \<open>The transitions of the store meet the contract\<close>

lemmas builder_defs = same_key_def buildUpdate_def set_resolved_def set_awaiting_def set_completed_def
  set_failed_def set_cancelled_def set_next_attempt_def

lemma from_guard_None [simp]: "from_guard None s = None"
  by (simp add: from_guard_def)

lemma from_guard_Some [simp]: "from_guard (Some f) s = None \<longleftrightarrow> s = f"
  by (simp add: from_guard_def)

lemma set_completed_row [simp]:
  "same_key j (set_completed status response path ct now j)"
  "j_state (set_completed status response path ct now j) = j_state j"
  "j_next_attempt_at (set_completed status response path ct now j) = None"
  "j_completed_at (set_completed status response path ct now j) = Some (ts now)"
  "j_target_status (set_completed status response path ct now j) = Some status"
  "j_error_code (set_completed status response path ct now j) = j_error_code j"
  "j_attempts (set_completed status response path ct now j) = j_attempts j"
  by (simp_all add: set_completed_def same_key_def Let_def split: option.splits)

interpretation resolved: audited_transition now "from_guard (Some StateResolving)" StateForwarding
    "set_resolved p" for now p
  by unfold_locales (auto simp: builder_defs lifecycle_edge_simps row_ok_def)

interpretation awaiting: audited_transition now "from_guard (Some StateForwarding)" StateAwaitingTarget
    "set_awaiting tid status body fp dl" for now tid status body fp dl
  by unfold_locales (auto simp: builder_defs lifecycle_edge_simps row_ok_def)

interpretation completed: audited_transition now "from_guard None" StateCompleted
    "set_completed status response path ct now" for now status response path ct
  by unfold_locales (auto simp: buildUpdate_def lifecycle_edge_simps row_ok_def)

interpretation cancelled: audited_transition now cancel_guard StateCancelled "set_cancelled now" for now
proof unfold_locales
  fix s assume "\<not> IsTerminal s" "cancel_guard s = None"
  then show "lifecycle_edge (Some s) StateCancelled"
    by (cases s) (auto simp: cancel_guard_def lifecycle_edge_simps)
qed (auto simp: builder_defs row_ok_def)

interpretation requeued: audited_transition now "from_guard None" StateReceived "set_next_attempt at"
    for now at
  by unfold_locales (auto simp: builder_defs lifecycle_edge_simps row_ok_def)

text \<open>A failure meets it exactly because its code is one of the documented ones.\<close>

lemma failed_contract:
  "code \<in> set JobErrorCodes \<Longrightarrow>
   audited_transition now (from_guard frm) StateFailed (set_failed code message now)"
proof -
  assume code: "code \<in> set JobErrorCodes"
  then have "code \<noteq> ''''" by (auto simp: JobErrorCodes_def)
  with code show ?thesis
    by unfold_locales (auto simp: builder_defs lifecycle_edge_simps row_ok_def)
qed

interpretation exhausted: audited_transition now "from_guard frm" StateFailed
    "set_failed ''max_attempts_exceeded'' message now" for now frm message
  by (rule failed_contract) (simp add: JobErrorCodes_def)

lemmas transition_defs = transition_def SetResolved_def MarkAwaitingTarget_def MarkCompleted_def
  MarkFailed_def MarkCancelled_def Requeue_def

section \<open>Operations outside the contract\<close>

text \<open>A claim is a transition of its own: it also counts the attempt and the client's turn.\<close>

lemma claimReceived_cases:
  assumes ok: "db_ok d" and run: "claimReceived up i client mc now d = (r, d')"
  obtains (kept) "d' = d" "r \<noteq> Inr True"
  | (claimed) j ev where "r = Inr True" "find_job d i = Some j" "due_received (ts now) j"
      "mc \<le> 0 \<or> int (inFlightByClient d client) < mc"
      "job_move d d' j (set_claimed now) StateResolving ev"
      "client_claims d' = (client_claims d)(client := Some (ts now))"
      "series_cache d' = series_cache d" "schedules d' = schedules d"
proof (cases "\<exists>j. up \<and> find_job d i = Some j \<and> due_received (ts now) j
    \<and> (mc \<le> 0 \<or> int (inFlightByClient d client) < mc)")
  case True
  then obtain j where j: "up" "find_job d i = Some j" "due_received (ts now) j"
    "mc \<le> 0 \<or> int (inFlightByClient d client) < mc" by blast
  define d1 where "d1 = update_job i (set_claimed now) d"
  have d': "r = Inr True"
    "d' = appendEventTx i (Some StateReceived) StateResolving ''claimed by worker'' now
       (d1\<lparr>client_claims := (client_claims d1)(client := Some (ts now))\<rparr>)"
    using run j by (auto simp: claimReceived_def Let_def d1_def)
  have mem: "j \<in> set (jobs d)" "j_id j = i" "j_state j = StateReceived"
    using find_job_SomeD [OF j(2)] j(3) by (auto simp: due_received_def)
  have "jobs d1 = update_where (\<lambda>r. r = j) (set_claimed now) (jobs d)"
    unfolding d1_def by (rule jobs_update_one [OF ok j(2)])
  then have "job_move d d' j (set_claimed now) StateResolving
      \<lparr>e_id = event_seq d + 1, e_job = i, e_from = Some StateReceived, e_to = StateResolving,
       e_detail = ''claimed by worker'', e_created_at = ts now\<rparr>"
    using mem by (auto simp: job_move_def d' appendEventTx_def same_key_def set_claimed_def d1_def)
  then show thesis using claimed d' j by (simp add: d1_def)
next
  case False
  then have "d' = d \<and> r \<noteq> Inr True"
    using run by (auto simp: claimReceived_def split: option.splits if_splits)
  then show thesis using kept by blast
qed

lemma claimReceived_ok:
  assumes "db_ok d" and "claimReceived up i client mc now d = (r, d')"
  shows "db_ok d'"
  using assms(2)
proof (cases rule: claimReceived_cases [OF assms])
  case (2 j ev)
  have "j \<in> set (jobs d)" "j_state j = StateReceived"
    using find_job_SomeD [OF 2(2)] 2(3) by (auto simp: due_received_def)
  moreover from this have "row_ok (set_claimed now j)"
    using assms(1) by (auto simp: db_ok_def rows_ok_def row_ok_def set_claimed_def)
  ultimately show ?thesis
    using job_move_ok [OF assms(1) 2(5)] by (simp add: lifecycle_edge_simps)
qed (use assms in simp)

lemma set_poll_time_touch:
  assumes "db_ok d" and "find_job d i = Some j" and "j_state j = StateAwaitingTarget"
  shows "db_ok (update_job i (set_poll_time at now) d)"
proof -
  have j: "j \<in> set (jobs d)" "row_ok j"
    using assms(1) find_job_SomeD [OF assms(2)] by (auto simp: db_ok_def rows_ok_def)
  have "job_touch d (update_job i (set_poll_time at now) d) j (set_poll_time at now)"
    using j by (simp add: job_touch_def jobs_update_one [OF assms(1,2)] same_key_def set_poll_time_def)
  moreover have "row_ok (set_poll_time at now j)"
    using j assms(3) by (simp add: row_ok_def set_poll_time_def)
  ultimately show ?thesis using assms(1) by (blast intro: job_touch_ok)
qed

lemma claimPollTick_ok:
  "db_ok d \<Longrightarrow> claimPollTick up i prev lease now d = (r, d') \<Longrightarrow> db_ok d'"
  by (auto simp: claimPollTick_def set_poll_time_touch split: if_splits option.splits)

lemma ReschedulePoll_ok:
  "db_ok d \<Longrightarrow> ReschedulePoll up i at now d = (r, d') \<Longrightarrow> db_ok d'"
  by (auto simp: ReschedulePoll_def set_poll_time_touch split: if_splits option.splits)

lemma claimOne_ok:
  assumes "db_ok d" and "claimOne up c now policy d = (r, d')"
  shows "db_ok d'"
proof (cases "cc_state c = StateReceived \<and> cc_max_attempts c \<le> cc_attempts c")
  case True
  let ?msg = "''gave up after '' @ show_int (cc_attempts c) @ '' attempts; the last attempt was interrupted''"
  obtain q dq where t: "transitionGuarded up now (cc_id c) (from_guard (Some StateReceived)) StateFailed
      (''max_attempts_exceeded: attempts exhausted, last attempt interrupted'')
      (set_failed ''max_attempts_exceeded'' ?msg now) d = (q, dq)" by fastforce
  then have "dq = d'" using assms(2) True
    by (auto simp: claimOne_def transition_def split: sum.splits store_error.splits)
  with exhausted.preserves [OF assms(1) t] show ?thesis by simp
next
  case False
  then show ?thesis using assms(2) claimReceived_ok [OF assms(1)] claimPollTick_ok [OF assms(1)] assms(1)
    by (auto simp: claimOne_def split: job_state.splits if_splits)
qed

lemma createJobOnce_ok:
  assumes ok: "db_ok d" and run: "createJobOnce up id now j cap d = (r, d')"
  shows "db_ok d'"
proof (cases "d' = d")
  case False
  let ?r = "new_row j now (next_rowid (jobs d))"
  from run False have ins: "insertJob j now d = Inr (d\<lparr>jobs := jobs d @ [?r]\<rparr>)"
    and d': "\<exists>detail. d' = appendEventTx (j_id j) None StateReceived detail now (d\<lparr>jobs := jobs d @ [?r]\<rparr>)"
    by (auto simp: createJobOnce_def insertJob_def Let_def split: if_splits)
  then obtain detail where e: "d' = appendEventTx (j_id j) None StateReceived detail now (d\<lparr>jobs := jobs d @ [?r]\<rparr>)"
    by blast
  have fresh: "j_id ?r \<notin> j_id ` set (jobs d)"
    and idem: "j_idem ?r \<noteq> '''' \<longrightarrow> (\<forall>q \<in> set (jobs d). \<not> has_idem (j_client ?r) (j_idem ?r) q)"
    using ins by (auto simp: insertJob_def new_row_def split: if_splits)
  have row: "row_ok ?r" by (simp add: row_ok_def new_row_def)
  show ?thesis
    by (rule job_insert_ok [OF ok fresh _ idem row])
      (auto simp: e appendEventTx_def new_row_def next_rowid_fresh)
qed (use ok in simp)

lemma RecordAttempt_ok:
  assumes "db_ok d" and "RecordAttempt up i prev status err delivered next now d = (r, d')"
  shows "db_ok d'"
  using assms by (auto simp: RecordAttempt_def set_attempt_def intro: delivery_update_ok split: if_splits)

lemma schedule_cache_ok:
  "db_ok d \<Longrightarrow> db_ok (d\<lparr>series_cache := cs\<rparr>)"
  "db_ok d \<Longrightarrow> db_ok (d\<lparr>schedules := ss\<rparr>)"
  by (simp_all add: db_ok_cong [of "d\<lparr>series_cache := cs\<rparr>" d] db_ok_cong [of "d\<lparr>schedules := ss\<rparr>" d])

section \<open>Interleavings of transactions\<close>

text \<open>
  One rule per transaction the service commits. Arguments are unconstrained, so they may stem
  from reads that other transactions have overtaken; the side conditions are those the callers
  establish for good: a failure code is one of the documented ones, a candidate's client is the
  client of the row it was read from (neither ids nor clients of rows ever change), and only
  jobs that were read as terminal are pruned.
\<close>

inductive store_step :: "claim_policy \<Rightarrow> db \<Rightarrow> db \<Rightarrow> bool" for pol where
  create: "createJobOnce up id now j cap d = (r, d') \<Longrightarrow> store_step pol d d'"
| resolve: "SetResolved up now i payload detail d = (u, d') \<Longrightarrow> store_step pol d d'"
| await: "MarkAwaitingTarget up now i tid status body fp dl d = (u, d') \<Longrightarrow> store_step pol d d'"
| complete: "MarkCompleted up now i status response path ct detail d = (u, d') \<Longrightarrow> store_step pol d d'"
| fail: "code \<in> set JobErrorCodes \<Longrightarrow> MarkFailed up now i code message d = (u, d') \<Longrightarrow> store_step pol d d'"
| cancel: "MarkCancelled up now i detail d = (u, d') \<Longrightarrow> store_step pol d d'"
| requeue: "transition up now i None StateReceived detail (set_next_attempt at) d = (u, d') \<Longrightarrow> store_step pol d d'"
| claim: "(\<And>j. find_job d (cc_id c) = Some j \<Longrightarrow> j_client j = cc_client c) \<Longrightarrow>
    claimOne up c now pol d = (b, d') \<Longrightarrow> store_step pol d d'"
| repoll: "ReschedulePoll up i at now d = (b, d') \<Longrightarrow> store_step pol d d'"
| prune: "(\<And>j. j \<in> set (jobs d) \<Longrightarrow> j_id j \<in> set ids \<Longrightarrow> IsTerminal (j_state j)) \<Longrightarrow>
    d' = deleteJobChunk ids d \<Longrightarrow> store_step pol d d'"
| attempt: "RecordAttempt up i prev st err ok next now d = (u, d') \<Longrightarrow> store_step pol d d'"
| put_series: "PutSeries up now h typ response ttl d = (u, d') \<Longrightarrow> store_step pol d d'"
| purge_series: "PurgeExpiredSeries up now d = (n, d') \<Longrightarrow> store_step pol d d'"
| create_schedule: "CreateSchedule up now sc limit d = (s, d') \<Longrightarrow> store_step pol d d'"
| delete_schedule: "DeleteSchedule up i d = (u, d') \<Longrightarrow> store_step pol d d'"
| advance: "AdvanceSchedule up i due jid next now d = (b, d') \<Longrightarrow> store_step pol d d'"

inductive reachable_db :: "claim_policy \<Rightarrow> db \<Rightarrow> bool" for pol where
  fresh: "reachable_db pol empty_db"
| step: "reachable_db pol d \<Longrightarrow> store_step pol d d' \<Longrightarrow> reachable_db pol d'"

lemma other_tables_ok:
  "db_ok d \<Longrightarrow> PutSeries up now h typ response ttl d = (u, d') \<Longrightarrow> db_ok d'"
  "db_ok d \<Longrightarrow> PurgeExpiredSeries up now d = (n, d') \<Longrightarrow> db_ok d'"
  "db_ok d \<Longrightarrow> CreateSchedule up now sc limit d = (s, d') \<Longrightarrow> db_ok d'"
  "db_ok d \<Longrightarrow> DeleteSchedule up i d = (u, d') \<Longrightarrow> db_ok d'"
  "db_ok d \<Longrightarrow> AdvanceSchedule up i due jid next now d = (b, d') \<Longrightarrow> db_ok d'"
  by (auto simp: PutSeries_def PurgeExpiredSeries_def CreateSchedule_def DeleteSchedule_def
      AdvanceSchedule_def schedule_cache_ok split: if_splits option.splits)

lemma store_step_ok:
  assumes "store_step pol d d'" and "db_ok d"
  shows "db_ok d'"
  using assms(1)
proof cases
  case fail
  then show ?thesis
    using audited_transition.preserves [OF failed_contract assms(2)] by (auto simp: transition_defs)
next
  case claim
  then show ?thesis using claimOne_ok assms(2) by blast
qed (use assms(2) in \<open>auto simp: transition_defs job_delete_ok intro: createJobOnce_ok ReschedulePoll_ok
    RecordAttempt_ok other_tables_ok resolved.preserves awaiting.preserves completed.preserves
    cancelled.preserves requeued.preserves\<close>)

lemma reachable_ok: "reachable_db pol d \<Longrightarrow> db_ok d"
  by (induction rule: reachable_db.induct) (auto simp: db_ok_empty intro: store_step_ok)

section \<open>Rows under a step\<close>

lemma claimReceived_row:
  assumes ok: "db_ok d" and run: "claimReceived up i client mc now d = (r, d')"
    and k: "find_job d k = Some j"
  shows "\<exists>j'. find_job d' k = Some j' \<and> row_step j j'"
  using run
proof (cases rule: claimReceived_cases [OF ok run])
  case (2 q ev)
  have "jobs d' = jobs (update_job i (set_claimed now) d)"
    using 2(5) by (simp add: job_move_def jobs_update_one [OF ok 2(2)])
  then have "find_job d' k = map_option (\<lambda>j. if k = i then set_claimed now j else j) (find_job d k)"
    using find_job_update_job [of "set_claimed now" i d k] by (simp add: find_job_def set_claimed_def)
  moreover have "k = i \<Longrightarrow> j_state j = StateReceived" using 2(2,3) k by (simp add: due_received_def)
  ultimately show ?thesis using k
    by (auto simp: row_step_def same_key_def set_claimed_def lifecycle_edge_simps)
qed (use k in simp)

lemma set_poll_time_row:
  assumes "find_job d i = Some q" and "j_state q = StateAwaitingTarget" and "find_job d k = Some j"
  shows "\<exists>j'. find_job (update_job i (set_poll_time at now) d) k = Some j' \<and> row_step j j'"
  using assms by (auto simp: find_job_update_job row_step_def same_key_def set_poll_time_def)

lemma claimPollTick_row:
  assumes "claimPollTick up i prev lease now d = (r, d')" and "find_job d k = Some j"
  shows "\<exists>j'. find_job d' k = Some j' \<and> row_step j j'"
  using assms set_poll_time_row [OF _ _ assms(2)]
  by (auto simp: claimPollTick_def split: if_splits option.splits)

lemma ReschedulePoll_row:
  assumes "ReschedulePoll up i at now d = (r, d')" and "find_job d k = Some j"
  shows "\<exists>j'. find_job d' k = Some j' \<and> row_step j j'"
  using assms set_poll_time_row [OF _ _ assms(2)]
  by (auto simp: ReschedulePoll_def split: if_splits option.splits)

lemma claimOne_row:
  assumes ok: "db_ok d" and run: "claimOne up c now policy d = (r, d')" and k: "find_job d k = Some j"
  shows "\<exists>j'. find_job d' k = Some j' \<and> row_step j j'"
proof (cases "cc_state c = StateReceived \<and> cc_max_attempts c \<le> cc_attempts c")
  case True
  let ?msg = "''gave up after '' @ show_int (cc_attempts c) @ '' attempts; the last attempt was interrupted''"
  obtain q dq where t: "transitionGuarded up now (cc_id c) (from_guard (Some StateReceived)) StateFailed
      (''max_attempts_exceeded: attempts exhausted, last attempt interrupted'')
      (set_failed ''max_attempts_exceeded'' ?msg now) d = (q, dq)" by fastforce
  then have "dq = d'" using run True
    by (auto simp: claimOne_def transition_def split: sum.splits store_error.splits)
  with exhausted.row_stays [OF ok t k] show ?thesis by simp
next
  case False
  then show ?thesis
    using run k claimReceived_row [OF ok _ k] claimPollTick_row [OF _ k]
    by (auto simp: claimOne_def split: job_state.splits if_splits)
qed

lemma createJobOnce_row:
  assumes "createJobOnce up id now j cap d = (r, d')" and "find_job d k = Some q"
  shows "find_job d' k = Some q"
  using assms by (auto simp: createJobOnce_def insertJob_def Let_def find_job_def row_by_append
      split: if_splits)

lemma deleteJobChunk_row:
  assumes "db_ok d"
  shows "find_job (deleteJobChunk ids d) k = (if k \<in> set ids then None else find_job d k)"
proof -
  have "row_by j_id k (delete_where (\<lambda>j. j_id j \<in> set ids) rs) =
      (if k \<in> set ids then None else row_by j_id k rs)" for rs :: "job list"
    by (induction rs) (auto simp: delete_where_def)
  then show ?thesis by (simp add: find_job_def deleteJobChunk_def)
qed

lemma other_tables_jobs:
  "RecordAttempt up i prev st err dl nx now d = (u, d') \<Longrightarrow> jobs d' = jobs d"
  "PutSeries up now h typ response ttl d = (u, d') \<Longrightarrow> jobs d' = jobs d"
  "PurgeExpiredSeries up now d = (n, d') \<Longrightarrow> jobs d' = jobs d"
  "CreateSchedule up now sc limit d = (s, d') \<Longrightarrow> jobs d' = jobs d"
  "DeleteSchedule up i d = (u, d') \<Longrightarrow> jobs d' = jobs d"
  "AdvanceSchedule up i due jid next now d = (b, d') \<Longrightarrow> jobs d' = jobs d"
  by (auto simp: RecordAttempt_def PutSeries_def PurgeExpiredSeries_def CreateSchedule_def
      DeleteSchedule_def AdvanceSchedule_def split: if_splits option.splits)

lemma store_step_row:
  assumes "store_step pol d d'" and ok: "db_ok d" and k: "find_job d k = Some j"
  shows "(find_job d' k = None \<and> IsTerminal (j_state j)) \<or> (\<exists>j'. find_job d' k = Some j' \<and> row_step j j')"
  using assms(1)
proof cases
  case fail
  then show ?thesis
    using audited_transition.row_stays [OF failed_contract ok _ k] by (auto simp: transition_defs)
next
  case prune
  with find_job_SomeD [OF k] k show ?thesis
    by (auto simp: deleteJobChunk_row [OF ok])
next
  case claim
  then show ?thesis using claimOne_row [OF ok _ k] by blast
next
  case create
  then show ?thesis using createJobOnce_row [OF _ k] by fastforce
next
  case repoll
  then show ?thesis using ReschedulePoll_row [OF _ k] by blast
next
  case resolve
  then show ?thesis using resolved.row_stays [OF ok _ k] by (auto simp: transition_defs)
next
  case await
  then show ?thesis using awaiting.row_stays [OF ok _ k] by (auto simp: transition_defs)
next
  case complete
  then show ?thesis using completed.row_stays [OF ok _ k] by (auto simp: transition_defs)
next
  case cancel
  then show ?thesis using cancelled.row_stays [OF ok _ k] by (auto simp: transition_defs)
next
  case requeue
  then show ?thesis using requeued.row_stays [OF ok _ k] by (auto simp: transition_defs)
qed (use k in \<open>auto simp: find_job_def dest!: other_tables_jobs\<close>)

section \<open>The concurrency ceiling under interleaving\<close>

definition ceiling_ok :: "claim_policy \<Rightarrow> db \<Rightarrow> bool" where
  "ceiling_ok pol d \<longleftrightarrow>
     (\<forall>c. 0 < maxConcurrentOf pol c \<longrightarrow> int (inFlightByClient d c) \<le> maxConcurrentOf pol c)"

lemma ceiling_ok_le:
  "ceiling_ok pol d \<Longrightarrow> (\<And>c. inFlightByClient d' c \<le> inFlightByClient d c) \<Longrightarrow> ceiling_ok pol d'"
  unfolding ceiling_ok_def by (meson of_nat_le_iff order_trans)

lemma claimReceived_ceiling:
  assumes ok: "db_ok d" and ceil: "ceiling_ok pol d"
    and own: "\<And>j. find_job d i = Some j \<Longrightarrow> j_client j = client"
    and run: "claimReceived up i client (maxConcurrentOf pol client) now d = (r, d')"
  shows "ceiling_ok pol d'"
  using run
proof (cases rule: claimReceived_cases [OF ok run])
  case (2 j ev)
  have jobs': "jobs d' = jobs (update_job i (set_claimed now) d)"
    using 2(5) by (simp add: job_move_def jobs_update_one [OF ok 2(2)])
  have cl: "\<And>r. j_client (set_claimed now r) = j_client r" by (simp add: set_claimed_def)
  have uniq: "r = j" if "r \<in> set (jobs d)" "j_id r = i" for r
    using ok that 2(2) by (metis db_ok_def ids_ok_def find_job_self option.inject)
  have "int (inFlightByClient d' c) \<le> maxConcurrentOf pol c" if pos: "0 < maxConcurrentOf pol c" for c
  proof (cases "c = client")
    case True
    have "inFlightByClient d' c \<le> Suc (inFlightByClient d c)"
      unfolding inFlightByClient_def jobs' jobs_update_job
      using ok by (intro count_where_update_key_le) (simp add: db_ok_def ids_ok_def)
    with True 2(4) pos show ?thesis by auto
  next
    case False
    then have "inFlightByClient d' c \<le> inFlightByClient d c"
      unfolding inFlightByClient_def jobs' jobs_update_job
      using own [OF 2(2)] uniq by (intro count_where_update_le) (auto simp: cl)
    with ceil pos show ?thesis by (auto simp: ceiling_ok_def)
  qed
  then show ?thesis by (simp add: ceiling_ok_def)
qed (use ceil in simp)

lemma set_poll_time_count:
  "inFlightByClient (update_job i (set_poll_time at now) d) c = inFlightByClient d c"
proof -
  have "count_where (\<lambda>j. j_client j = c \<and> in_flight (j_state j)) (update_where p (set_poll_time at now) rs)
      = count_where (\<lambda>j. j_client j = c \<and> in_flight (j_state j)) rs" for p rs
    by (induction rs) (auto simp: set_poll_time_def)
  then show ?thesis by (simp add: inFlightByClient_def jobs_update_job)
qed

lemma claimPollTick_count:
  "claimPollTick up i prev lease now d = (r, d') \<Longrightarrow> inFlightByClient d' c = inFlightByClient d c"
  by (auto simp: claimPollTick_def set_poll_time_count split: if_splits option.splits)

lemma ReschedulePoll_count:
  "ReschedulePoll up i at now d = (r, d') \<Longrightarrow> inFlightByClient d' c = inFlightByClient d c"
  by (auto simp: ReschedulePoll_def set_poll_time_count split: if_splits option.splits)

lemma claimOne_ceiling:
  assumes ok: "db_ok d" and ceil: "ceiling_ok pol d"
    and own: "\<And>j. find_job d (cc_id c) = Some j \<Longrightarrow> j_client j = cc_client c"
    and run: "claimOne up c now pol d = (r, d')"
  shows "ceiling_ok pol d'"
proof (cases "cc_state c = StateReceived \<and> cc_max_attempts c \<le> cc_attempts c")
  case True
  let ?msg = "''gave up after '' @ show_int (cc_attempts c) @ '' attempts; the last attempt was interrupted''"
  obtain q dq where t: "transitionGuarded up now (cc_id c) (from_guard (Some StateReceived)) StateFailed
      (''max_attempts_exceeded: attempts exhausted, last attempt interrupted'')
      (set_failed ''max_attempts_exceeded'' ?msg now) d = (q, dq)" by fastforce
  then have "dq = d'" using run True
    by (auto simp: claimOne_def transition_def split: sum.splits store_error.splits)
  then show ?thesis using ceiling_ok_le [OF ceil] exhausted.in_flight_le [OF ok t] by simp
next
  case False
  then consider (job) "claimReceived up (cc_id c) (cc_client c) (maxConcurrentOf pol (cc_client c)) now d = (r, d')"
    | (poll) lease where "claimPollTick up (cc_id c) (cc_next_at c) lease now d = (r, d')" | (none) "d' = d"
    using run by (auto simp: claimOne_def split: job_state.splits if_splits)
  then show ?thesis
  proof cases
    case job
    then show ?thesis using claimReceived_ceiling [OF ok ceil own] by blast
  next
    case poll
    then show ?thesis by (auto intro: ceiling_ok_le [OF ceil] simp: claimPollTick_count)
  qed (use ceil in simp)
qed

lemma createJobOnce_count:
  "createJobOnce up id now j cap d = (r, d') \<Longrightarrow> inFlightByClient d' c = inFlightByClient d c"
  by (auto simp: createJobOnce_def insertJob_def Let_def inFlightByClient_def new_row_def split: if_splits)

lemma deleteJobChunk_count: "inFlightByClient (deleteJobChunk ids d) c \<le> inFlightByClient d c"
  by (simp add: inFlightByClient_def deleteJobChunk_def count_where_delete_le)

lemma same_jobs_ceiling: "jobs d' = jobs d \<Longrightarrow> ceiling_ok pol d \<Longrightarrow> ceiling_ok pol d'"
  by (simp add: ceiling_ok_def inFlightByClient_def)

lemma store_step_ceiling:
  assumes "store_step pol d d'" and ok: "db_ok d" and ceil: "ceiling_ok pol d"
  shows "ceiling_ok pol d'"
  using assms(1)
proof cases
  case claim
  then show ?thesis using claimOne_ceiling [OF ok ceil] by blast
next
  case fail
  then have "inFlightByClient d' c \<le> inFlightByClient d c" for c
    by (intro audited_transition.in_flight_le [OF failed_contract ok]) (auto simp: transition_defs)
  then show ?thesis by (rule ceiling_ok_le [OF ceil])
next
  case resolve
  then have "inFlightByClient d' c \<le> inFlightByClient d c" for c
    by (intro resolved.in_flight_le [OF ok]) (auto simp: transition_defs)
  then show ?thesis by (rule ceiling_ok_le [OF ceil])
next
  case await
  then have "inFlightByClient d' c \<le> inFlightByClient d c" for c
    by (intro awaiting.in_flight_le [OF ok]) (auto simp: transition_defs)
  then show ?thesis by (rule ceiling_ok_le [OF ceil])
next
  case complete
  then have "inFlightByClient d' c \<le> inFlightByClient d c" for c
    by (intro completed.in_flight_le [OF ok]) (auto simp: transition_defs)
  then show ?thesis by (rule ceiling_ok_le [OF ceil])
next
  case cancel
  then have "inFlightByClient d' c \<le> inFlightByClient d c" for c
    by (intro cancelled.in_flight_le [OF ok]) (auto simp: transition_defs)
  then show ?thesis by (rule ceiling_ok_le [OF ceil])
next
  case requeue
  then have "inFlightByClient d' c \<le> inFlightByClient d c" for c
    by (intro requeued.in_flight_le [OF ok]) (auto simp: transition_defs)
  then show ?thesis by (rule ceiling_ok_le [OF ceil])
next
  case create
  then show ?thesis by (auto intro: ceiling_ok_le [OF ceil] simp: createJobOnce_count)
next
  case repoll
  then show ?thesis by (auto intro: ceiling_ok_le [OF ceil] simp: ReschedulePoll_count)
next
  case prune
  then show ?thesis by (auto intro: ceiling_ok_le [OF ceil] simp: deleteJobChunk_count)
qed (rule same_jobs_ceiling [OF _ ceil], erule other_tables_jobs)+

lemma reachable_ceiling: "reachable_db pol d \<Longrightarrow> ceiling_ok pol d"
proof (induction rule: reachable_db.induct)
  case fresh
  then show ?case by (simp add: ceiling_ok_def inFlightByClient_def empty_db_def)
next
  case (step d d')
  then show ?case using reachable_ok store_step_ceiling by blast
qed

end
