(* ===== verification/Worked_Runs.thy ===== *)
theory Worked_Runs
  imports Job_Steps
begin

text \<open>
  Concrete databases reached by running the store's operations from an empty database; the
  inputs on which the properties of the store are exercised.
\<close>

section \<open>A worked run\<close>

text \<open>One job accepted, claimed, resolved and completed; the inputs of the witnesses.\<close>

definition demo_job :: job where
  "demo_job =
     \<lparr>j_seq = 0, j_id = ''a'', j_client = ''c'', j_idem = ''k'', j_target = ''t'', j_state = StateReceived,
      j_attempts = 0, j_max_attempts = 3, j_next_attempt_at = None, j_not_before = None,
      j_callback_url = ''http://h'', j_priority = 0, j_options = \<lparr>opt_cache = ''''\<rparr>, j_payload = ''{}'',
      j_resolved_payload = None, j_target_job_id = '''', j_poll_deadline = None,
      j_target_status = None, j_target_response = None, j_result_path = '''',
      j_result_ct = '''', j_error_code = '''', j_error_message = '''',
      j_created_at = 0, j_updated_at = 0, j_completed_at = None\<rparr>"

definition demo_policy :: claim_policy where
  "demo_policy = \<lparr>PollLease = None, MaxConcurrent = Some (\<lambda>_. 1)\<rparr>"

definition demo_received :: db where
  "demo_received = snd (createJobOnce True id 0 demo_job 0 empty_db)"

definition demo_claimed :: db where
  "demo_claimed = snd (claimOne True (cand_of demo_job) second demo_policy demo_received)"

definition demo_forwarding :: db where
  "demo_forwarding = snd (SetResolved True second ''a'' ''{}'' ''resolved'' demo_claimed)"

definition demo_done :: db where
  "demo_done = snd (MarkCompleted True (2 * second) ''a'' 200 (Some ''ok'') '''' '''' ''done'' demo_forwarding)"

lemmas demo_defs = demo_job_def demo_policy_def demo_received_def demo_claimed_def demo_forwarding_def
  demo_done_def

lemmas store_run_defs = createJobOnce_def insertJob_def appendEventTx_def claimOne_def claimReceived_def
  transition_defs transitionGuarded_def currentState_def enqueueCallbackTx_def Let_def find_job_def
  update_job_def buildUpdate_def set_claimed_def set_resolved_def set_completed_def new_row_def
  next_rowid_def empty_db_def cand_of_def due_received_def from_guard_def maxConcurrentOf_def
  inFlightByClient_def ts_def has_idem_def queued_count_def

lemma demo_received_jobs: "jobs demo_received = [demo_job\<lparr>j_seq := 1\<rparr>]"
  by (simp add: demo_defs store_run_defs)

lemma demo_reachable:
  "reachable_db pol empty_db" "reachable_db demo_policy demo_received"
  "reachable_db demo_policy demo_claimed" "reachable_db demo_policy demo_forwarding"
  "reachable_db demo_policy demo_done"
proof -
  show "reachable_db pol empty_db" by (rule reachable_db.fresh)
  show 1: "reachable_db demo_policy demo_received"
    unfolding demo_received_def by (rule reachable_db.step [OF reachable_db.fresh store_step.create]) (rule prod.collapse [symmetric])
  show 2: "reachable_db demo_policy demo_claimed"
    unfolding demo_claimed_def
    by (rule reachable_db.step [OF 1 store_step.claim [of _ "cand_of demo_job", OF _ prod.collapse [symmetric]]])
      (auto simp: find_job_def demo_received_jobs cand_of_def split: if_splits)
  show 3: "reachable_db demo_policy demo_forwarding"
    unfolding demo_forwarding_def by (rule reachable_db.step [OF 2 store_step.resolve]) (rule prod.collapse [symmetric])
  show "reachable_db demo_policy demo_done"
    unfolding demo_done_def by (rule reachable_db.step [OF 3 store_step.complete]) (rule prod.collapse [symmetric])
qed

lemma demo_done_jobs:
  "jobs demo_done = [demo_job\<lparr>j_seq := 1, j_state := StateCompleted, j_attempts := 1,
     j_resolved_payload := Some ''{}'', j_target_status := Some 200, j_target_response := Some ''ok'',
     j_updated_at := 2000, j_completed_at := Some 2000\<rparr>]"
  by (simp add: demo_defs store_run_defs)

lemma demo_claimed_jobs:
  "jobs demo_claimed = [demo_job\<lparr>j_seq := 1, j_state := StateResolving, j_attempts := 1, j_updated_at := 1000\<rparr>]"
  by (simp add: demo_defs store_run_defs)

section \<open>Two clients\<close>

text \<open>Client \<^verbatim>\<open>c\<close> submits two jobs, then client \<^verbatim>\<open>e\<close> one.\<close>

definition demo_submission :: "string \<Rightarrow> string \<Rightarrow> job" where
  "demo_submission i client = demo_job\<lparr>j_id := i, j_client := client, j_idem := ''''\<rparr>"

definition demo_queue :: db where
  "demo_queue =
     snd (createJobOnce True id 0 (demo_submission ''e1'' ''e'') 0
       (snd (createJobOnce True id 0 (demo_submission ''c2'' ''c'') 0
         (snd (createJobOnce True id 0 (demo_submission ''c1'' ''c'') 0 empty_db)))))"

lemma demo_queue_reachable: "reachable_db demo_policy demo_queue"
  unfolding demo_queue_def
  by (intro reachable_db.step [OF _ store_step.create [OF prod.collapse [symmetric]]] reachable_db.fresh)

lemma demo_queue_jobs:
  "jobs demo_queue = [(demo_submission ''c1'' ''c'')\<lparr>j_seq := 1\<rparr>, (demo_submission ''c2'' ''c'')\<lparr>j_seq := 2\<rparr>,
     (demo_submission ''e1'' ''e'')\<lparr>j_seq := 3\<rparr>]"
  by (simp add: demo_queue_def demo_submission_def demo_job_def store_run_defs)

lemma demo_queue_claims: "client_claims demo_queue = (\<lambda>_. None)"
  by (simp add: demo_queue_def demo_submission_def demo_job_def store_run_defs)

text \<open>Nine jobs of one client: one more than a batch of candidates holds.\<close>

definition demo_nine :: db where
  "demo_nine = empty_db\<lparr>jobs := map (\<lambda>n. (demo_submission (replicate n CHR ''x'') ''c'')\<lparr>j_seq := int n\<rparr>) [1..<10]\<rparr>"

text \<open>A busy client with a due poll behind eight queued jobs of higher priority.\<close>

definition capped_db :: db where
  "capped_db = empty_db\<lparr>jobs :=
     (demo_submission ''busy'' ''c'')\<lparr>j_seq := 1, j_state := StateResolving, j_attempts := 1\<rparr>
     # (demo_submission ''polled'' ''c'')\<lparr>j_seq := 2, j_state := StateAwaitingTarget, j_attempts := 1,
          j_next_attempt_at := Some 0, j_poll_deadline := Some 9000, j_target_status := Some 202\<rparr>
     # map (\<lambda>n. (demo_submission (replicate n CHR ''x'') ''c'')\<lparr>j_seq := int n + 2, j_priority := 1\<rparr>) [1..<9]\<rparr>"

section \<open>A schedule\<close>

definition demo_schedule :: schedule where
  "demo_schedule = \<lparr>s_id = ''s'', s_client = ''c'', s_target = ''t'', s_payload = ''{}'',
     s_cron = ''* * * * *'', s_timezone = '''', s_priority = 0, s_options = \<lparr>opt_cache = ''''\<rparr>,
     s_enabled = True, s_idem = '''', s_next_run_at = Some 60000, s_last_run_at = None,
     s_last_job_id = '''', s_created_at = 0, s_updated_at = 0\<rparr>"

definition demo_scheduled :: db where
  "demo_scheduled = snd (CreateSchedule True 0 demo_schedule 5 empty_db)"

lemma demo_scheduled_db: "demo_scheduled = empty_db\<lparr>schedules := [demo_schedule]\<rparr>"
  by (simp add: demo_scheduled_def CreateSchedule_def demo_schedule_def held_schedules_def new_schedule_row_def
      empty_db_def ts_def)

lemma demo_scheduled_reachable: "reachable_db demo_policy demo_scheduled"
  unfolding demo_scheduled_def
  by (rule reachable_db.step [OF reachable_db.fresh store_step.create_schedule]) (rule prod.collapse [symmetric])

end
