(* ===== verification/Store_Properties.thy ===== *)
theory Store_Properties
  imports Worked_Runs
begin

text \<open>
  What the store promises under every interleaving of its transactions: the audit trail, the
  callback outbox, finality of terminal jobs, the concurrency ceiling and that no accepted job
  is lost; then the exact answers of creation and of the guarded transitions.
\<close>

section \<open>Under every interleaving\<close>

lemma ListEvents_trail:
  assumes "db_ok d"
  shows "ListEvents d i = events_of d i"
proof -
  have "sorted_wrt (<) (map e_id (events_of d i))"
    using assms unfolding db_ok_def trail_ok_def events_of_def
    by (auto simp: sorted_wrt_map intro: sorted_wrt_filter)
  then have "sorted (map e_id (events_of d i))"
    by (rule sorted_wrt_mono_rel [rotated]) simp
  then show ?thesis
    by (simp add: ListEvents_def events_of_def sort_key_id_if_sorted)
qed



text \<open>C2: A job that asked for a callback has exactly one delivery from the moment it is terminal, to
  the URL it asked for and with the event of its final state; no other job ever has one.\<close>

theorem outbox_exactly_once:
  assumes "reachable_db pol d" and "j \<in> set (jobs d)"
  shows "map (\<lambda>r. (d_url r, d_event r)) (filter (\<lambda>r. d_job r = j_id j) (deliveries d)) =
    (if IsTerminal (j_state j) \<and> j_callback_url j \<noteq> ''''
     then [(j_callback_url j, EventFor (j_state j))] else [])"
proof -
  have ok: "db_ok d" using assms(1) by (rule reachable_ok)
  then have out: "outbox_ok d" by (simp add: db_ok_def)
  have own: "q = j" if "q \<in> set (jobs d)" "j_id q = j_id j" for q
    using ok that assms(2) by (metis db_ok_def ids_ok_def find_job_self option.inject)
  have "IsTerminal (j_state j) \<and> j_callback_url j \<noteq> '''' \<and> d_url r = j_callback_url j
      \<and> d_event r = EventFor (j_state j)" if "row_by d_job (j_id j) (deliveries d) = Some r" for r
  proof -
    from out row_by_SomeD [OF that] obtain q where "q \<in> set (jobs d)" "delivers r q" "j_id q = j_id j"
      by (auto simp: outbox_ok_alt delivers_def)
    with own [of q] show ?thesis by (simp add: delivers_def)
  qed
  moreover have "\<not> (IsTerminal (j_state j) \<and> j_callback_url j \<noteq> '''')"
    if "row_by d_job (j_id j) (deliveries d) = None"
    using that out assms(2) by (auto simp: row_by_None_iff outbox_ok_def)
  ultimately show ?thesis
    using out by (auto simp: filter_key_distinct outbox_ok_def split: option.splits)
qed

theorem outbox_exactly_once_witness:
  "map (\<lambda>r. (d_url r, d_event r)) (filter (\<lambda>r. d_job r = ''a'') (deliveries demo_done)) =
     [(''http://h'', ''request.completed'')]"
proof -
  let ?j = "hd (jobs demo_done)"
  have "?j \<in> set (jobs demo_done)" by (simp add: demo_done_jobs)
  from outbox_exactly_once [OF demo_reachable(5) this] show ?thesis
    by (simp add: demo_done_jobs demo_job_def EventFor_def)
qed

text \<open>C3: A terminal job never changes again: as long as it has not been pruned, every later database
  holds the very same row, whatever transactions with whatever stale arguments ran in between.\<close>

theorem terminal_rows_final:
  assumes "reachable_db pol d" and "find_job d i = Some j" and "IsTerminal (j_state j)"
    and "rtranclp (\<lambda>a b. store_step pol a b \<and> find_job b i \<noteq> None) d d'"
  shows "find_job d' i = Some j"
proof -
  from assms(4,1-3) have "find_job d' i = Some j \<and> reachable_db pol d'"
  proof (induction rule: rtranclp_induct)
    case (step a b)
    then have a: "find_job a i = Some j" "reachable_db pol a" by auto
    with step.hyps have "reachable_db pol b" by (blast intro: reachable_db.step)
    moreover have "find_job b i = Some j"
      using store_step_row [OF _ reachable_ok [OF a(2)] a(1)] step.hyps step.prems(3)
      by (fastforce simp: row_step_def)
    ultimately show ?case by simp
  qed simp
  then show ?thesis by simp
qed

theorem terminal_rows_final_witness:
  "find_job (snd (MarkFailed True 9 ''a'' ''internal'' ''late'' demo_done)) ''a'' = find_job demo_done ''a''"
proof -
  let ?d = "snd (MarkFailed True 9 ''a'' ''internal'' ''late'' demo_done)"
  let ?j = "hd (jobs demo_done)"
  have j: "find_job demo_done ''a'' = Some ?j" "IsTerminal (j_state ?j)"
    by (simp_all add: find_job_def demo_done_jobs demo_job_def)
  then have same: "?d = demo_done"
    by (simp add: transition_defs transitionGuarded_def currentState_def)
  have "store_step demo_policy demo_done ?d"
    by (rule store_step.fail [OF _ prod.collapse [symmetric]]) (simp add: JobErrorCodes_def)
  with j same have "rtranclp (\<lambda>a b. store_step demo_policy a b \<and> find_job b ''a'' \<noteq> None) demo_done ?d" by auto
  from terminal_rows_final [OF demo_reachable(5) j this] j(1) show ?thesis by simp
qed



text \<open>C5: However many workers claim concurrently and however stale the candidates they read, the jobs
  of a client that are being resolved or forwarded never exceed its configured ceiling.\<close>

theorem concurrency_ceiling:
  assumes "reachable_db pol d" and "0 < maxConcurrentOf pol c"
  shows "int (inFlightByClient d c) \<le> maxConcurrentOf pol c"
  using reachable_ceiling [OF assms(1)] assms(2) by (simp add: ceiling_ok_def)

theorem concurrency_ceiling_witness:
  "int (inFlightByClient demo_claimed ''c'') \<le> 1 \<and> inFlightByClient demo_claimed ''c'' = 1"
  using concurrency_ceiling [OF demo_reachable(3), of "''c''"]
  by (simp add: maxConcurrentOf_def demo_policy_def inFlightByClient_def demo_claimed_jobs demo_job_def)

text \<open>C6: Two stored jobs of one client never share an idempotency key, ids are unique, and every row
  agrees with its state: a completion time exactly for terminal jobs, an error code (a documented one)
  exactly for failed jobs, a poll time and deadline for every job that awaits its target.\<close>

theorem rows_consistent:
  assumes "reachable_db pol d"
  shows "distinct (map j_id (jobs d)) \<and> distinct (idem_keys (jobs d)) \<and> (\<forall>j \<in> set (jobs d). row_ok j)"
  using reachable_ok [OF assms] by (simp add: db_ok_def ids_ok_def idem_ok_def rows_ok_def)

theorem rows_consistent_witness:
  "row_ok (hd (jobs demo_done)) \<and> j_state (hd (jobs demo_done)) = StateCompleted"
  using rows_consistent [OF demo_reachable(5)] by (simp add: demo_done_jobs)

section \<open>Creation\<close>

lemma find_has_idem:
  assumes "db_ok d" and "j \<in> set (jobs d)" and "has_idem c k j"
  shows "find (has_idem c k) (jobs d) = Some j"
proof -
  have "distinct (idem_keys rs) \<Longrightarrow> j \<in> set rs \<Longrightarrow> find (has_idem c k) rs = Some j" for rs
    using assms(3) by (induction rs) (force simp: idem_keys_def has_idem_def split: if_splits)+
  with assms(1,2) show ?thesis by (simp add: db_ok_def idem_ok_def)
qed

lemma count_has_idem: "j \<in> set rs \<Longrightarrow> p j \<Longrightarrow> 0 < count_where p rs"
  by (induction rs) auto

lemma createJobOnce_replay:
  assumes ok: "db_ok d" and j: "j \<in> set (jobs d)" "has_idem (j_client s) (j_idem s) j"
    and new: "j_id s \<notin> j_id ` set (jobs d)"
  shows "createJobOnce True (\<lambda>d. d) now s cap d =
    ((if j_target j = j_target s \<and> j_payload j = j_payload s then Inr (False, j)
      else Inl ErrIdempotencyConflict), d)"
proof -
  have key: "j_idem s \<noteq> ''''" using j(2) by (auto simp: has_idem_def)
  have "replayIdempotent d s = (if j_target j = j_target s \<and> j_payload j = j_payload s
      then Inr (False, j) else Inl ErrIdempotencyConflict)"
    using find_has_idem [OF ok j] by (simp add: replayIdempotent_def GetJobByIdempotency_def)
  moreover have "insertJob s now d = Inl UniqueIdem"
    using new key j by (auto simp: insertJob_def)
  ultimately show ?thesis
    using key count_has_idem [of j "jobs d" "has_idem (j_client s) (j_idem s)", OF j]
    by (auto simp: createJobOnce_def)
qed

text \<open>C7: Repeating a submission under its idempotency key answers the stored job and creates nothing,
  whatever the state of that job and however full the queue; the same key with another target or
  payload is refused as a conflict. No replay is ever lost to the internal retry loop.\<close>

theorem CreateJob_replay:
  assumes "reachable_db pol d" and "j \<in> set (jobs d)" and "has_idem (j_client s) (j_idem s) j"
    and "j_id s \<notin> j_id ` set (jobs d)"
  shows "CreateJob True undisturbed now s cap d =
    ((if j_target j = j_target s \<and> j_payload j = j_payload s then Inr (False, j)
      else Inl ErrIdempotencyConflict), d)"
  using createJobOnce_replay [OF reachable_ok [OF assms(1)] assms(2-4), of now cap]
  by (simp add: CreateJob_def numeral_3_eq_3)

theorem CreateJob_replay_witness:
  "CreateJob True undisturbed 5 (demo_job\<lparr>j_id := ''b''\<rparr>) 1 demo_done = (Inr (False, hd (jobs demo_done)), demo_done)
   \<and> fst (CreateJob True undisturbed 5 (demo_job\<lparr>j_id := ''b'', j_payload := ''[]''\<rparr>) 1 demo_done)
       = Inl ErrIdempotencyConflict"
proof -
  let ?j = "hd (jobs demo_done)"
  have j: "?j \<in> set (jobs demo_done)" by (simp add: demo_done_jobs)
  show ?thesis
    using CreateJob_replay [OF demo_reachable(5) j, of "demo_job\<lparr>j_id := ''b''\<rparr>" 5 1]
      CreateJob_replay [OF demo_reachable(5) j, of "demo_job\<lparr>j_id := ''b'', j_payload := ''[]''\<rparr>" 5 1]
    by (simp add: demo_done_jobs demo_job_def has_idem_def)
qed

lemma createJobOnce_fresh:
  assumes "j_id s \<notin> j_id ` set (jobs d)"
    and "j_idem s \<noteq> '''' \<Longrightarrow> \<forall>r \<in> set (jobs d). \<not> has_idem (j_client s) (j_idem s) r"
    and "0 < cap \<Longrightarrow> int (queued_count d (j_client s)) < cap"
  obtains detail where "createJobOnce True env now s cap d =
    (Inr (True, s\<lparr>j_state := StateReceived, j_created_at := ts now, j_updated_at := ts now\<rparr>),
     appendEventTx (j_id s) None StateReceived detail now
       (d\<lparr>jobs := jobs d @ [new_row s now (next_rowid (jobs d))]\<rparr>))"
proof -
  have "j_idem s \<noteq> '''' \<Longrightarrow> count_where (has_idem (j_client s) (j_idem s)) (jobs d) = 0"
    using assms(2) by (simp add: count_where_zero)
  then show thesis using that assms by (fastforce simp: createJobOnce_def insertJob_def Let_def)
qed



text \<open>C9: An accepted submission never takes the client's queue over its cap, whatever other
  connections commit between the attempts of the creation loop.\<close>

theorem CreateJob_respects_cap:
  assumes "CreateJob up env now s cap d = (Inr (True, j'), d')" and "0 < cap"
  shows "int (queued_count d' (j_client s)) \<le> cap"
proof -
  have once: "int (queued_count d' (j_client s)) \<le> cap"
    if "createJobOnce up e now s cap d = (Inr (True, j'), d')" for e d
    using that assms(2)
    by (auto simp: createJobOnce_def insertJob_def replayIdempotent_def Let_def queued_count_def new_row_def
        split: if_splits sum.splits insert_error.splits)
  have "createJobLoop n up env now s cap d = (Inr (True, j'), d') \<Longrightarrow> int (queued_count d' (j_client s)) \<le> cap" for n d
    by (induction n arbitrary: d) (auto split: prod.splits sum.splits store_error.splits dest: once)
  with assms(1) show ?thesis by (simp add: CreateJob_def)
qed

theorem CreateJob_respects_cap_witness:
  "int (queued_count (snd (CreateJob True undisturbed 0 demo_job 1 empty_db)) ''c'') \<le> 1"
proof -
  have "\<exists>j'. fst (CreateJob True undisturbed 0 demo_job 1 empty_db) = Inr (True, j')"
    by (simp add: CreateJob_def numeral_3_eq_3 demo_defs store_run_defs)
  then obtain j' where "CreateJob True undisturbed 0 demo_job 1 empty_db =
      (Inr (True, j'), snd (CreateJob True undisturbed 0 demo_job 1 empty_db))"
    by (metis prod.collapse)
  from CreateJob_respects_cap [OF this] show ?thesis by (simp add: demo_job_def)
qed

section \<open>Answers of the transitions\<close>

text \<open>C10: Cancelling succeeds exactly for a job that waits (received or awaiting its target); a
  missing, finished or busy job is refused with its own error, and a refusal changes nothing.\<close>

theorem MarkCancelled_outcome:
  assumes "reachable_db pol d"
  shows "fst (MarkCancelled True now i detail d) =
      (case find_job d i of
         None \<Rightarrow> Inl ErrNotFound
       | Some j \<Rightarrow> if IsTerminal (j_state j) then Inl ErrTerminalState
                 else if in_flight (j_state j) then Inl ErrNotCancellable else Inr ())
    \<and> (fst (MarkCancelled True now i detail d) \<noteq> Inr () \<longrightarrow> snd (MarkCancelled True now i detail d) = d)"
proof -
  have ok: "db_ok d" using assms by (rule reachable_ok)
  have "fst (MarkCancelled True now i detail d) =
      (case refusal d i cancel_guard of Some e \<Rightarrow> Inl e | None \<Rightarrow> Inr ())"
    using cancelled.answer [OF ok, of True] by (simp add: MarkCancelled_def)
  moreover have "refusal d i cancel_guard = Some e \<Longrightarrow> snd (MarkCancelled True now i detail d) = d" for e
    by (simp add: MarkCancelled_def transitionGuarded_refuse)
  ultimately show ?thesis
    by (auto simp: refusal_def cancel_guard_def in_flight_def split: option.splits)
qed

theorem MarkCancelled_outcome_witness:
  "fst (MarkCancelled True 9 ''a'' '''' demo_received) = Inr ()
   \<and> fst (MarkCancelled True 9 ''a'' '''' demo_claimed) = Inl ErrNotCancellable
   \<and> fst (MarkCancelled True 9 ''a'' '''' demo_done) = Inl ErrTerminalState"
  using MarkCancelled_outcome [OF demo_reachable(2), of 9 "''a''" "''''"]
    MarkCancelled_outcome [OF demo_reachable(3), of 9 "''a''" "''''"]
    MarkCancelled_outcome [OF demo_reachable(5), of 9 "''a''" "''''"]
  by (simp add: find_job_def demo_received_jobs demo_claimed_jobs demo_done_jobs demo_job_def)



section \<open>Recovery and rescue\<close>

abbreviation requeued_row :: "instant \<Rightarrow> job \<Rightarrow> job" where
  "requeued_row now \<equiv> buildUpdate StateReceived now (set_next_attempt None)"

lemma requeueAll_live:
  assumes "db_ok d" and "distinct ids"
    and "\<forall>i \<in> set ids. \<exists>j. find_job d i = Some j \<and> \<not> IsTerminal (j_state j)"
  shows "\<exists>d'. requeueAll (\<lambda>_. True) now ids detail d = (Inr (), d') \<and> db_ok d'
    \<and> (\<forall>k. find_job d' k = map_option (\<lambda>j. if k \<in> set ids then requeued_row now j else j) (find_job d k))"
  using assms
proof (induction ids arbitrary: d)
  case (Cons i ids)
  let ?run = "transitionGuarded True now i (from_guard None) StateReceived detail (set_next_attempt None) d"
  have "fst ?run = Inr ()"
    using requeued.answer [OF Cons.prems(1), of True] Cons.prems(3) by (auto simp: refusal_def)
  then obtain d1 where run: "?run = (Inr (), d1)" by (metis prod.collapse)
  have ok1: "db_ok d1" using requeued.preserves [OF Cons.prems(1) run] .
  have f1: "find_job d1 k = (if k = i then map_option (requeued_row now) (find_job d k) else find_job d k)" for k
    using requeued.find_after [OF Cons.prems(1) run] by simp
  from Cons.prems have "\<forall>k \<in> set ids. \<exists>j. find_job d1 k = Some j \<and> \<not> IsTerminal (j_state j)"
    by (auto simp: f1)
  with Cons.IH [OF ok1] Cons.prems(2) obtain d' where
    "requeueAll (\<lambda>_. True) now ids detail d1 = (Inr (), d')" "db_ok d'"
    "\<forall>k. find_job d' k = map_option (\<lambda>j. if k \<in> set ids then requeued_row now j else j) (find_job d1 k)"
    by auto
  with run Cons.prems(2) show ?case
    by (auto simp: transition_def f1 option.map_comp comp_def option.map_ident cong: option.map_cong)
qed (simp add: option.map_ident)

lemma selected_ids_live:
  assumes "db_ok d" and "\<And>j. p j \<Longrightarrow> in_flight (j_state j)"
  shows "distinct (map j_id (filter p (jobs d)))"
    and "\<forall>i \<in> set (map j_id (filter p (jobs d))). \<exists>j. find_job d i = Some j \<and> \<not> IsTerminal (j_state j)"
    and "find_job d k = Some j \<Longrightarrow> k \<in> set (map j_id (filter p (jobs d))) \<longleftrightarrow> p j"
proof -
  have dist: "distinct (map j_id (jobs d))" using assms(1) by (simp add: db_ok_def ids_ok_def)
  then show "distinct (map j_id (filter p (jobs d)))" by (rule distinct_map_filter)
  show "\<forall>i \<in> set (map j_id (filter p (jobs d))). \<exists>j. find_job d i = Some j \<and> \<not> IsTerminal (j_state j)"
    using find_job_self [OF dist] assms(2) in_flight_not_terminal by fastforce
  show "k \<in> set (map j_id (filter p (jobs d))) \<longleftrightarrow> p j" if "find_job d k = Some j"
  proof -
    have "q = j" if "q \<in> set (jobs d)" "j_id q = k" for q
      using find_job_self [OF dist that(1)] that(2) \<open>find_job d k = Some j\<close> by simp
    with find_job_SomeD [OF that] show ?thesis by auto
  qed
qed

text \<open>C12: After a restart every interrupted job is queued again, due at once, and nothing else
  changes; the number reported is the number of interrupted jobs.\<close>

theorem RecoverInFlight_total:
  assumes "reachable_db pol d"
  shows "\<exists>d'. RecoverInFlight (\<lambda>_. True) now d = ((count_where (\<lambda>j. in_flight (j_state j)) (jobs d), Inr ()), d')
    \<and> (\<forall>k. find_job d' k =
          map_option (\<lambda>j. if in_flight (j_state j) then requeued_row now j else j) (find_job d k))"
proof -
  have ok: "db_ok d" using assms by (rule reachable_ok)
  note S = selected_ids_live [OF ok, of "\<lambda>j. in_flight (j_state j)"]
  from requeueAll_live [OF ok S(1,2), of now "''recovered after restart''"] obtain d' where
    d': "requeueAll (\<lambda>_. True) now (in_flight_ids d) ''recovered after restart'' d = (Inr (), d')"
    "\<forall>k. find_job d' k = map_option (\<lambda>j. if k \<in> set (in_flight_ids d) then requeued_row now j else j) (find_job d k)"
    by (auto simp: in_flight_ids_def)
  have "find_job d' k = map_option (\<lambda>j. if in_flight (j_state j) then requeued_row now j else j) (find_job d k)" for k
    using d'(2) S(3) by (cases "find_job d k") (simp_all add: in_flight_ids_def)
  with d'(1) show ?thesis by (simp add: RecoverInFlight_def in_flight_ids_def count_where_def)
qed

theorem RecoverInFlight_total_witness:
  "map_option j_state (find_job (snd (RecoverInFlight (\<lambda>_. True) 9 demo_claimed)) ''a'') = Some StateReceived"
proof -
  from RecoverInFlight_total [OF demo_reachable(3), of 9] obtain d' where
    "snd (RecoverInFlight (\<lambda>_. True) 9 demo_claimed) = d'"
    "find_job d' ''a'' = map_option (\<lambda>j. if in_flight (j_state j) then requeued_row 9 j else j) (find_job demo_claimed ''a'')"
    by auto
  then show ?thesis
    by (simp add: find_job_def demo_claimed_jobs demo_job_def buildUpdate_def set_next_attempt_def)
qed



section \<open>Retention\<close>

text \<open>C14: Deleting in chunks of 500 is deleting at once, and a retention pass removes exactly the
  selected jobs with their events and deliveries: each of them terminal and finished before the
  cutoff, at most the batch limit of them, and the oldest first.\<close>

theorem retention_pass:
  assumes "reachable_db pol d" and "TerminalBefore d cutoff limit = (ids, paths)"
  shows "DeleteJobs (\<lambda>_. True) ids d = (Inr (), deleteJobChunk ids d)
    \<and> length ids \<le> limit
    \<and> (\<forall>k j. find_job d k = Some j \<and> find_job (deleteJobChunk ids d) k \<noteq> Some j \<longrightarrow>
        IsTerminal (j_state j) \<and> (\<exists>c. j_completed_at j = Some c \<and> c < ts cutoff)
        \<and> (\<forall>q \<in> set (jobs (deleteJobChunk ids d)). IsTerminal (j_state q) \<longrightarrow>
             j_completed_at j \<le> j_completed_at q))"
proof -
  have ok: "db_ok d" using assms(1) by (rule reachable_ok)
  define p where "p = (\<lambda>j :: job. IsTerminal (j_state j) \<and> (case j_completed_at j of None \<Rightarrow> False | Some c \<Rightarrow> c < ts cutoff))"
  define all where "all = sort_key j_completed_at (filter p (jobs d))"
  have ids: "ids = map j_id (take limit all)"
    using assms(2) by (simp add: TerminalBefore_def Let_def all_def p_def)
  have split: "set all = set (take limit all) \<union> set (drop limit all)"
    by (rule set_take_drop)
  have older: "j_completed_at j \<le> j_completed_at q" if "j \<in> set (take limit all)" "q \<in> set (drop limit all)" for j q
    using that unfolding all_def by (rule take_sort_key_le)
  have main: "IsTerminal (j_state j) \<and> (\<exists>c. j_completed_at j = Some c \<and> c < ts cutoff)
      \<and> (\<forall>q \<in> set (jobs (deleteJobChunk ids d)). IsTerminal (j_state q) \<longrightarrow> j_completed_at j \<le> j_completed_at q)"
    if k: "find_job d k = Some j" "find_job (deleteJobChunk ids d) k \<noteq> Some j" for k j
  proof -
    from k have "k \<in> set ids" by (auto simp: deleteJobChunk_row [OF ok] split: if_splits)
    then obtain j' where "j' \<in> set (take limit all)" "j_id j' = k" by (auto simp: ids)
    moreover from this have "j' \<in> set (jobs d)" using split by (auto simp: all_def)
    ultimately have j: "j \<in> set (take limit all)" using k(1) ok
      by (metis db_ok_def ids_ok_def find_job_self option.inject)
    then have "p j" using split by (auto simp: all_def)
    moreover have "j_completed_at j \<le> j_completed_at q"
      if q: "q \<in> set (jobs (deleteJobChunk ids d))" "IsTerminal (j_state q)" for q
    proof (cases "p q")
      case True
      with q have "q \<in> set all" "j_id q \<notin> set ids" by (auto simp: all_def deleteJobChunk_def)
      with split have "q \<in> set (drop limit all)" by (auto simp: ids)
      with j older show ?thesis by blast
    next
      case False
      have "row_ok q" using q ok by (auto simp: db_ok_def rows_ok_def deleteJobChunk_def)
      with q False \<open>p j\<close> show ?thesis
        by (auto simp: p_def row_ok_def less_eq_option_def split: option.splits)
    qed
    ultimately show ?thesis by (auto simp: p_def split: option.splits)
  qed
  moreover have "DeleteJobs (\<lambda>_. True) ids d = (Inr (), deleteJobChunk ids d)"
    by (simp add: DeleteJobs_def deleteChunks_all)
  moreover have "length ids \<le> limit" by (simp add: ids)
  ultimately show ?thesis by blast
qed

theorem retention_pass_witness:
  "DeleteJobs (\<lambda>_. True) [''a''] demo_done = (Inr (), deleteJobChunk [''a''] demo_done)
   \<and> jobs (deleteJobChunk [''a''] demo_done) = []"
proof -
  have "TerminalBefore demo_done (3 * second) 500 = ([''a''], [])"
    by (simp add: TerminalBefore_def demo_done_jobs demo_job_def ts_def)
  from retention_pass [OF demo_reachable(5) this] show ?thesis
    by (simp add: deleteJobChunk_def demo_done_jobs demo_job_def delete_where_def)
qed

end
