(* ===== verification/Claim_Properties.thy ===== *)
theory Claim_Properties
  imports Worked_Runs
begin

text \<open>
  What \<^verbatim>\<open>ClaimNext\<close> hands out: the order in which jobs are offered, fairness between
  clients, that a job is never handed out early nor beyond its attempts, and what the caller
  receives.
\<close>

section \<open>Order of the candidates\<close>

lemma turn_mono:
  assumes "x \<in> set rows" and "j_client x = j_client y" and "window_key x < window_key y"
  shows "turn rows x < turn rows y"
proof -
  from assms show ?thesis
    unfolding turn_def by (intro Suc_mono count_where_less [of _ _ x]) auto
qed

lemma candidate_rows_eligible:
  "j \<in> set (candidate_rows d nowS ex) \<Longrightarrow> j \<in> set (jobs d) \<and> eligible nowS ex j"
  by (auto simp: candidate_rows_def Let_def dest: in_set_takeD)

lemma claim_key_inj:
  assumes "ids_ok d" and "x \<in> set (jobs d)" and "y \<in> set (jobs d)" and "j_seq x = j_seq y"
  shows "x = y"
proof -
  have "distinct (map j_seq (jobs d))"
    using assms(1) strict_sorted_iff [of "map j_seq (jobs d)"] by (simp add: ids_ok_def)
  with assms(2-4) show ?thesis by (metis row_by_distinct option.inject)
qed



text \<open>C16: Fairness. When a client's second offered job is on the table, every other client whose
  best eligible job has the same priority has already been offered that job: no client gets two
  turns while another waits at the same priority.\<close>

theorem claim_order_fair:
  assumes ok: "reachable_db pol d" and l: "l < k" and k: "k < length (candidate_rows d nowS ex)"
    and same: "j_client (candidate_rows d nowS ex ! l) = j_client (candidate_rows d nowS ex ! k)"
      "j_priority (candidate_rows d nowS ex ! l) = j_priority (candidate_rows d nowS ex ! k)"
    and z: "z \<in> set (jobs d)" "eligible nowS ex z" "j_priority z = j_priority (candidate_rows d nowS ex ! k)"
    and best: "\<And>r. r \<in> set (jobs d) \<Longrightarrow> eligible nowS ex r \<Longrightarrow> j_client r = j_client z \<Longrightarrow>
      window_key z \<le> window_key r"
  shows "\<exists>i < k. candidate_rows d nowS ex ! i = z"
proof -
  define rows where "rows = filter (eligible nowS ex) (jobs d)"
  define key where "key = claim_key (client_claims d) rows"
  let ?cs = "candidate_rows d nowS ex"
  have cs: "?cs = take claimBatch (sort_key key rows)"
    by (simp add: candidate_rows_def Let_def rows_def key_def)
  let ?x = "?cs ! l" and ?y = "?cs ! k"
  have mem: "?x \<in> set rows" "?y \<in> set rows" "z \<in> set rows"
    using candidate_rows_eligible [of ?x d nowS ex] candidate_rows_eligible [of ?y d nowS ex] l k z
    by (auto simp: rows_def)
  have dist: "distinct ?cs"
    using reachable_ok [OF ok] unfolding cs rows_def
    by (auto simp: db_ok_def ids_ok_def distinct_map intro: distinct_take)
  have "key ?x \<le> key ?y"
  proof -
    have "sorted (map key ?cs)" unfolding cs by (simp add: take_map [symmetric] sorted_wrt_take)
    with l k show ?thesis by (metis (no_types, lifting) length_map less_imp_le_nat nth_map order_less_trans sorted_nth_mono)
  qed
  then have "turn rows ?x \<le> turn rows ?y" using same(2) by (auto simp: key_def claim_key_def)
  moreover have "turn rows ?x \<noteq> turn rows ?y"
  proof -
    have "?x \<noteq> ?y" using dist l k by (simp add: nth_eq_iff_index_eq)
    then have "window_key ?x \<noteq> window_key ?y"
      using claim_key_inj [of d ?x ?y] reachable_ok [OF ok] mem
      by (auto simp: window_key_def db_ok_def rows_def)
    then show ?thesis
      using turn_mono [of ?x rows ?y] turn_mono [of ?y rows ?x] mem same(1) by (force simp: neq_iff)
  qed
  ultimately have "turn rows z < turn rows ?y"
    using best by (subst turn_def) (fastforce simp: count_where_zero rows_def turn_def not_less)
  then have "key z < key ?y" using z(3) by (simp add: key_def claim_key_def)
  with k mem(3) show ?thesis unfolding cs by (intro take_sort_key_before) (auto simp: cs)
qed

theorem claim_order_fair_witness:
  "\<exists>i < 2. j_id (candidate_rows demo_queue 0 [] ! i) = ''e1''"
proof -
  let ?cs = "[(demo_submission ''c1'' ''c'')\<lparr>j_seq := 1\<rparr>, (demo_submission ''e1'' ''e'')\<lparr>j_seq := 3\<rparr>,
     (demo_submission ''c2'' ''c'')\<lparr>j_seq := 2\<rparr>]"
  have cs: "candidate_rows demo_queue 0 [] = ?cs"
    by (simp add: candidate_rows_def demo_queue_jobs demo_queue_claims demo_submission_def demo_job_def
        eligible_def due_received_def due_poll_def claim_key_def turn_def window_key_def claimBatch_def)
  have "\<exists>i < 2. candidate_rows demo_queue 0 [] ! i = (demo_submission ''e1'' ''e'')\<lparr>j_seq := 3\<rparr>"
    by (rule claim_order_fair [OF demo_queue_reachable, of 0 2])
      (auto simp: cs demo_queue_jobs demo_submission_def demo_job_def eligible_def due_received_def window_key_def)
  then show ?thesis by (auto simp: demo_submission_def demo_job_def)
qed

section \<open>One candidate\<close>

lemma claimOne_exhausted:
  assumes ok: "db_ok d" and r: "find_job d (j_id r) = Some r" "j_state r = StateReceived"
    and ex: "j_max_attempts r \<le> j_attempts r"
  obtains d' where "claimOne True (cand_of r) now pol d = (Inr False, d')" and "db_ok d'"
    and "\<And>k. k \<noteq> j_id r \<Longrightarrow> find_job d' k = find_job d k"
    and "\<exists>q. find_job d' (j_id r) = Some q \<and> j_state q = StateFailed \<and> j_error_code q = ''max_attempts_exceeded''"
    and "\<And>c. inFlightByClient d' c \<le> inFlightByClient d c" and "client_claims d' = client_claims d"
    and "\<And>j. j \<in> set (jobs d') \<Longrightarrow> j_id j \<noteq> j_id r \<Longrightarrow> j \<in> set (jobs d)"
proof -
  let ?msg = "''gave up after '' @ show_int (j_attempts r) @ '' attempts; the last attempt was interrupted''"
  let ?b = "set_failed ''max_attempts_exceeded'' ?msg now"
  let ?run = "transitionGuarded True now (j_id r) (from_guard (Some StateReceived)) StateFailed
      (''max_attempts_exceeded: attempts exhausted, last attempt interrupted'') ?b d"
  have "fst ?run = Inr ()"
    using exhausted.answer [OF ok, where up = True] r by (simp add: refusal_def from_guard_def)
  then obtain d' where run: "?run = (Inr (), d')" by (metis prod.collapse)
  have one: "claimOne True (cand_of r) now pol d = (Inr False, d')"
    using run r(2) ex by (simp add: claimOne_def cand_of_def transition_def)
  have ok': "db_ok d'" by (rule exhausted.preserves [OF ok run])
  have fa: "find_job d' k = (if k = j_id r then map_option (buildUpdate StateFailed now ?b) (find_job d k)
      else find_job d k)" for k using exhausted.find_after [OF ok run] by simp
  have jobs: "j \<in> set (jobs d)" if "j \<in> set (jobs d')" "j_id j \<noteq> j_id r" for j
  proof -
    have "find_job d' (j_id j) = Some j"
      using ok' that(1) by (simp add: db_ok_def ids_ok_def find_job_self)
    with that(2) fa [of "j_id j"] have "find_job d (j_id j) = Some j" by simp
    then show ?thesis using find_job_SomeD by blast
  qed
  from exhausted.outcome [OF ok run] have cc: "client_claims d' = client_claims d" by auto
  have "\<exists>q. find_job d' (j_id r) = Some q \<and> j_state q = StateFailed \<and> j_error_code q = ''max_attempts_exceeded''"
    using r by (simp add: fa buildUpdate_def set_failed_def)
  moreover have "inFlightByClient d' c \<le> inFlightByClient d c" for c
    by (rule exhausted.in_flight_le [OF ok run]) simp
  ultimately show thesis using that [OF one ok' _ _ _ cc jobs] fa by simp
qed

lemma claimOne_takes:
  assumes ok: "db_ok d" and r: "find_job d (j_id r) = Some r" and due: "due_received (ts now) r"
    and left: "j_attempts r < j_max_attempts r"
  shows "(case claimOne up (cand_of r) now pol d of
      (Inl e, d') \<Rightarrow> d' = d
    | (Inr True, d') \<Rightarrow> find_job d' (j_id r) = Some (set_claimed now r)
    | (Inr False, d') \<Rightarrow> d' = d \<and> up \<and> 0 < maxConcurrentOf pol (j_client r)
        \<and> maxConcurrentOf pol (j_client r) \<le> int (inFlightByClient d (j_client r)))"
proof -
  have st: "j_state r = StateReceived" using due by (simp add: due_received_def)
  have key: "\<And>j. j_id (set_claimed now j) = j_id j" by (simp add: set_claimed_def)
  have fu: "find_job (update_job (j_id r) (set_claimed now) d) (j_id r) = Some (set_claimed now r)"
    using r by (simp add: find_job_update_job key)
  then show ?thesis using r due left st fu
    by (auto simp: claimOne_def cand_of_def claimReceived_def Let_def find_job_def jobs_update_job)
qed

lemma claimOne_polls:
  assumes r: "find_job d (j_id r) = Some r" and due: "due_poll (ts now) r"
  shows "claimOne True (cand_of r) now pol d =
    (Inr True, update_job (j_id r) (set_poll_time (now + pollLeaseOf pol (j_target r)) now) d)"
proof -
  have "j_state r = StateAwaitingTarget" "j_next_attempt_at r \<noteq> None"
    using due by (auto simp: due_poll_def split: option.splits)
  with r show ?thesis by (simp add: claimOne_def cand_of_def claimPollTick_def)
qed

section \<open>One round\<close>

definition claimable :: "stamp \<Rightarrow> (string \<Rightarrow> bool) \<Rightarrow> job \<Rightarrow> bool" where
  "claimable nowS ac r \<longleftrightarrow> due_poll nowS r
     \<or> (due_received nowS r \<and> j_attempts r < j_max_attempts r \<and> \<not> ac (j_client r))"

definition handed :: "instant \<Rightarrow> claim_policy \<Rightarrow> job \<Rightarrow> job" where
  "handed now pol r = (if j_state r = StateReceived then set_claimed now r
     else set_poll_time (now + pollLeaseOf pol (j_target r)) now r)"

definition roomy :: "claim_policy \<Rightarrow> (string \<Rightarrow> bool) \<Rightarrow> db \<Rightarrow> bool" where
  "roomy pol ac d \<longleftrightarrow>
     (\<forall>c. \<not> ac c \<longrightarrow> maxConcurrentOf pol c \<le> 0 \<or> int (inFlightByClient d c) < maxConcurrentOf pol c)"

text \<open>A round either hands out a claimable job or leaves every offered job capped or failed.\<close>

definition hands_out :: "instant \<Rightarrow> claim_policy \<Rightarrow> (string \<Rightarrow> bool) \<Rightarrow> job list \<Rightarrow> string \<Rightarrow> db \<Rightarrow> bool" where
  "hands_out now pol ac rows i d' \<longleftrightarrow>
     (\<exists>r \<in> set rows. i = j_id r \<and> claimable (ts now) ac r \<and> find_job d' i = Some (handed now pol r))"

definition settled :: "(string \<Rightarrow> bool) \<Rightarrow> stamp \<Rightarrow> string list \<Rightarrow> db \<Rightarrow> job \<Rightarrow> bool" where
  "settled ac nowS cp d' r \<longleftrightarrow> \<not> claimable nowS ac r
     \<and> (if ac (j_client r) then j_client r \<in> set cp
        else \<forall>j \<in> set (jobs d'). j_id j = j_id r \<longrightarrow> IsTerminal (j_state j))"

definition only_failed :: "job list \<Rightarrow> db \<Rightarrow> db \<Rightarrow> bool" where
  "only_failed rows d d' \<longleftrightarrow> (\<forall>j \<in> set (jobs d'). IsTerminal (j_state j) \<or> j \<in> set (jobs d))
     \<and> (\<forall>j \<in> set (jobs d). j \<in> set rows \<or> j \<in> set (jobs d'))"

definition passes :: "(string \<Rightarrow> bool) \<Rightarrow> stamp \<Rightarrow> job list \<Rightarrow> string list \<Rightarrow> db \<Rightarrow> db \<Rightarrow> bool" where
  "passes ac nowS rows cp d d' \<longleftrightarrow> (\<forall>r \<in> set rows. settled ac nowS cp d' r) \<and> only_failed rows d d' \<and> (\<forall>c \<in> set cp. ac c)"

lemma only_failed_refl [simp]: "only_failed rows d d"
  by (simp add: only_failed_def)

lemma only_failed_Cons: "only_failed rows d d' \<Longrightarrow> only_failed (r # rows) d d'"
  by (auto simp: only_failed_def)

lemma roomy_le: "roomy pol ac d \<Longrightarrow> (\<And>c. inFlightByClient d' c \<le> inFlightByClient d c) \<Longrightarrow> roomy pol ac d'"
  unfolding roomy_def by (meson of_nat_le_iff order_le_less_trans)

lemma cand_of_sel [simp]:
  "cc_id (cand_of r) = j_id r" "cc_state (cand_of r) = j_state r" "cc_client (cand_of r) = j_client r"
  by (simp_all add: cand_of_def)

definition round_result ::
  "instant \<Rightarrow> claim_policy \<Rightarrow> (string \<Rightarrow> bool) \<Rightarrow> job list \<Rightarrow> string list \<Rightarrow> db \<Rightarrow> string option \<times> string list \<Rightarrow> db \<Rightarrow> bool" where
  "round_result now pol ac rows capped d res d' \<longleftrightarrow> db_ok d'
     \<and> (case fst res of Some i \<Rightarrow> hands_out now pol ac rows i d'
        | None \<Rightarrow> set capped \<subseteq> set (snd res) \<and> roomy pol ac d' \<and> passes ac (ts now) rows (snd res) d d')"

lemma round_result_skip:
  assumes "round_result now pol ac rows (List.insert (j_client r) capped) d res d'"
    and "\<not> claimable (ts now) ac r" and "ac (j_client r)"
  shows "round_result now pol ac (r # rows) capped d res d'"
proof (cases "fst res")
  case None
  then have "passes ac (ts now) rows (snd res) d d'" "j_client r \<in> set (snd res)"
    using assms(1) by (auto simp: round_result_def)
  moreover from this have "settled ac (ts now) (snd res) d' r"
    using assms(2,3) by (simp add: settled_def)
  ultimately have "passes ac (ts now) (r # rows) (snd res) d d'"
    by (simp add: passes_def only_failed_Cons)
  with assms(1) None show ?thesis by (auto simp: round_result_def)
qed (use assms in \<open>auto simp: round_result_def hands_out_def\<close>)

lemma round_result_failed:
  assumes res: "round_result now pol ac rows capped d1 res d'" and "\<not> claimable (ts now) ac r \<and> \<not> ac (j_client r)"
    and "\<And>j. j \<in> set (jobs d1) \<Longrightarrow> j_id j = j_id r \<Longrightarrow> IsTerminal (j_state j)"
    and "\<And>j. j \<in> set (jobs d1) \<Longrightarrow> j_id j \<noteq> j_id r \<Longrightarrow> j \<in> set (jobs d)"
    and "\<And>j. j \<in> set (jobs d) \<Longrightarrow> j \<noteq> r \<Longrightarrow> j \<in> set (jobs d1)"
  shows "round_result now pol ac (r # rows) capped d res d'"
proof -
  have "passes ac (ts now) (r # rows) cp d d'" if p: "passes ac (ts now) rows cp d1 d'" for cp
  proof -
    have "only_failed (r # rows) d d'"
      using p assms(3-5) unfolding passes_def only_failed_def by (metis list.set_intros)
    moreover have "IsTerminal (j_state j)" if "j \<in> set (jobs d')" "j_id j = j_id r" for j
      using that p assms(3) unfolding passes_def only_failed_def by metis
    then have "settled ac (ts now) cp d' r" using assms(2) by (simp add: settled_def)
    ultimately show ?thesis using p by (simp add: passes_def)
  qed
  with res show ?thesis
    by (auto simp: round_result_def hands_out_def split: option.splits)
qed

lemma tryCands_round:
  assumes "db_ok d" and "distinct (map j_id rows)" and "roomy pol ac d"
    and "\<forall>r \<in> set rows. find_job d (j_id r) = Some r \<and> (due_received (ts now) r \<or> due_poll (ts now) r)"
    and "\<forall>c \<in> set capped. ac c"
  shows "\<exists>res d'. tryCands True now pol ac (map cand_of rows) capped d = (Inr res, d')
    \<and> round_result now pol ac rows capped d res d'"
  using assms
proof (induction rows arbitrary: d capped)
  case Nil
  then show ?case by (simp add: passes_def round_result_def)
next
  case (Cons r rows)
  have fr: "find_job d (j_id r) = Some r" and due: "due_received (ts now) r \<or> due_poll (ts now) r"
    using Cons.prems(4) by auto
  consider (cap) "j_state r = StateReceived" "ac (j_client r)"
    | (poll) "due_poll (ts now) r" "j_state r = StateAwaitingTarget"
    | (gone) "due_received (ts now) r" "j_state r = StateReceived" "\<not> ac (j_client r)" "j_max_attempts r \<le> j_attempts r"
    | (take) "due_received (ts now) r" "j_state r = StateReceived" "\<not> ac (j_client r)" "j_attempts r < j_max_attempts r"
    using due by (cases "ac (j_client r)"; cases "j_attempts r < j_max_attempts r")
      (auto simp: due_received_def due_poll_def not_less)
  then show ?case
  proof cases
    case cap
    have "\<forall>c \<in> set (List.insert (j_client r) capped). ac c" using Cons.prems(5) cap(2) by auto
    from Cons.IH [OF Cons.prems(1) _ Cons.prems(3) _ this] Cons.prems(2,4) obtain res d' where
      "tryCands True now pol ac (map cand_of rows) (List.insert (j_client r) capped) d = (Inr res, d')"
      "round_result now pol ac rows (List.insert (j_client r) capped) d res d'" by auto
    moreover have "\<not> claimable (ts now) ac r" using cap by (auto simp: claimable_def due_poll_def)
    ultimately show ?thesis using cap round_result_skip by fastforce
  next
    case poll
    let ?d = "update_job (j_id r) (set_poll_time (now + pollLeaseOf pol (j_target r)) now) d"
    have "find_job ?d (j_id r) = Some (handed now pol r)"
      using fr poll by (simp add: find_job_update_job set_poll_time_def handed_def)
    moreover have "db_ok ?d" using Cons.prems(1) fr poll(2) by (rule set_poll_time_touch)
    ultimately show ?thesis using claimOne_polls [OF fr poll(1), of pol] poll
      by (simp add: round_result_def hands_out_def claimable_def)
  next
    case gone
    obtain d1 where one: "claimOne True (cand_of r) now pol d = (Inr False, d1)" "db_ok d1"
      and other: "\<And>k. k \<noteq> j_id r \<Longrightarrow> find_job d1 k = find_job d k"
      and failed: "\<exists>q. find_job d1 (j_id r) = Some q \<and> j_state q = StateFailed \<and> j_error_code q = ''max_attempts_exceeded''"
      and le: "\<And>c. inFlightByClient d1 c \<le> inFlightByClient d c"
      and sub: "\<And>j. j \<in> set (jobs d1) \<Longrightarrow> j_id j \<noteq> j_id r \<Longrightarrow> j \<in> set (jobs d)"
      using claimOne_exhausted [OF Cons.prems(1) fr gone(2,4)] by metis
    have "\<forall>q \<in> set rows. find_job d1 (j_id q) = Some q \<and> (due_received (ts now) q \<or> due_poll (ts now) q)"
      using Cons.prems(2,4) other by (auto simp: image_iff)
    from Cons.IH [OF one(2) _ roomy_le [OF Cons.prems(3) le] this Cons.prems(5)] Cons.prems(2)
    obtain res d' where run: "tryCands True now pol ac (map cand_of rows) capped d1 = (Inr res, d')"
      "round_result now pol ac rows capped d1 res d'" by auto
    have "\<not> claimable (ts now) ac r \<and> \<not> ac (j_client r)"
      using gone by (auto simp: claimable_def due_poll_def)
    moreover have "IsTerminal (j_state j)" if "j \<in> set (jobs d1)" "j_id j = j_id r" for j
      using that failed one(2) find_job_self [of d1 j] by (auto simp: db_ok_def ids_ok_def)
    moreover have "j \<in> set (jobs d1)" if "j \<in> set (jobs d)" "j \<noteq> r" for j
    proof -
      have "find_job d (j_id j) = Some j"
        using that(1) Cons.prems(1) by (simp add: db_ok_def ids_ok_def find_job_self)
      with that(2) fr other [of "j_id j"] have "find_job d1 (j_id j) = Some j" by force
      then show ?thesis using find_job_SomeD by blast
    qed
    ultimately have "round_result now pol ac (r # rows) capped d res d'"
      using sub by (intro round_result_failed [OF run(2)]) blast+
    with run(1) one(1) gone show ?thesis by simp
  next
    case take
    have room: "maxConcurrentOf pol (j_client r) \<le> 0 \<or> int (inFlightByClient d (j_client r)) < maxConcurrentOf pol (j_client r)"
      using Cons.prems(3) take(3) by (simp add: roomy_def)
    obtain b d1 where run: "claimOne True (cand_of r) now pol d = (b, d1)" by fastforce
    have "b = Inr True"
      using run take fr room by (auto simp: claimOne_def cand_of_def claimReceived_def Let_def)
    with run claimOne_takes [OF Cons.prems(1) fr take(1,4), of True pol]
    have "find_job d1 (j_id r) = Some (handed now pol r)" "claimOne True (cand_of r) now pol d = (Inr True, d1)"
      using take(2) by (simp_all add: handed_def)
    moreover have "db_ok d1" using claimOne_ok [OF Cons.prems(1) run] .
    ultimately show ?thesis using take by (simp add: round_result_def hands_out_def claimable_def)
  qed
qed

section \<open>All rounds\<close>

text \<open>
  What can keep a round from handing out work: a client at its ceiling, or a job out of
  attempts. A full round without success removes at least one of them from the next query.
\<close>

definition blocker :: "(string \<Rightarrow> bool) \<Rightarrow> job \<Rightarrow> string + string" where
  "blocker ac r = (if ac (j_client r) then Inl (j_client r) else Inr (j_id r))"

definition blockers :: "stamp \<Rightarrow> (string \<Rightarrow> bool) \<Rightarrow> string list \<Rightarrow> db \<Rightarrow> (string + string) set" where
  "blockers nowS ac ex d = blocker ac ` {r \<in> set (jobs d). eligible nowS ex r \<and> \<not> claimable nowS ac r}"

lemma finite_blockers: "finite (blockers nowS ac ex d)"
  by (simp add: blockers_def)

lemma eligible_not_terminal: "eligible nowS ex r \<Longrightarrow> \<not> IsTerminal (j_state r)"
  by (auto simp: eligible_def due_received_def due_poll_def)

lemma blockers_shrink:
  assumes "passes ac nowS rows cp d d'" and "r \<in> set rows" and "r \<in> set (jobs d)" and "eligible nowS ex r"
  shows "blockers nowS ac (ex @ cp) d' \<subset> blockers nowS ac ex d"
proof (rule psubsetI)
  show "blockers nowS ac (ex @ cp) d' \<subseteq> blockers nowS ac ex d"
    using assms(1) eligible_not_terminal unfolding blockers_def passes_def only_failed_def
    by (fastforce simp: eligible_def)
  have "blocker ac r \<in> blockers nowS ac ex d"
    using assms by (auto simp: blockers_def passes_def settled_def)
  moreover have "blocker ac r \<notin> blockers nowS ac (ex @ cp) d'"
  proof
    assume "blocker ac r \<in> blockers nowS ac (ex @ cp) d'"
    then obtain q where q: "q \<in> set (jobs d')" "eligible nowS (ex @ cp) q" "blocker ac r = blocker ac q"
      by (auto simp: blockers_def)
    with assms(1,2) eligible_not_terminal [OF q(2)] show False
      unfolding passes_def by (fastforce simp: settled_def blocker_def eligible_def split: if_splits)
  qed
  ultimately show "blockers nowS ac (ex @ cp) d' \<noteq> blockers nowS ac ex d" by blast
qed

lemma candidates_usable:
  assumes "db_ok d"
  shows "distinct (map j_id (candidate_rows d nowS ex))"
    and "\<forall>r \<in> set (candidate_rows d nowS ex). find_job d (j_id r) = Some r \<and> (due_received nowS r \<or> due_poll nowS r)"
proof -
  have dist: "distinct (map j_id (jobs d))" using assms by (simp add: db_ok_def ids_ok_def)
  then have "distinct (map j_id (sort_key k (filter (eligible nowS ex) (jobs d))))"
    for k :: "job \<Rightarrow> int \<times> nat \<times> stamp option \<times> stamp \<times> int"
    by (auto simp: distinct_map inj_on_def)
  then show "distinct (map j_id (candidate_rows d nowS ex))"
    by (simp add: candidate_rows_def Let_def take_map [symmetric] distinct_take)
  show "\<forall>r \<in> set (candidate_rows d nowS ex). find_job d (j_id r) = Some r \<and> (due_received nowS r \<or> due_poll nowS r)"
    using candidate_rows_eligible find_job_self [OF dist] by (fastforce simp: eligible_def)
qed

lemma short_batch_is_all:
  "length (candidate_rows d nowS ex) < claimBatch \<Longrightarrow>
   set (candidate_rows d nowS ex) = {r \<in> set (jobs d). eligible nowS ex r}"
  by (auto simp: candidate_rows_def Let_def)

definition loop_result ::
  "nat \<Rightarrow> instant \<Rightarrow> claim_policy \<Rightarrow> (string \<Rightarrow> bool) \<Rightarrow> string list \<Rightarrow> db \<Rightarrow> job option \<Rightarrow> db \<Rightarrow> bool" where
  "loop_result n now pol ac ex d res d' \<longleftrightarrow>
     (case res of
        Some j \<Rightarrow> find_job d' (j_id j) = Some j
          \<and> (\<exists>q \<in> set (jobs d). claimable (ts now) ac q \<and> j = handed now pol q)
      | None \<Rightarrow> n \<le> card (blockers (ts now) ac ex d)
          \<or> (\<forall>r \<in> set (jobs d). claimable (ts now) ac r \<longrightarrow> ac (j_client r)))"

lemma claimLoop_result:
  assumes "db_ok d" and "roomy pol ac d" and "\<forall>c \<in> set ex. ac c"
  shows "\<exists>res d'. claimLoop n True now pol ac ex d = (Inr res, d') \<and> loop_result n now pol ac ex d res d'"
  using assms
proof (induction n arbitrary: ex d)
  case 0
  then show ?case by (simp add: loop_result_def)
next
  case (Suc n)
  let ?rows = "candidate_rows d (ts now) ex"
  obtain res d1 where run: "tryCands True now pol ac (map cand_of ?rows) [] d = (Inr res, d1)"
    and rr: "round_result now pol ac ?rows [] d res d1"
    using tryCands_round [OF Suc.prems(1) candidates_usable(1) Suc.prems(2) candidates_usable(2), where capped = "[]"]
      Suc.prems(1) by fastforce
  have keyid: "j_id (handed now pol q) = j_id q" for q
    by (simp add: handed_def set_claimed_def set_poll_time_def)
  show ?case
  proof (cases "fst res")
    case (Some i)
    with rr obtain r where r: "r \<in> set ?rows" "i = j_id r" "claimable (ts now) ac r"
        "find_job d1 i = Some (handed now pol r)"
      by (auto simp: round_result_def hands_out_def)
    then have "loop_result (Suc n) now pol ac ex d (Some (handed now pol r)) d1"
      using candidate_rows_eligible [OF r(1)] by (auto simp: loop_result_def keyid)
    with run Some r show ?thesis
      by (cases res) (simp add: claimCandidates_def GetJob_def)
  next
    case None
    with rr obtain cp where cp: "res = (None, cp)" "db_ok d1" "roomy pol ac d1" "passes ac (ts now) ?rows cp d d1"
      by (cases res) (auto simp: round_result_def)
    have free: "r \<in> set (jobs d1)" if "r \<in> set (jobs d)" "claimable (ts now) ac r" for r
      using that cp(4) by (auto simp: passes_def settled_def only_failed_def)
    show ?thesis
    proof (cases "length ?rows < claimBatch")
      case True
      have "ac (j_client r)" if "r \<in> set (jobs d)" "claimable (ts now) ac r" for r
        using that cp(4) short_batch_is_all [OF True] Suc.prems(3)
        by (auto simp: passes_def settled_def eligible_def claimable_def)
      with True run cp(1) show ?thesis by (simp add: claimCandidates_def loop_result_def)
    next
      case False
      then obtain r where "r \<in> set ?rows" by (cases ?rows) (auto simp: claimBatch_def)
      then have "card (blockers (ts now) ac (ex @ cp) d1) < card (blockers (ts now) ac ex d)"
        using blockers_shrink [OF cp(4)] candidate_rows_eligible
        by (blast intro: psubset_card_mono finite_blockers)
      moreover have "\<forall>c \<in> set (ex @ cp). ac c" using Suc.prems(3) cp(4) by (auto simp: passes_def)
      from Suc.IH [OF cp(2,3) this] obtain res' d' where
        "claimLoop n True now pol ac (ex @ cp) d1 = (Inr res', d')" "loop_result n now pol ac (ex @ cp) d1 res' d'"
        by blast
      moreover have "q \<in> set (jobs d)" if "q \<in> set (jobs d1)" "claimable (ts now) ac q" for q
        using that cp(4) unfolding passes_def only_failed_def claimable_def
        by (auto simp: due_received_def due_poll_def)
      ultimately have "claimLoop (Suc n) True now pol ac ex d = (Inr res', d')"
          "loop_result (Suc n) now pol ac ex d res' d'"
        using False run cp(1) free by (auto simp: claimCandidates_def loop_result_def split: option.splits)
      then show ?thesis by blast
    qed
  qed
qed

lemma roomy_at_ceiling: "roomy pol (at_ceiling pol d) d"
  unfolding roomy_def
proof (intro allI impI)
  fix c assume "\<not> at_ceiling pol d c"
  then show "maxConcurrentOf pol c \<le> 0 \<or> int (inFlightByClient d c) < maxConcurrentOf pol c"
    by (cases "MaxConcurrent pol") (auto simp: at_ceiling_def maxConcurrentOf_def Let_def)
qed

section \<open>What a worker is handed\<close>

text \<open>C17: A job handed to a worker was due (its start delay and backoff have passed), had attempts left
  and a client below its ceiling, and is stored as resolving with one more attempt; or its poll was due
  and its poll time is stored as leased. The worker gets the stored row, never an error.\<close>

theorem ClaimNext_sound:
  assumes "reachable_db pol d" and "ClaimNext up now pol d = (Inr (Some j), d')"
  shows "find_job d' (j_id j) = Some j \<and>
    (\<exists>q \<in> set (jobs d).
       (due_received (ts now) q \<and> j_attempts q < j_max_attempts q \<and> \<not> at_ceiling pol d (j_client q)
          \<and> j = set_claimed now q)
     \<or> (due_poll (ts now) q \<and> j = set_poll_time (now + pollLeaseOf pol (j_target q)) now q))"
proof -
  have up: "up" using assms(2) by (auto simp: ClaimNext_def split: if_splits)
  obtain res dn where "claimLoop claimRounds True now pol (at_ceiling pol d) [] d = (Inr res, dn)"
      "loop_result claimRounds now pol (at_ceiling pol d) [] d res dn"
    using claimLoop_result [OF reachable_ok [OF assms(1)] roomy_at_ceiling, of "[]"] by fastforce
  with assms(2) up have "loop_result claimRounds now pol (at_ceiling pol d) [] d (Some j) d'"
    by (simp add: ClaimNext_def)
  then obtain q where "find_job d' (j_id j) = Some j" "q \<in> set (jobs d)" "claimable (ts now) (at_ceiling pol d) q"
      "j = handed now pol q" by (auto simp: loop_result_def)
  then show ?thesis
    by (auto simp: claimable_def handed_def due_received_def due_poll_def)
qed

theorem ClaimNext_sound_witness:
  "\<exists>j d'. ClaimNext True second demo_policy demo_received = (Inr (Some j), d')
     \<and> find_job d' (j_id j) = Some j \<and> j_state j = StateResolving"
proof -
  have "\<exists>j d'. ClaimNext True second demo_policy demo_received = (Inr (Some j), d') \<and> j_state j = StateResolving"
    by (simp add: ClaimNext_def claimRounds_def numeral_eq_Suc claimCandidates_def candidate_rows_def
        demo_received_jobs demo_job_def demo_policy_def eligible_def claimBatch_def at_ceiling_def
        claimOne_def claimReceived_def cand_of_def due_received_def maxConcurrentOf_def Let_def GetJob_def
        find_job_def inFlightByClient_def update_job_def set_claimed_def appendEventTx_def)
  then show ?thesis using ClaimNext_sound [OF demo_reachable(2)] by blast
qed



text \<open>A client at its ceiling with a full batch of higher-ranked queued jobs has its due polls left
  out as well: the re-query excludes the client as a whole, so the claim reports that no work is
  eligible although a poll is due and polls do not count against the ceiling.\<close>

theorem capped_client_polls_skipped:
  "(\<exists>r \<in> set (jobs capped_db). due_poll (ts second) r)
   \<and> ClaimNext True second demo_policy capped_db = (Inr None, capped_db)"
proof
  show "\<exists>r \<in> set (jobs capped_db). due_poll (ts second) r" by code_simp
  let ?ac = "at_ceiling demo_policy capped_db"
  have "?ac ''c''" by code_simp
  moreover have "claimCandidates capped_db (ts second) [] =
      map cand_of (map (\<lambda>n. (demo_submission (replicate n CHR ''x'') ''c'')\<lparr>j_seq := int n + 2, j_priority := 1\<rparr>) [1..<9])"
    by code_simp
  moreover have "claimCandidates capped_db (ts second) [''c''] = []" by code_simp
  ultimately show "ClaimNext True second demo_policy capped_db = (Inr None, capped_db)"
    by (simp add: ClaimNext_def claimRounds_def numeral_eq_Suc upt_rec demo_submission_def demo_job_def claimBatch_def)
qed

end
