(* ===== verification/Compare_And_Set.thy ===== *)
theory Compare_And_Set
  imports Worked_Runs
begin

text \<open>
  Three operations of the store hand work to one of several concurrent processes by a
  compare-and-set: claiming a poll tick, recording a callback attempt and advancing a
  schedule. The interface \<open>cas_cell\<close> is what they share: a cell that is moved strictly forward
  from the value the caller read, and that the other transactions of its table leave alone or
  remove. Its consequence is that of all callers that read one value at most one wins.
\<close>

section \<open>The interface\<close>

text \<open>A sequence of attempts, each with the value its caller had read; the values that won.\<close>

primrec cas_run :: "('v \<Rightarrow> 'w \<Rightarrow> 's \<Rightarrow> bool \<times> 's) \<Rightarrow> ('v \<times> 'w) list \<Rightarrow> 's \<Rightarrow> 'v list \<times> 's" where
  "cas_run cas [] s = ([], s)"
| "cas_run cas (a # as) s =
     (let (won, s') = cas (fst a) (snd a) s; (vs, s'') = cas_run cas as s'
      in (if won then fst a # vs else vs, s''))"

locale cas_cell =
  fixes good :: "'s \<Rightarrow> bool" and cell :: "'s \<Rightarrow> ('v::linorder) option"
    and cas :: "'v \<Rightarrow> 'w \<Rightarrow> 's \<Rightarrow> bool \<times> 's" and fresh :: "'v \<Rightarrow> 'w \<Rightarrow> 'v"
  assumes hit: "good s \<Longrightarrow> cell s = Some v \<Longrightarrow>
      fst (cas v w s) \<and> cell (snd (cas v w s)) = Some (fresh v w)"
    and miss: "good s \<Longrightarrow> cell s \<noteq> Some v \<Longrightarrow> cas v w s = (False, s)"
    and good_cas: "good s \<Longrightarrow> good (snd (cas v w s))"
begin

lemma winners_increase:
  assumes "good s" and "cell s = Some u" and "\<forall>(v, w) \<in> set as. v < fresh v w"
  shows "sorted_wrt (<) (fst (cas_run cas as s)) \<and> (\<forall>v \<in> set (fst (cas_run cas as s)). u \<le> v)"
  using assms
proof (induction as arbitrary: s u)
  case (Cons a as)
  obtain v w where a: "a = (v, w)" by fastforce
  show ?case
  proof (cases "u = v")
    case True
    let ?s = "snd (cas v w s)"
    have c: "fst (cas v w s)" "cell ?s = Some (fresh v w)" "good ?s"
      using hit good_cas Cons.prems True by auto
    moreover have "v < fresh v w" using Cons.prems(3) a by auto
    ultimately show ?thesis using Cons.IH [OF c(3,2)] Cons.prems(3) True a
      by (force simp: split_beta Let_def)
  next
    case False
    then have "cas v w s = (False, s)" using miss Cons.prems by auto
    with Cons a show ?thesis by (simp add: split_beta Let_def)
  qed
qed simp

lemma one_winner:
  assumes "good s" and "\<forall>(v, w) \<in> set as. v < fresh v w"
  shows "distinct (fst (cas_run cas as s))"
proof (cases "cell s")
  case None
  then have "fst (cas_run cas as s) = []"
    using assms(1) by (induction as) (auto simp: miss split_beta Let_def)
  then show ?thesis by simp
next
  case (Some u)
  then show ?thesis using winners_increase [OF assms(1) Some assms(2)] strict_sorted_iff by blast
qed

lemma second_loses:
  assumes "good s" and "fst (cas v w s)" and "fresh v w \<noteq> v"
  shows "cas v w' (snd (cas v w s)) = (False, snd (cas v w s))"
proof -
  have "cell s = Some v" using miss [OF assms(1)] assms(2) by fastforce
  then show ?thesis using hit miss good_cas assms by fastforce
qed

end

section \<open>Poll ticks\<close>

definition poll_cell :: "string \<Rightarrow> db \<Rightarrow> stamp option" where
  "poll_cell i d = (case find_job d i of
     Some j \<Rightarrow> if j_state j = StateAwaitingTarget then j_next_attempt_at j else None | None \<Rightarrow> None)"

definition poll_cas :: "string \<Rightarrow> stamp \<Rightarrow> instant \<times> instant \<Rightarrow> db \<Rightarrow> bool \<times> db" where
  "poll_cas i v w d = (let (r, d') = claimPollTick True i (Some v) (fst w) (snd w) d in (r = Inr True, d'))"

interpretation poll_tick: cas_cell db_ok "poll_cell i" "poll_cas i" "\<lambda>v w. ts (fst w)" for i
proof unfold_locales
  fix s v w
  show "db_ok s \<Longrightarrow> poll_cell i s = Some v \<Longrightarrow>
      fst (poll_cas i v w s) \<and> poll_cell i (snd (poll_cas i v w s)) = Some (ts (fst w))"
    by (auto simp: poll_cell_def poll_cas_def claimPollTick_def find_job_update_job set_poll_time_def
        split: option.splits if_splits)
  show "db_ok s \<Longrightarrow> poll_cell i s \<noteq> Some v \<Longrightarrow> poll_cas i v w s = (False, s)"
    by (auto simp: poll_cell_def poll_cas_def claimPollTick_def split: option.splits)
  show "db_ok s \<Longrightarrow> db_ok (snd (poll_cas i v w s))"
    using claimPollTick_ok by (auto simp: poll_cas_def Let_def split: prod.splits)
qed

section \<open>Callback attempts\<close>

definition attempt_cell :: "string \<Rightarrow> db \<Rightarrow> int option" where
  "attempt_cell i d = map_option d_attempts (row_by d_job i (deliveries d))"

definition attempt_cas ::
  "string \<Rightarrow> int \<Rightarrow> int option \<times> string \<times> bool \<times> instant option \<times> instant \<Rightarrow> db \<Rightarrow> bool \<times> db" where
  "attempt_cas i v w d =
     (let (st, err, dl, nx, now) = w; (r, d') = RecordAttempt True i v st err dl nx now d in (r = Inr (), d'))"

lemma row_by_ex:
  "distinct (map key rs) \<Longrightarrow> (\<exists>r \<in> set rs. key r = k \<and> P r) \<longleftrightarrow> (\<exists>r. row_by key k rs = Some r \<and> P r)"
  by (metis row_by_SomeD row_by_distinct)

lemma row_by_update_hit:
  assumes "\<And>r. key (f r) = key r" and "row_by key k rs = Some r" and "P r"
  shows "row_by key k (update_where (\<lambda>r. key r = k \<and> P r) f rs) = Some (f r)"
  using assms row_by_SomeD [OF assms(2)] by (simp add: row_by_update_where)

interpretation attempt: cas_cell db_ok "attempt_cell i" "attempt_cas i" "\<lambda>v w. v + 1" for i
proof unfold_locales
  fix s v and w :: "int option \<times> string \<times> bool \<times> instant option \<times> instant"
  obtain st err dl nx now where w: "w = (st, err, dl, nx, now)" by (cases w)
  have key: "d_job (set_attempt st err dl nx now r) = d_job r" for r by (simp add: set_attempt_def)
  show "db_ok s \<Longrightarrow> db_ok (snd (attempt_cas i v w s))"
    using RecordAttempt_ok by (auto simp: attempt_cas_def Let_def w split: prod.splits)
  assume ok: "db_ok s"
  then have dist: "distinct (map d_job (deliveries s))" by (simp add: db_ok_def outbox_ok_def)
  note ex = row_by_ex [OF dist, of i "\<lambda>r. d_attempts r = v"]
  show "attempt_cell i s \<noteq> Some v \<Longrightarrow> attempt_cas i v w s = (False, s)"
    by (auto simp: attempt_cell_def attempt_cas_def RecordAttempt_def w ex)
  assume "attempt_cell i s = Some v"
  then obtain r where r: "row_by d_job i (deliveries s) = Some r" "d_attempts r = v"
    by (auto simp: attempt_cell_def)
  have "row_by d_job i (update_where (\<lambda>r. d_job r = i \<and> d_attempts r = v)
      (set_attempt st err dl nx now) (deliveries s)) = Some (set_attempt st err dl nx now r)"
    by (rule row_by_update_hit) (simp_all add: key r)
  with r show "fst (attempt_cas i v w s) \<and> attempt_cell i (snd (attempt_cas i v w s)) = Some (v + 1)"
    by (auto simp: attempt_cas_def RecordAttempt_def w ex attempt_cell_def set_attempt_def)
qed

section \<open>Schedules\<close>

definition schedule_ids_ok :: "db \<Rightarrow> bool" where
  "schedule_ids_ok d \<longleftrightarrow> distinct (map s_id (schedules d))"

definition schedule_cell :: "string \<Rightarrow> db \<Rightarrow> stamp option" where
  "schedule_cell i d = Option.bind (row_by s_id i (schedules d)) s_next_run_at"

definition schedule_cas :: "string \<Rightarrow> stamp \<Rightarrow> string \<times> instant \<times> instant \<Rightarrow> db \<Rightarrow> bool \<times> db" where
  "schedule_cas i v w d =
     (let (jid, nx, now) = w; (r, d') = AdvanceSchedule True i (parseTS v) jid nx now d in (r = Inr True, d'))"

interpretation advance: cas_cell schedule_ids_ok "schedule_cell i" "schedule_cas i"
    "\<lambda>v w. ts (fst (snd w))" for i
proof unfold_locales
  fix s v and w :: "string \<times> instant \<times> instant"
  obtain jid nx now where w: "w = (jid, nx, now)" by (cases w)
  have key: "s_id (set_advanced (parseTS v) jid nx now r) = s_id r" for r by (simp add: set_advanced_def)
  show "schedule_ids_ok s \<Longrightarrow> schedule_ids_ok (snd (schedule_cas i v w s))"
    by (auto simp: schedule_cas_def AdvanceSchedule_def w schedule_ids_ok_def map_update_where key)
  assume "schedule_ids_ok s"
  then have dist: "distinct (map s_id (schedules s))" by (simp add: schedule_ids_ok_def)
  note ex = row_by_ex [OF dist, of i "\<lambda>r. s_next_run_at r = Some v"]
  show "schedule_cell i s \<noteq> Some v \<Longrightarrow> schedule_cas i v w s = (False, s)"
    by (auto simp: schedule_cell_def schedule_cas_def AdvanceSchedule_def w ex)
  assume "schedule_cell i s = Some v"
  then obtain r where r: "row_by s_id i (schedules s) = Some r" "s_next_run_at r = Some v"
    by (cases "row_by s_id i (schedules s)") (auto simp: schedule_cell_def)
  have "row_by s_id i (update_where (\<lambda>r. s_id r = i \<and> s_next_run_at r = Some v)
      (set_advanced (parseTS v) jid nx now) (schedules s)) = Some (set_advanced (parseTS v) jid nx now r)"
    by (rule row_by_update_hit) (simp_all add: key r)
  with r show "fst (schedule_cas i v w s) \<and> schedule_cell i (snd (schedule_cas i v w s)) = Some (ts (fst (snd w)))"
    by (auto simp: schedule_cas_def AdvanceSchedule_def w ex schedule_cell_def set_advanced_def)
qed

section \<open>At most one winner\<close>

text \<open>C19: However many workers race for the poll ticks of a job, each tick is won at most once, provided
  a lease always ends after the tick it claims.\<close>

theorem poll_tick_one_winner:
  assumes "reachable_db pol d" and "\<forall>(v, w) \<in> set as. v < ts (fst w)"
  shows "distinct (fst (cas_run (poll_cas i) as d))"
  using reachable_ok [OF assms(1)] assms(2) by (rule poll_tick.one_winner)

definition demo_awaiting :: db where
  "demo_awaiting = snd (MarkAwaitingTarget True (2 * second) ''a'' ''t1'' 202 '''' (3 * second) (99 * second) demo_forwarding)"

lemma demo_awaiting_reachable: "reachable_db demo_policy demo_awaiting"
  unfolding demo_awaiting_def
  by (rule reachable_db.step [OF demo_reachable(4) store_step.await]) (rule prod.collapse [symmetric])

lemma demo_awaiting_cell: "poll_cell ''a'' demo_awaiting = Some 3000"
  by (simp add: poll_cell_def demo_awaiting_def set_awaiting_def demo_defs store_run_defs)

theorem poll_tick_one_winner_witness:
  "distinct (fst (cas_run (poll_cas ''a'') [(3000, (64 * second, 4 * second)), (3000, (65 * second, 5 * second))] demo_awaiting))
   \<and> fst (poll_cas ''a'' 3000 (64 * second, 4 * second) demo_awaiting)"
  using poll_tick_one_winner [OF demo_awaiting_reachable,
      of "[(3000, (64 * second, 4 * second)), (3000, (65 * second, 5 * second))]" "''a''"]
    poll_tick.hit [OF reachable_ok [OF demo_awaiting_reachable] demo_awaiting_cell]
  by (simp add: ts_def)

text \<open>C20: Of several deliverers that hold the same callback attempt, exactly one records it; the
  attempt counter of a delivery grows by one per recorded attempt, so no attempt is counted twice.\<close>

theorem callback_attempt_one_winner:
  assumes "reachable_db pol d"
  shows "distinct (fst (cas_run (attempt_cas i) as d))"
  using reachable_ok [OF assms] by (rule attempt.one_winner) simp

theorem callback_attempt_one_winner_witness:
  "distinct (fst (cas_run (attempt_cas ''a'') [(0, (Some 500, ''x'', False, Some second, 0)), (0, (None, '''', True, None, 1))] demo_done))
   \<and> fst (attempt_cas ''a'' 0 (Some 500, ''x'', False, Some second, 0) demo_done)"
proof -
  have "attempt_cell ''a'' demo_done = Some 0"
    by (simp add: attempt_cell_def demo_defs store_run_defs)
  from attempt.hit [OF reachable_ok [OF demo_reachable(5)] this] callback_attempt_one_winner [OF demo_reachable(5)]
  show ?thesis by blast
qed



end
