(* ===== verification/Job_Listing.thy ===== *)
theory Job_Listing
  imports Worked_Runs
begin

text \<open>
  \<^verbatim>\<open>ListJobs\<close> and \<^verbatim>\<open>CountByState\<close> of \<^verbatim>\<open>internal/store/jobs.go\<close> with \<^verbatim>\<open>escapeLike\<close> of
  \<^verbatim>\<open>schedules.go\<close>: the filter, the newest-first order, the cursor, and SQLite's
  \<^verbatim>\<open>LIKE ... ESCAPE '\'\<close>. Shown are that a cursor continues a listing exactly where the
  previous page ended and what the idempotency-prefix filter selects.
\<close>

section \<open>LIKE\<close>

text \<open>SQLite compares ASCII letters without regard to case.\<close>

definition ascii_lower :: "char \<Rightarrow> char" where
  "ascii_lower c = (if 65 \<le> (of_char c :: nat) \<and> (of_char c :: nat) \<le> 90 then char_of ((of_char c :: nat) + 32) else c)"

fun sql_like :: "string \<Rightarrow> string \<Rightarrow> bool" where
  "sql_like [] s \<longleftrightarrow> s = []"
| "sql_like (p # ps) s \<longleftrightarrow>
     (if p = CHR ''%'' then sql_like ps s \<or> (case s of [] \<Rightarrow> False | c # cs \<Rightarrow> sql_like (p # ps) cs)
      else if p = CHR 0x5C then
        (case ps of [] \<Rightarrow> False
         | q # qs \<Rightarrow> (case s of [] \<Rightarrow> False | c # cs \<Rightarrow> ascii_lower c = ascii_lower q \<and> sql_like qs cs))
      else if p = CHR ''_'' then (case s of [] \<Rightarrow> False | c # cs \<Rightarrow> sql_like ps cs)
      else (case s of [] \<Rightarrow> False | c # cs \<Rightarrow> ascii_lower c = ascii_lower p \<and> sql_like ps cs))"

definition escapeLike :: "string \<Rightarrow> string" where
  "escapeLike s = concat (map (\<lambda>c.
     if c = CHR 0x5C \<or> c = CHR ''%'' \<or> c = CHR ''_'' then [CHR 0x5C, c] else [c]) s)"

section \<open>The query\<close>

record list_filter =
  f_state :: string
  f_client :: string
  f_target :: string
  f_idem_prefix :: string
  f_since :: "instant option"
  f_until :: "instant option"
  f_before :: "(instant \<times> int) option"
  f_limit :: int

definition clauses :: "list_filter \<Rightarrow> job \<Rightarrow> bool" where
  "clauses f j \<longleftrightarrow>
     (f_state f \<noteq> '''' \<longrightarrow> state_name (j_state j) = f_state f)
   \<and> (f_client f \<noteq> '''' \<longrightarrow> j_client j = f_client f)
   \<and> (f_target f \<noteq> '''' \<longrightarrow> j_target j = f_target f)
   \<and> (f_idem_prefix f \<noteq> '''' \<longrightarrow> j_idem j \<noteq> '''' \<and> sql_like (escapeLike (f_idem_prefix f) @ ''%'') (j_idem j))
   \<and> (case f_since f of None \<Rightarrow> True | Some t \<Rightarrow> ts t \<le> j_created_at j)
   \<and> (case f_until f of None \<Rightarrow> True | Some t \<Rightarrow> j_created_at j < ts t)
   \<and> (case f_before f of None \<Rightarrow> True
      | Some (t, s) \<Rightarrow> j_created_at j < ts t \<or> (j_created_at j = ts t \<and> j_seq j < s))"

text \<open>\<^verbatim>\<open>ORDER BY created_at DESC, rowid DESC\<close>; a negative \<^verbatim>\<open>LIMIT\<close> is no limit.\<close>

definition newest_key :: "job \<Rightarrow> int \<times> int" where
  "newest_key j = (- j_created_at j, - j_seq j)"

definition sql_limit :: "int \<Rightarrow> 'a list \<Rightarrow> 'a list" where
  "sql_limit n xs = (if n < 0 then xs else take (nat n) xs)"

definition ListJobs :: "list_filter \<Rightarrow> db \<Rightarrow> job list" where
  "ListJobs f d = sql_limit (f_limit f) (sort_key newest_key (filter (clauses f) (jobs d)))"

definition CountByState :: "db \<Rightarrow> job_state \<Rightarrow> nat" where
  "CountByState d st = count_where (\<lambda>j. j_state j = st) (jobs d)"

section \<open>What LIKE selects\<close>

lemma sql_like_percent: "sql_like ''%'' s"
  by (induction s) auto

lemma escapeLike_Cons:
  "escapeLike (c # s) = (if c = CHR 0x5C \<or> c = CHR ''%'' \<or> c = CHR ''_'' then [CHR 0x5C, c] else [c]) @ escapeLike s"
  by (simp add: escapeLike_def)

lemma sql_like_escape_Cons:
  "sql_like (escapeLike (c # p) @ ''%'') s =
     (case s of [] \<Rightarrow> False | b # bs \<Rightarrow> ascii_lower b = ascii_lower c \<and> sql_like (escapeLike p @ ''%'') bs)"
  by (auto simp: escapeLike_Cons split: list.splits)

lemma sql_like_prefix:
  "sql_like (escapeLike p @ ''%'') s \<longleftrightarrow> prefix (map ascii_lower p) (map ascii_lower s)"
proof (induction p arbitrary: s)
  case Nil
  have "sql_like ''%'' s" by (rule sql_like_percent)
  then show ?case by (simp add: escapeLike_def)
next
  case (Cons c p)
  show ?case unfolding sql_like_escape_Cons Cons.IH by (cases s) auto
qed

text \<open>C22: The idempotency-prefix filter escapes every metacharacter: it selects exactly the jobs whose key
  starts with the prefix up to ASCII letter case, and never treats a character of it as a wildcard.\<close>

theorem idempotency_prefix_filter:
  assumes "p \<noteq> ''''"
  shows "clauses \<lparr>f_state = '''', f_client = '''', f_target = '''', f_idem_prefix = p, f_since = None,
      f_until = None, f_before = None, f_limit = n\<rparr> j
    \<longleftrightarrow> prefix (map ascii_lower p) (map ascii_lower (j_idem j))"
  using assms sql_like_prefix [of p "j_idem j"] by (auto simp: clauses_def)

theorem idempotency_prefix_filter_witness:
  "clauses \<lparr>f_state = '''', f_client = '''', f_target = '''', f_idem_prefix = ''a_'', f_since = None,
      f_until = None, f_before = None, f_limit = 9\<rparr> (demo_job\<lparr>j_idem := ''A_1''\<rparr>)
   \<and> \<not> clauses \<lparr>f_state = '''', f_client = '''', f_target = '''', f_idem_prefix = ''a_'', f_since = None,
      f_until = None, f_before = None, f_limit = 9\<rparr> (demo_job\<lparr>j_idem := ''ab1''\<rparr>)"
proof -
  have "prefix (map ascii_lower ''a_'') (map ascii_lower ''A_1'')"
      "\<not> prefix (map ascii_lower ''a_'') (map ascii_lower ''ab1'')" by code_simp+
  then show ?thesis
  using idempotency_prefix_filter [of "''a_''" 9 "demo_job\<lparr>j_idem := ''A_1''\<rparr>"]
    idempotency_prefix_filter [of "''a_''" 9 "demo_job\<lparr>j_idem := ''ab1''\<rparr>"]
    by simp
qed

section \<open>Pages\<close>

lemma clauses_limit [simp]: "clauses (f\<lparr>f_limit := n\<rparr>) = clauses f"
  by (simp add: clauses_def fun_eq_iff)

lemma newest_key_less:
  "newest_key j < newest_key q \<longleftrightarrow>
     j_created_at q < j_created_at j \<or> (j_created_at q = j_created_at j \<and> j_seq q < j_seq j)"
  by (auto simp: newest_key_def)

lemma strictly_newest:
  assumes "ids_ok d"
  shows "sorted_wrt (<) (map newest_key (sort_key newest_key (filter p (jobs d))))"
proof -
  have "distinct (map j_seq (jobs d))"
    using assms strict_sorted_iff [of "map j_seq (jobs d)"] by (simp add: ids_ok_def)
  then have "inj_on newest_key (set (jobs d))" "distinct (jobs d)"
    by (auto simp: distinct_map inj_on_def newest_key_def)
  then have "distinct (map newest_key (sort_key newest_key (filter p (jobs d))))"
    by (auto simp: distinct_map intro: inj_on_subset)
  then show ?thesis by (simp add: strict_sorted_iff)
qed

lemma filter_after:
  fixes key :: "'a \<Rightarrow> 'k::linorder"
  assumes "sorted_wrt (<) (map key xs)" and "k < length xs"
  shows "filter (\<lambda>x. key (xs ! k) < key x) xs = drop (Suc k) xs"
  using assms
proof (induction xs arbitrary: k)
  case (Cons x xs)
  show ?case
  proof (cases k)
    case 0
    then show ?thesis using Cons.prems by (auto simp: filter_id_conv)
  next
    case (Suc m)
    then have "key x < key (xs ! m)" using Cons.prems by auto
    then have "\<not> key (xs ! m) < key x" by simp
    with Cons Suc show ?thesis by simp
  qed
qed simp

text \<open>C23: A listing continued with the cursor of any of its rows returns exactly the rows that follow that
  row in the full newest-first listing: pages neither skip nor repeat a job, ties included.\<close>

theorem cursor_continues:
  assumes "reachable_db pol d" and "f_before f = None" and "k < length (ListJobs (f\<lparr>f_limit := -1\<rparr>) d)"
  defines "all \<equiv> ListJobs (f\<lparr>f_limit := -1\<rparr>) d"
  shows "ListJobs (f\<lparr>f_before := Some (parseTS (j_created_at (all ! k)), j_seq (all ! k))\<rparr>) d =
    sql_limit (f_limit f) (drop (Suc k) all)"
proof -
  let ?j = "all ! k"
  let ?g = "f\<lparr>f_before := Some (parseTS (j_created_at ?j), j_seq ?j)\<rparr>"
  have all: "all = sort_key newest_key (filter (clauses f) (jobs d))"
    using assms(2) by (simp add: all_def ListJobs_def sql_limit_def)
  have "clauses ?g q \<longleftrightarrow> newest_key ?j < newest_key q \<and> clauses f q" for q
    using assms(2) by (auto simp: clauses_def newest_key_less)
  then have "sort_key newest_key (filter (clauses ?g) (jobs d)) =
      sort_key newest_key (filter (\<lambda>q. newest_key ?j < newest_key q) (filter (clauses f) (jobs d)))"
    by (simp add: conj_commute cong: filter_cong)
  also have "\<dots> = filter (\<lambda>q. newest_key ?j < newest_key q) all"
    unfolding all by (simp add: filter_sort)
  also have "\<dots> = drop (Suc k) all"
  proof (rule filter_after)
    show "sorted_wrt (<) (map newest_key all)"
      unfolding all using reachable_ok [OF assms(1)] by (intro strictly_newest) (simp add: db_ok_def)
    show "k < length all" using assms(3) by (simp add: all_def)
  qed
  finally show ?thesis by (simp add: ListJobs_def)
qed

theorem cursor_continues_witness:
  "(let f = \<lparr>f_state = '''', f_client = '''', f_target = '''', f_idem_prefix = '''', f_since = None,
         f_until = None, f_before = None, f_limit = 1\<rparr>
    in map j_id (ListJobs (f\<lparr>f_before := Some (0, 3)\<rparr>) demo_queue) = [''c2''])"
proof -
  let ?f = "\<lparr>f_state = '''', f_client = '''', f_target = '''', f_idem_prefix = '''', f_since = None,
         f_until = None, f_before = None, f_limit = 1\<rparr>"
  have all: "ListJobs (?f\<lparr>f_limit := -1\<rparr>) demo_queue = rev (jobs demo_queue)"
    by (simp add: ListJobs_def sql_limit_def clauses_def demo_queue_jobs newest_key_def demo_submission_def
        demo_job_def)
  have "f_before ?f = None" "0 < length (ListJobs (?f\<lparr>f_limit := -1\<rparr>) demo_queue)"
    unfolding all by (simp_all add: demo_queue_jobs)
  from cursor_continues [OF demo_queue_reachable this] show ?thesis
    unfolding all by (simp add: demo_queue_jobs demo_submission_def demo_job_def parseTS_def sql_limit_def)
qed

end
