(* ===== verification/Scheduler.thy ===== *)
theory Scheduler
  imports Go_Strings Store_Properties
begin

text \<open>
  \<^verbatim>\<open>internal/schedule/schedule.go\<close>, \<^verbatim>\<open>internal/worker/scheduler.go\<close> and
  \<^verbatim>\<open>internal/worker/sweep.go\<close>: cron expressions bound to a time zone, the materialisation of due
  schedules into jobs, and the periodic sweep. The cron library (github.com/robfig/cron) and the
  time zone database are parameters.
\<close>

section \<open>Cron specifications\<close>

record ('l, 'c) cron_lib =
  load_location :: "string \<Rightarrow> 'l option"
  utc :: 'l
  cron_parse :: "string \<Rightarrow> 'c option"
  cron_next :: "'c \<Rightarrow> 'l \<Rightarrow> instant \<Rightarrow> instant"

datatype parse_error = CronRequired | ZoneInExpression | UnknownTimezone string | BadCron string

definition Location :: "('l, 'c) cron_lib \<Rightarrow> string \<Rightarrow> parse_error + 'l" where
  "Location lib name =
     (if name = '''' then Inr (utc lib)
      else case load_location lib name of None \<Rightarrow> Inl (UnknownTimezone name) | Some l \<Rightarrow> Inr l)"

definition Parse :: "('l, 'c) cron_lib \<Rightarrow> string \<Rightarrow> string \<Rightarrow> parse_error + ('c \<times> 'l)" where
  "Parse lib expr0 timezone =
     (let expr = TrimSpace expr0
      in if expr = '''' then Inl CronRequired
         else if HasPrefix expr ''TZ='' \<or> HasPrefix expr ''CRON_TZ='' then Inl ZoneInExpression
         else case Location lib timezone of
           Inl e \<Rightarrow> Inl e
         | Inr loc \<Rightarrow> (case cron_parse lib expr of None \<Rightarrow> Inl (BadCron expr) | Some c \<Rightarrow> Inr (c, loc)))"

definition spec_next :: "('l, 'c) cron_lib \<Rightarrow> 'c \<times> 'l \<Rightarrow> instant \<Rightarrow> instant" where
  "spec_next lib spec t = cron_next lib (fst spec) (snd spec) t"

text \<open>What the library documents of \<^verbatim>\<open>Next\<close>: later than the given time, on a whole second.\<close>

definition cron_contract :: "('l, 'c) cron_lib \<Rightarrow> bool" where
  "cron_contract lib \<longleftrightarrow> (\<forall>c l t. t < cron_next lib c l t \<and> cron_next lib c l t mod second = 0)"

section \<open>Materialising a due schedule\<close>

definition dueBatch :: nat where "dueBatch = 100"

datatype run_outcome =
  CronUnparsable | NoNextRun | NoID | CreateFailed store_error | AdvanceFailed store_error
| Ran bool bool

definition run_job :: "string \<Rightarrow> int \<Rightarrow> schedule \<Rightarrow> instant \<Rightarrow> job" where
  "run_job i maxAttempts sc due =
     \<lparr>j_seq = 0, j_id = i, j_client = s_client sc, j_idem = RunKey (s_id sc) due, j_target = s_target sc,
      j_state = StateReceived, j_attempts = 0, j_max_attempts = maxAttempts, j_next_attempt_at = None,
      j_not_before = None, j_callback_url = '''', j_priority = s_priority sc,
      j_options = (if opt_cache (s_options sc) = '''' then (s_options sc)\<lparr>opt_cache := CacheRefresh\<rparr>
                   else s_options sc),
      j_payload = s_payload sc,
      j_resolved_payload = None, j_target_job_id = '''', j_poll_deadline = None,
      j_target_status = None, j_target_response = None, j_result_path = '''',
      j_result_ct = '''', j_error_code = '''', j_error_message = '''',
      j_created_at = 0, j_updated_at = 0, j_completed_at = None\<rparr>"

definition next_run :: "('l, 'c) cron_lib \<Rightarrow> 'c \<times> 'l \<Rightarrow> instant \<Rightarrow> instant \<Rightarrow> instant" where
  "next_run lib spec now due =
     (let n = spec_next lib spec now in if n \<le> due then spec_next lib spec due else n)"

text \<open>
  \<open>newID\<close> is what the id generator returns, \<open>up\<close> whether the driver carries the two transactions
  through, \<open>env\<close> what other connections commit while the job is created.
\<close>

definition materialize ::
  "('l, 'c) cron_lib \<Rightarrow> (string \<Rightarrow> int) \<Rightarrow> string option \<Rightarrow> bool \<times> bool \<Rightarrow> (nat \<Rightarrow> db \<Rightarrow> db)
   \<Rightarrow> schedule \<Rightarrow> instant \<Rightarrow> db \<Rightarrow> run_outcome \<times> db" where
  "materialize lib maxAttemptsFor newID up env sc now d =
     (case Parse lib (s_cron sc) (s_timezone sc) of
        Inl _ \<Rightarrow> (CronUnparsable, d)
      | Inr spec \<Rightarrow>
         (case s_next_run_at sc of
            None \<Rightarrow> (NoNextRun, d)
          | Some dueS \<Rightarrow>
             (let due = parseTS dueS
              in case newID of
                   None \<Rightarrow> (NoID, d)
                 | Some i \<Rightarrow>
                    (case CreateJob (fst up) env now (run_job i (maxAttemptsFor (s_target sc)) sc due) 0 d of
                       (Inl e, d') \<Rightarrow> (CreateFailed e, d')
                     | (Inr (created, stored), d') \<Rightarrow>
                        (case AdvanceSchedule (snd up) (s_id sc) due (j_id stored)
                                (next_run lib spec now due) now d' of
                           (Inl e, d'') \<Rightarrow> (AdvanceFailed e, d'')
                         | (Inr advanced, d'') \<Rightarrow> (Ran created advanced, d''))))))"

text \<open>\<open>alive k\<close>: the context has not ended before the \<open>k\<close>-th schedule; \<open>ids\<close> the ids generated.\<close>

fun run_all ::
  "('l, 'c) cron_lib \<Rightarrow> (string \<Rightarrow> int) \<Rightarrow> (nat \<Rightarrow> string option) \<Rightarrow> (nat \<Rightarrow> bool) \<Rightarrow> nat
   \<Rightarrow> schedule list \<Rightarrow> instant \<Rightarrow> db \<Rightarrow> db" where
  "run_all lib maxAttemptsFor ids alive k [] now d = d"
| "run_all lib maxAttemptsFor ids alive k (sc # scs) now d =
     (if \<not> alive k then d
      else run_all lib maxAttemptsFor ids alive (Suc k) scs now
             (snd (materialize lib maxAttemptsFor (ids k) (True, True) undisturbed sc now d)))"

definition runDueSchedules ::
  "bool \<Rightarrow> ('l, 'c) cron_lib \<Rightarrow> (string \<Rightarrow> int) \<Rightarrow> (nat \<Rightarrow> string option) \<Rightarrow> (nat \<Rightarrow> bool) \<Rightarrow> instant \<Rightarrow> db \<Rightarrow> db" where
  "runDueSchedules up lib maxAttemptsFor ids alive now d =
     (if \<not> up then d else run_all lib maxAttemptsFor ids alive 0 (DueSchedules d now dueBatch) now d)"

section \<open>The sweep\<close>

definition pruneBatch :: nat where "pruneBatch = 1000"

text \<open>
  Retention, batch by batch until one comes back short: the result files removed and the
  database. \<open>alive k\<close> says whether the context still lives before the \<open>k\<close>-th pass, \<open>scan k\<close> whether
  the driver answers its selection and \<open>del k\<close> which of its deletion chunks it carries through. A
  pass that deletes makes the table smaller, so the loop ends.
\<close>

lemma deleteJobChunk_shrinks:
  assumes "(ids, paths) = TerminalBefore d cutoff limit" and "ids \<noteq> []"
  shows "length (jobs (deleteJobChunk ids d)) < length (jobs d)"
proof -
  obtain i where "i \<in> set ids" using assms(2) by (cases ids) auto
  then obtain j where j: "j \<in> set (jobs d)" "j_id j = i"
    using assms(1) by (auto simp: TerminalBefore_def Let_def dest!: in_set_takeD)
  with \<open>i \<in> set ids\<close> show ?thesis
    by (auto simp: deleteJobChunk_def delete_where_def intro!: length_filter_less [of j])
qed

lemma DeleteJobs_done: "DeleteJobs up ids d = (Inr u, d') \<Longrightarrow> d' = deleteJobChunk ids d"
  using deleteChunks_prefix [of up 0 ids d] by (auto simp: DeleteJobs_def)

function pruneRetention ::
  "(nat \<Rightarrow> bool) \<Rightarrow> (nat \<Rightarrow> bool) \<Rightarrow> (nat \<Rightarrow> nat \<Rightarrow> bool) \<Rightarrow> nat \<Rightarrow> instant \<Rightarrow> string list \<Rightarrow> db
   \<Rightarrow> string list \<times> db" where
  "pruneRetention alive scan del k cutoff files d =
     (if \<not> alive k then (files, d)
      else if \<not> scan k then (files, d)
      else case TerminalBefore d cutoff pruneBatch of
        (ids, paths) \<Rightarrow>
          if ids = [] then (files, d)
          else case DeleteJobs (del k) ids d of
            (Inl e, d') \<Rightarrow> (files @ paths, d')
          | (Inr _, d') \<Rightarrow>
              if length ids < pruneBatch then (files @ paths, d')
              else pruneRetention alive scan del (Suc k) cutoff (files @ paths) d')"
  by pat_completeness auto
termination
proof (relation "measure (\<lambda>(alive, scan, del, k, cutoff, files, d). length (jobs d))", goal_cases)
  case (2 alive scan del k cutoff files d ids paths r d' u)
  then have "d' = deleteJobChunk ids d" using DeleteJobs_done by metis
  with 2 show ?case by (simp add: deleteJobChunk_shrinks [of ids paths])
qed simp

declare pruneRetention.simps [simp del]

text \<open>
  One sweep: purge, rescue, prune. The flags say which transactions the driver carries through;
  the compaction that follows does not change the content of the database.
\<close>

definition sweep ::
  "bool \<Rightarrow> (string \<Rightarrow> bool) \<Rightarrow> (nat \<Rightarrow> bool) \<Rightarrow> (nat \<Rightarrow> bool) \<Rightarrow> (nat \<Rightarrow> nat \<Rightarrow> bool)
   \<Rightarrow> (string \<Rightarrow> duration) \<Rightarrow> duration \<Rightarrow> instant \<Rightarrow> db \<Rightarrow> string list \<times> db" where
  "sweep purge rescue alive scan del jobTimeoutFor retention now d =
     (let d1 = snd (PurgeExpiredSeries purge now d);
          d2 = snd (RescueStuck rescue now (\<lambda>t. now + - 2 * jobTimeoutFor t) d1)
      in pruneRetention alive scan del 0 (now + - retention) [] d2)"

section \<open>One run per due time\<close>

lemma cron_next_later:
  assumes "cron_contract lib"
  shows "ts t < ts (spec_next lib spec t)"
proof -
  have "t < spec_next lib spec t" "spec_next lib spec t mod second = 0"
    using assms by (simp_all add: cron_contract_def spec_next_def)
  then show ?thesis by (rule ts_less_second)
qed

lemma next_run_later:
  assumes "cron_contract lib"
  shows "ts now < ts (next_run lib spec now (parseTS dueS))" and "dueS < ts (next_run lib spec now (parseTS dueS))"
proof -
  let ?n = "spec_next lib spec now" and ?m = "spec_next lib spec (parseTS dueS)"
  have n: "ts now < ts ?n" and m: "dueS < ts ?m"
    using cron_next_later [OF assms, of now] cron_next_later [OF assms, of "parseTS dueS" spec] by simp_all
  show "ts now < ts (next_run lib spec now (parseTS dueS))"
    using n m ts_mono [of ?n "parseTS dueS"] by (auto simp: next_run_def Let_def)
  have "?n mod second = 0" using assms by (simp add: cron_contract_def spec_next_def)
  then have exact: "parseTS (ts ?n) = ?n" by (rule parseTS_ts_second)
  have "\<not> ?n \<le> parseTS dueS \<Longrightarrow> dueS < ts ?n" using exact parseTS_less [of dueS "ts ?n"] by simp
  then show "dueS < ts (next_run lib spec now (parseTS dueS))"
    using m by (auto simp: next_run_def Let_def)
qed

lemma RunKey_nonempty [simp]: "RunKey i t \<noteq> ''''"
  by (simp add: RunKey_def RunKeyPrefix_def)

lemma advance_hit:
  assumes "distinct (map s_id (schedules d))" and "row_by s_id (s_id sc) (schedules d) = Some sc"
    and "s_next_run_at sc = Some dueS"
  shows "\<exists>d'. AdvanceSchedule True (s_id sc) (parseTS dueS) jid nx now d = (Inr True, d')
    \<and> row_by s_id (s_id sc) (schedules d') = Some (set_advanced (parseTS dueS) jid nx now sc)
    \<and> distinct (map s_id (schedules d')) \<and> jobs d' = jobs d \<and> db_ok d' = db_ok d"
proof -
  let ?f = "set_advanced (parseTS dueS) jid nx now"
  let ?p = "\<lambda>s. s_id s = s_id sc \<and> s_next_run_at s = Some dueS"
  let ?d = "d\<lparr>schedules := update_where ?p ?f (schedules d)\<rparr>"
  have key: "s_id (?f s) = s_id s" for s by (simp add: set_advanced_def)
  have "AdvanceSchedule True (s_id sc) (parseTS dueS) jid nx now d = (Inr True, ?d)"
    using assms(3) row_by_SomeD [OF assms(2)] by (auto simp: AdvanceSchedule_def)
  moreover have "row_by s_id (s_id sc) (schedules ?d) = Some (?f sc)"
    using assms(2,3) by (simp add: row_by_update_where key)
  moreover have "distinct (map s_id (schedules ?d))" using assms(1) by (simp add: map_update_where key)
  moreover have "db_ok ?d = db_ok d" by (rule db_ok_cong) simp_all
  ultimately show ?thesis by auto
qed

lemma advance_miss:
  assumes "distinct (map s_id (schedules d))" and "row_by s_id i (schedules d) = Some sc"
    and "s_next_run_at sc \<noteq> Some (ts due)"
  shows "AdvanceSchedule True i due jid nx now d = (Inr False, d)"
proof -
  have "s = sc" if "s \<in> set (schedules d)" "s_id s = i" for s
    using row_by_distinct [OF assms(1) that(1)] that(2) assms(2) by simp
  with assms(3) show ?thesis by (auto simp: AdvanceSchedule_def)
qed

lemma createJobLoop_Suc_Inr:
  "createJobOnce up (env n) now j cap d = (Inr r, d') \<Longrightarrow> createJobLoop (Suc n) up env now j cap d = (Inr r, d')"
  by simp


text \<open>A library that knows one expression, due every full minute.\<close>

definition minutely :: "(unit, unit) cron_lib" where
  "minutely = \<lparr>load_location = (\<lambda>_. None), utc = (),
     cron_parse = (\<lambda>e. if e = ''* * * * *'' then Some () else None),
     cron_next = (\<lambda>_ _ t. (t div minute + 1) * minute)\<rparr>"

lemma minutely_contract: "cron_contract minutely"
proof -
  have "t < (t div minute + 1) * minute" for t :: int
  proof -
    have "t = t div minute * minute + t mod minute" by simp
    moreover have "t mod minute < minute" by simp
    ultimately show ?thesis by (simp add: algebra_simps)
  qed
  moreover have "(q * minute) mod second = 0" for q :: int
    by (metis mod_mult_self2_is_0 mult.assoc mult.left_commute)
  ultimately show ?thesis unfolding cron_contract_def minutely_def by simp
qed


text \<open>A job a client stored under the key of a scheduled run, with another payload, stops the
  schedule: the run is refused as an idempotency conflict and the schedule is not advanced, so it stays
  due with the same due time at every later tick.\<close>

theorem squatted_run_key_blocks_schedule:
  assumes "reachable_db pol d" and "Parse lib (s_cron sc) (s_timezone sc) = Inr spec"
    and "s_next_run_at sc = Some dueS" and "i \<notin> j_id ` set (jobs d)"
    and "j \<in> set (jobs d)" and "has_idem (s_client sc) (RunKey (s_id sc) (parseTS dueS)) j"
    and "j_payload j \<noteq> s_payload sc"
  shows "materialize lib maxAttemptsFor (Some i) up undisturbed sc now d =
    (CreateFailed (if fst up then ErrIdempotencyConflict else ErrDriver), d)"
proof (cases "fst up")
  case True
  let ?run = "run_job i (maxAttemptsFor (s_target sc)) sc (parseTS dueS)"
  have "createJobOnce True (\<lambda>d. d) now ?run 0 d = (Inl ErrIdempotencyConflict, d)"
    using createJobOnce_replay [OF reachable_ok [OF assms(1)] assms(5), of ?run now 0] assms(4,6,7)
    by (simp add: run_job_def)
  then have "CreateJob True undisturbed now ?run 0 d = (Inl ErrIdempotencyConflict, d)"
    by (simp add: CreateJob_def numeral_3_eq_3)
  with True assms(2,3) show ?thesis by (simp add: materialize_def)
next
  case False
  then show ?thesis using assms(2,3)
    by (simp add: materialize_def CreateJob_def numeral_3_eq_3 createJobOnce_def)
qed

definition squatted :: db where
  "squatted = snd (createJobOnce True id 0 (demo_job\<lparr>j_idem := RunKey ''s'' (parseTS 60000), j_payload := ''[]''\<rparr>) 0 demo_scheduled)"

lemma squatted_reachable: "reachable_db demo_policy squatted"
  unfolding squatted_def
  by (rule reachable_db.step [OF demo_scheduled_reachable store_step.create]) (rule prod.collapse [symmetric])

lemma squatted_jobs:
  "jobs squatted = [demo_job\<lparr>j_seq := 1, j_idem := RunKey ''s'' (parseTS 60000), j_payload := ''[]''\<rparr>]"
  by (simp add: squatted_def demo_job_def demo_scheduled_db store_run_defs)

theorem squatted_run_key_blocks_schedule_witness:
  "materialize minutely (\<lambda>_. 3) (Some ''r1'') (True, True) undisturbed demo_schedule (61 * second) squatted =
     (CreateFailed ErrIdempotencyConflict, squatted)"
proof -
  have parse: "Parse minutely (s_cron demo_schedule) (s_timezone demo_schedule) = Inr ((), ())" by code_simp
  let ?j = "hd (jobs squatted)"
  have "?j \<in> set (jobs squatted)" "has_idem (s_client demo_schedule) (RunKey (s_id demo_schedule) (parseTS 60000)) ?j"
      "j_payload ?j \<noteq> s_payload demo_schedule" "''r1'' \<notin> j_id ` set (jobs squatted)"
    by (simp_all add: squatted_jobs demo_job_def has_idem_def demo_schedule_def)
  with squatted_run_key_blocks_schedule [OF squatted_reachable parse, where dueS = 60000 and i = "''r1''"
      and j = ?j and maxAttemptsFor = "\<lambda>_. 3" and up = "(True, True)" and now = "61 * second"]
  show ?thesis by (simp add: demo_schedule_def)
qed

section \<open>Retention\<close>

definition past_retention :: "instant \<Rightarrow> job \<Rightarrow> bool" where
  "past_retention cutoff j \<longleftrightarrow> IsTerminal (j_state j) \<and> (\<exists>c. j_completed_at j = Some c \<and> c < ts cutoff)"

definition accounted :: "instant \<Rightarrow> string list \<Rightarrow> db \<Rightarrow> db \<Rightarrow> bool" where
  "accounted cutoff files d d' \<longleftrightarrow>
     set (jobs d') \<subseteq> set (jobs d)
   \<and> (\<forall>j \<in> set (jobs d). j \<in> set (jobs d') \<or>
        past_retention cutoff j \<and> (j_result_path j = '''' \<or> j_result_path j \<in> set files))"

lemma TerminalBefore_ids:
  assumes "db_ok d" and "TerminalBefore d cutoff n = (ids, paths)" and "j \<in> set (jobs d)" and "j_id j \<in> set ids"
  shows "past_retention cutoff j \<and> (j_result_path j = '''' \<or> j_result_path j \<in> set paths)"
proof -
  define p where "p = (\<lambda>j :: job. IsTerminal (j_state j) \<and> (case j_completed_at j of None \<Rightarrow> False | Some c \<Rightarrow> c < ts cutoff))"
  define rows where "rows = take n (sort_key j_completed_at (filter p (jobs d)))"
  have ids: "ids = map j_id rows" "paths = filter (\<lambda>p. p \<noteq> '''') (map j_result_path rows)"
    using assms(2) by (simp_all add: TerminalBefore_def Let_def rows_def p_def)
  have sub: "set rows \<subseteq> {q \<in> set (jobs d). p q}"
    unfolding rows_def by (auto dest!: in_set_takeD)
  from assms(4) ids obtain q where "q \<in> set rows" "j_id q = j_id j" by auto
  moreover have "q = j" if "q \<in> set (jobs d)" "j_id q = j_id j" for q
    using that assms(1,3) by (metis db_ok_def ids_ok_def find_job_self option.inject)
  ultimately have "j \<in> set rows" using sub by blast
  with sub ids show ?thesis by (auto simp: p_def past_retention_def split: option.splits)
qed

lemma accounted_delete:
  assumes "db_ok d" and "TerminalBefore d cutoff n = (ids, paths)"
  shows "accounted cutoff (files @ paths) d (deleteJobChunk (take m ids) d)"
  unfolding accounted_def
proof (intro conjI ballI)
  fix j assume j: "j \<in> set (jobs d)"
  show "j \<in> set (jobs (deleteJobChunk (take m ids) d)) \<or>
      past_retention cutoff j \<and> (j_result_path j = '''' \<or> j_result_path j \<in> set (files @ paths))"
    using TerminalBefore_ids [OF assms j] j by (auto simp: deleteJobChunk_def dest: in_set_takeD)
qed (auto simp: deleteJobChunk_def)

lemma accounted_trans:
  "accounted cutoff files d d1 \<Longrightarrow> accounted cutoff files' d1 d' \<Longrightarrow> set files \<subseteq> set files' \<Longrightarrow>
   accounted cutoff files' d d'"
  unfolding accounted_def by blast

lemma pruneRetention_accounted:
  "db_ok d \<Longrightarrow> pruneRetention alive scan del k cutoff files d = (files', d') \<Longrightarrow>
   accounted cutoff files' d d' \<and> db_ok d' \<and> set files \<subseteq> set files'"
proof (induction alive scan del k cutoff files d rule: pruneRetention.induct)
  case (1 alive scan del k cutoff files d)
  obtain ids paths where tb: "TerminalBefore d cutoff pruneBatch = (ids, paths)" by fastforce
  obtain r d1 where del: "DeleteJobs (del k) ids d = (r, d1)" by fastforce
  obtain m where d1: "d1 = deleteJobChunk (take m ids) d"
    using deleteChunks_prefix [of "del k" 0 ids d] del by (auto simp: DeleteJobs_def)
  have acc: "accounted cutoff (files @ paths) d d1" unfolding d1 by (rule accounted_delete [OF "1.prems"(1) tb])
  have ok1: "db_ok d1" unfolding d1 by (rule job_delete_ok [OF "1.prems"(1)])
  consider (stop) "files' = files" "d' = d" | (last) "files' = files @ paths" "d' = d1"
    | (more) u where "alive k" "scan k" "ids \<noteq> []" "r = Inr u" "\<not> length ids < pruneBatch"
        "pruneRetention alive scan del (Suc k) cutoff (files @ paths) d1 = (files', d')"
    using "1.prems"(2) tb del
    by (subst (asm) pruneRetention.simps) (auto split: if_splits sum.splits)
  then show ?case
  proof cases
    case stop
    then show ?thesis using "1.prems"(1) by (simp add: accounted_def)
  next
    case last
    then show ?thesis using acc ok1 by simp
  next
    case more
    from "1.IH" [OF _ _ tb [symmetric] _ del [symmetric] more(4) more(5) ok1 more(6)] more
    have "accounted cutoff files' d1 d' \<and> db_ok d' \<and> set (files @ paths) \<subseteq> set files'"
      by auto
    moreover from this have "accounted cutoff files' d d'" by (blast intro: accounted_trans [OF acc])
    ultimately show ?thesis by simp
  qed
qed

text \<open>C25: Whatever fails or is interrupted, the retention pass removes only jobs past their retention and
  never leaves a result file without its row: a deleted row's file was removed before.\<close>

theorem retention_leaves_no_orphans:
  assumes "reachable_db pol d" and "pruneRetention alive scan del k cutoff [] d = (files, d')"
    and "j \<in> set (jobs d)" and "j \<notin> set (jobs d')"
  shows "IsTerminal (j_state j) \<and> (\<exists>c. j_completed_at j = Some c \<and> c < ts cutoff)
    \<and> (j_result_path j = '''' \<or> j_result_path j \<in> set files)"
  using pruneRetention_accounted [OF reachable_ok [OF assms(1)] assms(2)] assms(3,4)
  by (auto simp: accounted_def past_retention_def)

theorem retention_leaves_no_orphans_witness:
  "IsTerminal (j_state (hd (jobs demo_done)))
   \<and> hd (jobs demo_done) \<notin> set (jobs (snd (pruneRetention (\<lambda>_. True) (\<lambda>_. True) (\<lambda>_ _. True) 0 (3 * second) [] demo_done)))"
proof -
  let ?run = "pruneRetention (\<lambda>_. True) (\<lambda>_. True) (\<lambda>_ _. True) 0 (3 * second) [] demo_done"
  let ?j = "hd (jobs demo_done)"
  have "TerminalBefore demo_done (3 * second) pruneBatch = ([''a''], [])"
    by (simp add: TerminalBefore_def demo_done_jobs demo_job_def ts_def pruneBatch_def)
  then have run: "?run = ([], deleteJobChunk [''a''] demo_done)"
    by (subst pruneRetention.simps) (simp add: DeleteJobs_def deleteChunks_all pruneBatch_def)
  then have gone: "?j \<notin> set (jobs (snd ?run))"
    by (simp add: deleteJobChunk_def demo_done_jobs demo_job_def)
  moreover have "?j \<in> set (jobs demo_done)" by (simp add: demo_done_jobs)
  ultimately show ?thesis
    using retention_leaves_no_orphans [OF demo_reachable(5), of _ _ _ _ "3 * second" _ "snd ?run" ?j] run by simp
qed

end
