(* ===== verification/Json.thy ===== *)
theory Json
  imports Prelude
begin

text \<open>
  JSON documents as \<^verbatim>\<open>encoding/json\<close> decodes them into \<^verbatim>\<open>any\<close> with \<^verbatim>\<open>UseNumber\<close>: numbers keep
  their text. A Go map has no order; the source only ever iterates maps in sorted key order, so an
  object is the list of its fields in strictly increasing (bytewise) key order. Paths address
  slots inside a document; reading and overwriting a slot stand for the references the source
  holds into the decoded maps and slices.
\<close>

datatype json = JNull | JBool bool | JNum string | JStr string | JArr "json list" | JObj "(string \<times> json) list"

type_synonym fields = "(string \<times> json) list"

definition obj_get :: "fields \<Rightarrow> string \<Rightarrow> json option" where
  "obj_get fs k = map_of fs k"

text \<open>\<^verbatim>\<open>m[k] = v\<close>, keeping the fields in key order.\<close>

fun obj_put :: "string \<Rightarrow> json \<Rightarrow> fields \<Rightarrow> fields" where
  "obj_put k v [] = [(k, v)]"
| "obj_put k v ((l, w) # fs) =
     (if k = l then (k, v) # fs else if k < l then (k, v) # (l, w) # fs else (l, w) # obj_put k v fs)"

definition obj_del :: "string \<Rightarrow> fields \<Rightarrow> fields" where
  "obj_del k fs = filter (\<lambda>f. fst f \<noteq> k) fs"

definition keys_sorted :: "fields \<Rightarrow> bool" where
  "keys_sorted fs \<longleftrightarrow> sorted_wrt (<) (map fst fs)"

primrec json_ok :: "json \<Rightarrow> bool" where
  "json_ok JNull \<longleftrightarrow> True"
| "json_ok (JBool b) \<longleftrightarrow> True"
| "json_ok (JNum n) \<longleftrightarrow> True"
| "json_ok (JStr s) \<longleftrightarrow> True"
| "json_ok (JArr xs) \<longleftrightarrow> list_all (\<lambda>b. b) (map json_ok xs)"
| "json_ok (JObj fs) \<longleftrightarrow> keys_sorted fs \<and> list_all (\<lambda>f. snd f) (map (map_prod id json_ok) fs)"

section \<open>Slots\<close>

datatype step = Key string | Idx nat

type_synonym slot = "step list"

fun child_at :: "json \<Rightarrow> step \<Rightarrow> json option" where
  "child_at (JObj fs) (Key k) = obj_get fs k"
| "child_at (JArr xs) (Idx i) = (if i < length xs then Some (xs ! i) else None)"
| "child_at _ _ = None"

fun get_at :: "json \<Rightarrow> slot \<Rightarrow> json option" where
  "get_at v [] = Some v"
| "get_at v (s # p) = (case child_at v s of None \<Rightarrow> None | Some w \<Rightarrow> get_at w p)"

fun put_child :: "step \<Rightarrow> json \<Rightarrow> json \<Rightarrow> json" where
  "put_child (Key k) w (JObj fs) = JObj (obj_put k w fs)"
| "put_child (Idx i) w (JArr xs) = JArr (xs[i := w])"
| "put_child s w v = v"

text \<open>Overwriting a slot that does not exist changes nothing.\<close>

fun put_at :: "slot \<Rightarrow> json \<Rightarrow> json \<Rightarrow> json" where
  "put_at [] w v = w"
| "put_at (s # p) w v = (case child_at v s of None \<Rightarrow> v | Some u \<Rightarrow> put_child s (put_at p w u) v)"

section \<open>Fields\<close>

lemma obj_get_put [simp]: "obj_get (obj_put k v fs) l = (if l = k then Some v else obj_get fs l)"
  by (induction k v fs rule: obj_put.induct) (auto simp: obj_get_def)

lemma obj_put_keys: "set (map fst (obj_put k v fs)) = insert k (set (map fst fs))"
  by (induction k v fs rule: obj_put.induct) auto

lemma keys_sorted_put: "keys_sorted fs \<Longrightarrow> keys_sorted (obj_put k v fs)"
proof (induction k v fs rule: obj_put.induct)
  case (2 k v l w fs)
  have "\<forall>x \<in> set (map fst (obj_put k v fs)). l < x" if "l < k" "\<forall>x \<in> set (map fst fs). l < x"
    using that unfolding obj_put_keys by auto
  with 2 show ?case
    by (auto simp: keys_sorted_def not_less_iff_gr_or_eq intro: less_trans)
qed (simp add: keys_sorted_def)

lemma keys_sorted_distinct: "keys_sorted fs \<Longrightarrow> distinct (map fst fs)"
  by (simp add: keys_sorted_def strict_sorted_iff)

lemma obj_put_same_keys:
  "keys_sorted fs \<Longrightarrow> k \<in> fst ` set fs \<Longrightarrow> map fst (obj_put k v fs) = map fst fs"
  by (induction k v fs rule: obj_put.induct) (auto simp: keys_sorted_def)

lemma obj_put_id: "keys_sorted fs \<Longrightarrow> obj_get fs k = Some v \<Longrightarrow> obj_put k v fs = fs"
  by (induction k v fs rule: obj_put.induct)
    (auto simp: keys_sorted_def obj_get_def dest!: map_of_SomeD split: if_splits)

lemma json_ok_JArr [simp]: "json_ok (JArr xs) \<longleftrightarrow> (\<forall>x \<in> set xs. json_ok x)"
  by (simp add: list_all_iff)

lemma json_ok_JObj [simp]: "json_ok (JObj fs) \<longleftrightarrow> keys_sorted fs \<and> (\<forall>f \<in> set fs. json_ok (snd f))"
  by (simp add: list_all_iff)

declare json_ok.simps(5,6) [simp del]

lemma json_ok_child: "json_ok v \<Longrightarrow> child_at v s = Some w \<Longrightarrow> json_ok w"
  by (cases "(v, s)" rule: child_at.cases) (fastforce simp: obj_get_def split: if_splits dest: map_of_SomeD)+

lemma json_ok_get: "json_ok v \<Longrightarrow> get_at v p = Some w \<Longrightarrow> json_ok w"
  by (induction p arbitrary: v) (auto split: option.splits intro: json_ok_child)

lemma set_obj_put: "f \<in> set (obj_put k v fs) \<Longrightarrow> f = (k, v) \<or> f \<in> set fs"
  by (induction k v fs rule: obj_put.induct) (auto split: if_splits)

lemma json_ok_put_child: "json_ok v \<Longrightarrow> json_ok w \<Longrightarrow> json_ok (put_child s w v)"
  by (cases "(s, w, v)" rule: put_child.cases)
    (auto simp: keys_sorted_put dest!: set_obj_put dest: set_update_subset_insert [THEN subsetD])

lemma json_ok_put: "json_ok v \<Longrightarrow> json_ok w \<Longrightarrow> json_ok (put_at p w v)"
  by (induction p arbitrary: v) (auto split: option.splits intro: json_ok_put_child json_ok_child)

section \<open>Reading after writing\<close>

lemma child_put_child:
  "child_at v s = Some u \<Longrightarrow> child_at (put_child s w v) t = (if t = s then Some w else child_at v t)"
  by (cases "(v, s)" rule: child_at.cases; cases t) (auto split: if_splits)

text \<open>Two slots are apart when neither contains the other.\<close>

definition apart :: "slot \<Rightarrow> slot \<Rightarrow> bool" where
  "apart p q \<longleftrightarrow> \<not> prefix p q \<and> \<not> prefix q p"

lemma get_put_same: "get_at v p = Some u \<Longrightarrow> get_at (put_at p w v) p = Some w"
  by (induction p arbitrary: v) (auto simp: child_put_child split: option.splits)

lemma get_put_apart: "apart p q \<Longrightarrow> get_at (put_at p w v) q = get_at v q"
proof (induction p arbitrary: v q)
  case (Cons s p)
  then obtain t q' where q: "q = t # q'" by (cases q) (auto simp: apart_def)
  show ?case
  proof (cases "child_at v s")
    case (Some u)
    then show ?thesis using Cons q
      by (cases "t = s") (auto simp: apart_def child_put_child split: option.splits)
  qed simp
qed (simp add: apart_def)

end
