(* ===== verification/Json_Text.thy ===== *)
theory Json_Text
  imports Json
begin

text \<open>
  The text of JSON documents: what \<^verbatim>\<open>json.Decoder\<close> with \<^verbatim>\<open>UseNumber\<close>, \<^verbatim>\<open>json.Unmarshal\<close>,
  \<^verbatim>\<open>json.Valid\<close> and \<^verbatim>\<open>json.Marshal\<close> do on byte strings, including UTF-8 validation, escapes,
  surrogate pairs, duplicate keys (the last one wins), the nesting limit of the decoder and the HTML
  escaping of the encoder. The parser's fuel is the length of its input; every call consumes a byte.
\<close>

abbreviation byte :: "char \<Rightarrow> nat" where
  "byte c \<equiv> of_char c"

section \<open>UTF-8\<close>

definition cont_byte :: "char \<Rightarrow> bool" where
  "cont_byte c \<longleftrightarrow> 0x80 \<le> byte c \<and> byte c \<le> 0xBF"

text \<open>Width of the rune a string starts with; \<open>None\<close> when the encoding is invalid.\<close>

definition rune_width :: "string \<Rightarrow> nat option" where
  "rune_width s = (case s of
     [] \<Rightarrow> None
   | c # r \<Rightarrow>
      (let b = byte c
       in if b < 0x80 then Some 1
          else if 0xC2 \<le> b \<and> b \<le> 0xDF then
            (case r of c1 # _ \<Rightarrow> if cont_byte c1 then Some 2 else None | _ \<Rightarrow> None)
          else if 0xE0 \<le> b \<and> b \<le> 0xEF then
            (case r of c1 # c2 # _ \<Rightarrow>
               if cont_byte c1 \<and> cont_byte c2 \<and> (b = 0xE0 \<longrightarrow> 0xA0 \<le> byte c1) \<and> (b = 0xED \<longrightarrow> byte c1 \<le> 0x9F)
               then Some 3 else None
             | _ \<Rightarrow> None)
          else if 0xF0 \<le> b \<and> b \<le> 0xF4 then
            (case r of c1 # c2 # c3 # _ \<Rightarrow>
               if cont_byte c1 \<and> cont_byte c2 \<and> cont_byte c3 \<and> (b = 0xF0 \<longrightarrow> 0x90 \<le> byte c1) \<and> (b = 0xF4 \<longrightarrow> byte c1 \<le> 0x8F)
               then Some 4 else None
             | _ \<Rightarrow> None)
          else None))"

definition utf8 :: "nat \<Rightarrow> string" where
  "utf8 n = map char_of
     (if n < 0x80 then [n]
      else if n < 0x800 then [0xC0 + n div 64, 0x80 + n mod 64]
      else if n < 0x10000 then [0xE0 + n div 4096, 0x80 + n div 64 mod 64, 0x80 + n mod 64]
      else [0xF0 + n div 262144, 0x80 + n div 4096 mod 64, 0x80 + n div 64 mod 64, 0x80 + n mod 64])"

definition replacement :: string where
  "replacement = utf8 0xFFFD"

fun utf8_valid_fuel :: "nat \<Rightarrow> string \<Rightarrow> bool" where
  "utf8_valid_fuel n [] = True"
| "utf8_valid_fuel 0 s = False"
| "utf8_valid_fuel (Suc n) s = (case rune_width s of None \<Rightarrow> False | Some w \<Rightarrow> utf8_valid_fuel n (drop w s))"

definition utf8_valid :: "string \<Rightarrow> bool" where
  "utf8_valid s = utf8_valid_fuel (length s) s"

section \<open>Encoding\<close>

definition hex_digit :: "nat \<Rightarrow> char" where
  "hex_digit n = (if n < 10 then char_of (48 + n) else char_of (87 + n))"

definition escape_ascii :: "char \<Rightarrow> string" where
  "escape_ascii c =
     (if c = CHR 0x22 \<or> c = CHR 0x5C then [CHR 0x5C, c]
      else if c = CHR 0x08 then [CHR 0x5C, CHR ''b'']
      else if c = CHR 0x0C then [CHR 0x5C, CHR ''f'']
      else if c = CHR 0x0A then [CHR 0x5C, CHR ''n'']
      else if c = CHR 0x0D then [CHR 0x5C, CHR ''r'']
      else if c = CHR 0x09 then [CHR 0x5C, CHR ''t'']
      else if byte c < 0x20 \<or> c = CHR ''<'' \<or> c = CHR ''>'' \<or> c = CHR ''&''
      then [CHR 0x5C, CHR ''u'', CHR ''0'', CHR ''0'', hex_digit (byte c div 16), hex_digit (byte c mod 16)]
      else [c])"

fun quote_body :: "nat \<Rightarrow> string \<Rightarrow> string" where
  "quote_body n [] = []"
| "quote_body 0 s = []"
| "quote_body (Suc n) (c # r) =
     (if byte c < 0x80 then escape_ascii c @ quote_body n r
      else case rune_width (c # r) of
        None \<Rightarrow> CHR 0x5C # ''ufffd'' @ quote_body n r
      | Some w \<Rightarrow>
          (if take w (c # r) = utf8 0x2028 then CHR 0x5C # ''u2028''
           else if take w (c # r) = utf8 0x2029 then CHR 0x5C # ''u2029''
           else take w (c # r)) @ quote_body n (drop w (c # r)))"

definition quote :: "string \<Rightarrow> string" where
  "quote s = [CHR 0x22] @ quote_body (length s) s @ [CHR 0x22]"

fun join_comma :: "string list \<Rightarrow> string" where
  "join_comma [] = []"
| "join_comma [x] = x"
| "join_comma (x # y # xs) = x @ '','' @ join_comma (y # xs)"

section \<open>Numbers\<close>

definition is_digit :: "char \<Rightarrow> bool" where
  "is_digit c \<longleftrightarrow> 48 \<le> byte c \<and> byte c \<le> 57"

definition digits :: "string \<Rightarrow> string \<times> string" where
  "digits s = (takeWhile is_digit s, dropWhile is_digit s)"

definition int_part :: "string \<Rightarrow> (string \<times> string) option" where
  "int_part s = (case s of
     [] \<Rightarrow> None
   | c # r \<Rightarrow> if c = CHR ''0'' then Some (''0'', r)
             else if is_digit c then Some (takeWhile is_digit s, dropWhile is_digit s) else None)"

definition frac_part :: "string \<Rightarrow> (string \<times> string) option" where
  "frac_part s = (case s of
     c # r \<Rightarrow> if c = CHR ''.'' then
         (if takeWhile is_digit r = [] then None else Some (c # takeWhile is_digit r, dropWhile is_digit r))
       else Some ([], s)
   | [] \<Rightarrow> Some ([], s))"

definition sign_part :: "string \<Rightarrow> string \<times> string" where
  "sign_part s = (case s of c # r \<Rightarrow> if c = CHR ''+'' \<or> c = CHR ''-'' then ([c], r) else ([], s) | [] \<Rightarrow> ([], s))"

definition exp_part :: "string \<Rightarrow> (string \<times> string) option" where
  "exp_part s = (case s of
     c # r \<Rightarrow> if c = CHR ''e'' \<or> c = CHR ''E'' then
         (let (sg, r') = sign_part r
          in if takeWhile is_digit r' = [] then None
             else Some (c # sg @ takeWhile is_digit r', dropWhile is_digit r'))
       else Some ([], s)
   | [] \<Rightarrow> Some ([], s))"

definition parse_number :: "string \<Rightarrow> (string \<times> string) option" where
  "parse_number s =
     (let (neg, s0) = (case s of c # r \<Rightarrow> if c = CHR ''-'' then ([c], r) else ([], s) | [] \<Rightarrow> ([], s))
      in case int_part s0 of
           None \<Rightarrow> None
         | Some (i, s1) \<Rightarrow>
            (case frac_part s1 of
               None \<Rightarrow> None
             | Some (f, s2) \<Rightarrow>
                (case exp_part s2 of None \<Rightarrow> None | Some (e, s3) \<Rightarrow> Some (neg @ i @ f @ e, s3))))"

definition number_text :: "string \<Rightarrow> bool" where
  "number_text s \<longleftrightarrow> parse_number s = Some (s, [])"

text \<open>\<^verbatim>\<open>json.Marshal\<close>; it fails only on a number whose text is not one.\<close>

primrec encode :: "json \<Rightarrow> string" where
  "encode JNull = ''null''"
| "encode (JBool b) = (if b then ''true'' else ''false'')"
| "encode (JNum n) = n"
| "encode (JStr s) = quote s"
| "encode (JArr xs) = ''['' @ join_comma (map encode xs) @ '']''"
| "encode (JObj fs) = ''{'' @ join_comma (map (\<lambda>f. quote (fst f) @ '':'' @ snd f) (map (map_prod id encode) fs)) @ ''}''"

section \<open>Decoding\<close>

definition is_space :: "char \<Rightarrow> bool" where
  "is_space c \<longleftrightarrow> c = CHR '' '' \<or> c = CHR 0x09 \<or> c = CHR 0x0A \<or> c = CHR 0x0D"

abbreviation skip_space :: "string \<Rightarrow> string" where
  "skip_space \<equiv> dropWhile is_space"

definition hex_value :: "char \<Rightarrow> nat option" where
  "hex_value c =
     (if is_digit c then Some (byte c - 48)
      else if 97 \<le> byte c \<and> byte c \<le> 102 then Some (byte c - 87)
      else if 65 \<le> byte c \<and> byte c \<le> 70 then Some (byte c - 55) else None)"

fun hex4 :: "string \<Rightarrow> (nat \<times> string) option" where
  "hex4 (a # b # c # d # r) =
     (case (hex_value a, hex_value b, hex_value c, hex_value d) of
        (Some x, Some y, Some z, Some w) \<Rightarrow> Some (((x * 16 + y) * 16 + z) * 16 + w, r)
      | _ \<Rightarrow> None)"
| "hex4 _ = None"

text \<open>The text of an \<open>\u\<close> escape and what follows it: a surrogate pair is one rune, a lone surrogate U+FFFD.\<close>

definition unescape_u :: "string \<Rightarrow> (string \<times> string) option" where
  "unescape_u s = (case hex4 s of
     None \<Rightarrow> None
   | Some (n, r) \<Rightarrow>
       if n < 0xD800 \<or> 0xDFFF < n then Some (utf8 n, r)
       else if n < 0xDC00 then
         (case r of
            c # d # r' \<Rightarrow>
              if c = CHR 0x5C \<and> d = CHR ''u'' then
                (case hex4 r' of
                   None \<Rightarrow> Some (replacement, r)
                 | Some (m, r'') \<Rightarrow>
                     if 0xDC00 \<le> m \<and> m \<le> 0xDFFF
                     then Some (utf8 (0x10000 + (n - 0xD800) * 0x400 + (m - 0xDC00)), r'')
                     else Some (replacement, r))
              else Some (replacement, r)
          | _ \<Rightarrow> Some (replacement, r))
       else Some (replacement, r))"

definition unescape :: "string \<Rightarrow> (string \<times> string) option" where
  "unescape s = (case s of
     [] \<Rightarrow> None
   | c # r \<Rightarrow>
       if c = CHR 0x22 \<or> c = CHR 0x5C \<or> c = CHR ''/'' then Some ([c], r)
       else if c = CHR ''b'' then Some ([CHR 0x08], r)
       else if c = CHR ''f'' then Some ([CHR 0x0C], r)
       else if c = CHR ''n'' then Some ([CHR 0x0A], r)
       else if c = CHR ''r'' then Some ([CHR 0x0D], r)
       else if c = CHR ''t'' then Some ([CHR 0x09], r)
       else if c = CHR ''u'' then unescape_u r
       else None)"

text \<open>The rest of a string literal after its opening quote.\<close>

fun parse_string :: "nat \<Rightarrow> string \<Rightarrow> (string \<times> string) option" where
  "parse_string n [] = None"
| "parse_string 0 s = None"
| "parse_string (Suc n) (c # r) =
     (if c = CHR 0x22 then Some ([], r)
      else if c = CHR 0x5C then
        (case unescape r of None \<Rightarrow> None | Some (u, r') \<Rightarrow> map_option (apfst ((@) u)) (parse_string n r'))
      else if byte c < 0x20 then None
      else case rune_width (c # r) of
        None \<Rightarrow> map_option (apfst ((@) replacement)) (parse_string n r)
      | Some w \<Rightarrow> map_option (apfst ((@) (take w (c # r)))) (parse_string n (drop w (c # r))))"

definition maxNestingDepth :: nat where "maxNestingDepth = 10000"

text \<open>\<open>depth\<close> is the number of enclosing containers; entering one beyond the limit is an error.\<close>

fun parse_value :: "nat \<Rightarrow> nat \<Rightarrow> string \<Rightarrow> (json \<times> string) option"
  and parse_elems :: "nat \<Rightarrow> nat \<Rightarrow> string \<Rightarrow> (json list \<times> string) option"
  and parse_fields :: "nat \<Rightarrow> nat \<Rightarrow> string \<Rightarrow> (fields \<times> string) option" where
  "parse_value 0 depth s = None"
| "parse_value (Suc n) depth s =
     (case skip_space s of
        [] \<Rightarrow> None
      | c # r \<Rightarrow>
          if c = CHR ''{'' then
            (if maxNestingDepth \<le> depth then None
             else case skip_space r of
               [] \<Rightarrow> None
             | d # r' \<Rightarrow> if d = CHR ''}'' then Some (JObj [], r')
                        else map_option (apfst (\<lambda>fs. JObj (foldl (\<lambda>o' f. obj_put (fst f) (snd f) o') [] fs)))
                               (parse_fields n (Suc depth) (d # r')))
          else if c = CHR ''['' then
            (if maxNestingDepth \<le> depth then None
             else case skip_space r of
               [] \<Rightarrow> None
             | d # r' \<Rightarrow> if d = CHR '']'' then Some (JArr [], r')
                        else map_option (apfst JArr) (parse_elems n (Suc depth) (d # r')))
          else if c = CHR 0x22 then map_option (apfst JStr) (parse_string (length r) r)
          else if c = CHR ''t'' then (if prefix ''rue'' r then Some (JBool True, drop 3 r) else None)
          else if c = CHR ''f'' then (if prefix ''alse'' r then Some (JBool False, drop 4 r) else None)
          else if c = CHR ''n'' then (if prefix ''ull'' r then Some (JNull, drop 3 r) else None)
          else map_option (apfst JNum) (parse_number (c # r)))"
| "parse_elems 0 depth s = None"
| "parse_elems (Suc n) depth s =
     (case parse_value n depth s of
        None \<Rightarrow> None
      | Some (v, s1) \<Rightarrow>
          (case skip_space s1 of
             [] \<Rightarrow> None
           | c # r \<Rightarrow> if c = CHR '']'' then Some ([v], r)
                     else if c = CHR '','' then map_option (apfst ((#) v)) (parse_elems n depth r)
                     else None))"
| "parse_fields 0 depth s = None"
| "parse_fields (Suc n) depth s =
     (case skip_space s of
        [] \<Rightarrow> None
      | q # r0 \<Rightarrow>
          if q \<noteq> CHR 0x22 then None
          else case parse_string (length r0) r0 of
            None \<Rightarrow> None
          | Some (k, s1) \<Rightarrow>
              (case skip_space s1 of
                 [] \<Rightarrow> None
               | c # r1 \<Rightarrow>
                   if c \<noteq> CHR '':'' then None
                   else case parse_value n depth r1 of
                     None \<Rightarrow> None
                   | Some (v, s2) \<Rightarrow>
                       (case skip_space s2 of
                          [] \<Rightarrow> None
                        | e # r2 \<Rightarrow> if e = CHR ''}'' then Some ([(k, v)], r2)
                                   else if e = CHR '','' then map_option (apfst ((#) (k, v))) (parse_fields n depth r2)
                                   else None)))"

text \<open>
  \<^verbatim>\<open>Decoder.Decode\<close> reads the first value of its input and ignores what follows it;
  \<^verbatim>\<open>json.Unmarshal\<close> and \<^verbatim>\<open>json.Valid\<close> accept nothing but white space after the value.
\<close>

definition Decode :: "string \<Rightarrow> json option" where
  "Decode s = map_option fst (parse_value (Suc (length s)) 0 s)"

definition Unmarshal :: "string \<Rightarrow> json option" where
  "Unmarshal s = (case parse_value (Suc (length s)) 0 s of
     None \<Rightarrow> None | Some (v, r) \<Rightarrow> if skip_space r = [] then Some v else None)"

definition Valid :: "string \<Rightarrow> bool" where
  "Valid s \<longleftrightarrow> Unmarshal s \<noteq> None"

end
