(* ===== verification/Json_Roundtrip.thy ===== *)
theory Json_Roundtrip
  imports Json_Text
begin

text \<open>
  Decoding inverts encoding: a document whose numbers are JSON numbers and whose strings are valid
  UTF-8 comes back from its text unchanged, number texts verbatim.
\<close>

section \<open>String literals\<close>

lemma hex_value_digit: "n < 16 \<Longrightarrow> hex_value (hex_digit n) = Some n"
  by (auto simp: hex_value_def hex_digit_def is_digit_def)

lemma utf8_ascii: "byte c < 0x80 \<Longrightarrow> utf8 (byte c) = [c]"
  by (simp add: utf8_def)

lemma hex_value_zero: "hex_value CHR ''0'' = Some 0"
  by (simp add: hex_value_def is_digit_def)

lemma escape_ascii_cases:
  assumes "byte c < 0x80"
  obtains (plain) "escape_ascii c = [c]" "c \<noteq> CHR 0x22" "c \<noteq> CHR 0x5C" "\<not> byte c < 0x20"
  | (escaped) d e where "escape_ascii c = CHR 0x5C # d" "\<And>r. unescape (d @ r) = Some ([c], r)" "d = e # tl d"
proof -
  let ?u = "[CHR ''u'', CHR ''0'', CHR ''0'', hex_digit (byte c div 16), hex_digit (byte c mod 16)]"
  have "byte c div 16 < 16" "byte c mod 16 < 16" using assms by auto
  then have "hex4 (tl ?u @ r) = Some (byte c, r)" for r
    by (simp add: hex_value_zero hex_value_digit)
  then have u: "unescape (?u @ r) = Some ([c], r)" for r
    using assms by (simp add: unescape_def unescape_u_def utf8_ascii)
  show thesis
  proof (cases "escape_ascii c = [c]")
    case True
    then have "c \<noteq> CHR 0x22" "c \<noteq> CHR 0x5C" "\<not> byte c < 0x20"
      by (auto simp: escape_ascii_def split: if_splits)
    with True plain show thesis by blast
  next
    case False
    consider "escape_ascii c = CHR 0x5C # ?u"
      | d where "escape_ascii c = [CHR 0x5C, d]" "\<And>r. unescape (d # r) = Some ([c], r)"
      using False by (auto simp: escape_ascii_def unescape_def split: if_splits)
    then show thesis
    proof cases
      case 1
      then show thesis using escaped [of ?u "CHR ''u''"] u by simp
    next
      case (2 d)
      then show thesis using escaped [of "[d]" d] by simp
    qed
  qed
qed

lemma rune_width_bounds: "rune_width s = Some w \<Longrightarrow> 1 \<le> w \<and> w \<le> length s"
  by (auto simp: rune_width_def Let_def split: list.splits if_splits)

lemma rune_width_take: "rune_width s = Some w \<Longrightarrow> rune_width (take w s @ t) = Some w"
  by (cases s; cases "tl s"; cases "tl (tl s)"; cases "tl (tl (tl s))")
    (auto simp: rune_width_def Let_def split: if_splits)

lemma unescape_sep:
  "unescape (''u2028'' @ r) = Some (utf8 0x2028, r)" "unescape (''u2029'' @ r) = Some (utf8 0x2029, r)"
proof -
  have "hex_value CHR ''2'' = Some 2" "hex_value CHR ''0'' = Some 0" "hex_value CHR ''8'' = Some 8"
    "hex_value CHR ''9'' = Some 9" by (simp_all add: hex_value_def is_digit_def)
  then show "unescape (''u2028'' @ r) = Some (utf8 0x2028, r)" "unescape (''u2029'' @ r) = Some (utf8 0x2029, r)"
    by (simp_all add: unescape_def unescape_u_def)
qed

lemma parse_string_escape:
  assumes "unescape (d @ r) = Some (u, r)" and "parse_string n r = Some (s, t)"
  shows "parse_string (Suc n) (CHR 0x5C # d @ r) = Some (u @ s, t)"
  using assms by simp

lemma parse_string_quote_body:
  assumes "utf8_valid_fuel v s" and "length s \<le> m" and "length (quote_body m s) < n"
  shows "parse_string n (quote_body m s @ CHR 0x22 # rest) = Some (s, rest)"
  using assms
proof (induction v s arbitrary: m n rule: utf8_valid_fuel.induct)
  case (1 v)
  then show ?case by (cases n) auto
next
  case (3 v c r)
  obtain w where w: "rune_width (c # r) = Some w" "utf8_valid_fuel v (drop w (c # r))"
    using "3.prems"(1) by (auto split: option.splits)
  note wb = rune_width_bounds [OF w(1)]
  obtain m' n' where mn: "m = Suc m'" "n = Suc n'" using "3.prems"(2,3) by (cases m; cases n) auto
  show ?case
  proof (cases "byte c < 0x80")
    case True
    then have w1: "w = 1" using w(1) by (simp add: rune_width_def)
    let ?b = "quote_body m' r"
    have IH: "length ?b < k \<Longrightarrow> parse_string k (?b @ CHR 0x22 # rest) = Some (r, rest)" for k
      using "3.IH" [OF w(1), of m' k] w(2) w1 "3.prems"(2) mn by simp
    show ?thesis using True
    proof (cases rule: escape_ascii_cases)
      case plain
      then have "length ?b < n'" using "3.prems"(3) mn True by simp
      with IH [of n'] plain mn True show ?thesis by (simp add: rune_width_def)
    next
      case (escaped d e)
      then have "length ?b < n'" using "3.prems"(3) mn True by simp
      from parse_string_escape [OF escaped(2) IH [OF this]] escaped(1) mn True show ?thesis by simp
    qed
  next
    case False
    let ?b = "quote_body m' (drop w (c # r))" and ?h = "take w (c # r)"
    have IH: "length ?b < k \<Longrightarrow> parse_string k (?b @ CHR 0x22 # rest) = Some (drop w (c # r), rest)" for k
    proof -
      have "length (drop w (c # r)) \<le> m'" using wb "3.prems"(2) mn by (simp, arith)
      then show "length ?b < k \<Longrightarrow> ?thesis" using "3.IH" [OF w(1), of m' k] w(2) by simp
    qed
    have body: "quote_body m (c # r) = (if ?h = utf8 0x2028 then CHR 0x5C # ''u2028''
        else if ?h = utf8 0x2029 then CHR 0x5C # ''u2029'' else ?h) @ ?b"
      using False w(1) mn by simp
    have "length ?b < n'" using "3.prems"(3) body mn wb by (auto split: if_splits)
    note IH' = IH [OF this]
    consider "?h = utf8 0x2028" | "?h = utf8 0x2029" "?h \<noteq> utf8 0x2028" | "?h \<noteq> utf8 0x2028" "?h \<noteq> utf8 0x2029" by blast
    then show ?thesis
    proof cases
      case 1
      have "parse_string n (quote_body m (c # r) @ CHR 0x22 # rest) = Some (?h @ drop w (c # r), rest)"
        using parse_string_escape [OF unescape_sep(1) IH'] 1 body mn by simp
      then show ?thesis by simp
    next
      case 2
      have "parse_string n (quote_body m (c # r) @ CHR 0x22 # rest) = Some (?h @ drop w (c # r), rest)"
        using parse_string_escape [OF unescape_sep(2) IH'] 2 body mn by simp
      then show ?thesis by simp
    next
      case 3
      have hd: "?h = c # take (w - 1) r" using wb by (cases w) auto
      have "rune_width (?h @ ?b @ CHR 0x22 # rest) = Some w" by (rule rune_width_take [OF w(1)])
      moreover have "length ?h = w" using wb by simp
      then have "take w (?h @ ?b @ CHR 0x22 # rest) = ?h" "drop w (?h @ ?b @ CHR 0x22 # rest) = ?b @ CHR 0x22 # rest"
        by simp_all
      moreover have "c \<noteq> CHR 0x22" "c \<noteq> CHR 0x5C" "\<not> byte c < 0x20" using False by auto
      ultimately have "parse_string n (?h @ ?b @ CHR 0x22 # rest) = Some (?h @ drop w (c # r), rest)"
        unfolding hd using IH' mn by simp
      then show ?thesis using 3 body by simp
    qed
  qed
qed simp

lemma parse_string_quote:
  assumes "utf8_valid s"
  shows "\<exists>q. quote s = CHR 0x22 # q \<and> parse_string (length (q @ rest)) (q @ rest) = Some (s, rest)"
proof -
  let ?b = "quote_body (length s) s"
  have "parse_string (length (?b @ CHR 0x22 # rest)) (?b @ CHR 0x22 # rest) = Some (s, rest)"
    using assms by (intro parse_string_quote_body [of "length s"]) (simp_all add: utf8_valid_def)
  then show ?thesis by (intro exI [of _ "?b @ [CHR 0x22]"]) (simp add: quote_def)
qed

section \<open>Numbers\<close>

definition number_char :: "char \<Rightarrow> bool" where
  "number_char c \<longleftrightarrow> is_digit c \<or> c \<in> set ''.eE+-''"

text \<open>What may follow a number without becoming part of it.\<close>

definition delimited :: "string \<Rightarrow> bool" where
  "delimited r \<longleftrightarrow> (case r of [] \<Rightarrow> True | c # _ \<Rightarrow> \<not> number_char c)"

lemma take_digits_delimited:
  assumes "delimited r"
  shows "takeWhile is_digit (s @ r) = takeWhile is_digit s" and "dropWhile is_digit (s @ r) = dropWhile is_digit s @ r"
proof -
  have "takeWhile is_digit r = []" "dropWhile is_digit r = r"
    using assms by (cases r; simp add: delimited_def number_char_def)+
  then show "takeWhile is_digit (s @ r) = takeWhile is_digit s" "dropWhile is_digit (s @ r) = dropWhile is_digit s @ r"
    by (induction s) auto
qed

lemma int_part_delimited:
  "delimited r \<Longrightarrow> int_part s = Some (i, t) \<Longrightarrow> int_part (s @ r) = Some (i, t @ r)"
  using take_digits_delimited [of r s]
  by (auto simp: int_part_def split: list.splits if_splits)

lemma frac_part_delimited:
  assumes "delimited r" and "frac_part s = Some (f, t)"
  shows "frac_part (s @ r) = Some (f, t @ r)"
proof (cases s)
  case Nil
  then show ?thesis using assms by (cases r) (auto simp: frac_part_def delimited_def number_char_def)
next
  case (Cons c s')
  then show ?thesis using assms take_digits_delimited [OF assms(1), of s']
    by (auto simp: frac_part_def split: if_splits)
qed

lemma sign_part_delimited: "delimited r \<Longrightarrow> sign_part (s @ r) = apsnd (\<lambda>t. t @ r) (sign_part s)"
  by (cases s; cases r) (auto simp: sign_part_def delimited_def number_char_def)

lemma exp_part_delimited:
  assumes "delimited r" and "exp_part s = Some (e, t)"
  shows "exp_part (s @ r) = Some (e, t @ r)"
proof (cases s)
  case Nil
  then show ?thesis using assms by (cases r) (auto simp: exp_part_def delimited_def number_char_def)
next
  case (Cons c s')
  obtain sg u where sg: "sign_part s' = (sg, u)" by fastforce
  then have "sign_part (s' @ r) = (sg, u @ r)" using sign_part_delimited [OF assms(1), of s'] by simp
  then show ?thesis using assms Cons sg take_digits_delimited [OF assms(1), of u]
    by (auto simp: exp_part_def split: if_splits)
qed

lemma parse_number_delimited:
  assumes "delimited r" and "parse_number s = Some (n, t)"
  shows "parse_number (s @ r) = Some (n, t @ r)"
proof -
  define neg s0 where "neg = (case s of c # _ \<Rightarrow> if c = CHR ''-'' then [c] else [] | [] \<Rightarrow> [])"
    and "s0 = (case s of c # q \<Rightarrow> if c = CHR ''-'' then q else s | [] \<Rightarrow> s)"
  have split0: "(case s of c # r \<Rightarrow> if c = CHR ''-'' then ([c], r) else ([], s) | [] \<Rightarrow> ([], s)) = (neg, s0)"
    by (simp add: neg_def s0_def split: list.splits)
  obtain i s1 f s2 e where p: "int_part s0 = Some (i, s1)" "frac_part s1 = Some (f, s2)" "exp_part s2 = Some (e, t)"
      "n = neg @ i @ f @ e"
    using assms(2) unfolding parse_number_def split0 by (auto split: option.splits)
  have "s \<noteq> []" using p(1) by (auto simp: s0_def int_part_def)
  then have "(case s @ r of c # q \<Rightarrow> if c = CHR ''-'' then ([c], q) else ([], s @ r) | [] \<Rightarrow> ([], s @ r)) = (neg, s0 @ r)"
    by (cases s) (auto simp: neg_def s0_def)
  then show ?thesis
    using int_part_delimited [OF assms(1) p(1)] frac_part_delimited [OF assms(1) p(2)]
      exp_part_delimited [OF assms(1) p(3)] p(4)
    by (simp add: parse_number_def)
qed

lemma number_text_head:
  assumes "number_text n"
  obtains c r where "n = c # r" and "c = CHR ''-'' \<or> is_digit c"
proof (cases n)
  case Nil
  then show thesis using assms by (simp add: number_text_def parse_number_def int_part_def)
next
  case (Cons c r)
  then show thesis using assms that
    by (auto simp: number_text_def parse_number_def int_part_def is_digit_def split: if_splits option.splits)
qed

section \<open>Documents\<close>

primrec height :: "json \<Rightarrow> nat" where
  "height JNull = 0"
| "height (JBool b) = 0"
| "height (JNum n) = 0"
| "height (JStr s) = 0"
| "height (JArr xs) = Suc (fold max (map height xs) 0)"
| "height (JObj fs) = Suc (fold max (map snd (map (map_prod id height) fs)) 0)"

text \<open>A document the encoder writes without loss.\<close>

primrec clean :: "json \<Rightarrow> bool" where
  "clean JNull \<longleftrightarrow> True"
| "clean (JBool b) \<longleftrightarrow> True"
| "clean (JNum n) \<longleftrightarrow> number_text n"
| "clean (JStr s) \<longleftrightarrow> utf8_valid s"
| "clean (JArr xs) \<longleftrightarrow> list_all (\<lambda>b. b) (map clean xs)"
| "clean (JObj fs) \<longleftrightarrow> keys_sorted fs \<and> list_all (\<lambda>f. utf8_valid (fst f) \<and> snd f) (map (map_prod id clean) fs)"

lemma fold_max_le: "fold max ns m \<le> (k::nat) \<longleftrightarrow> m \<le> k \<and> (\<forall>n \<in> set ns. n \<le> k)"
  by (induction ns arbitrary: m) auto

lemma clean_JArr [simp]: "clean (JArr xs) \<longleftrightarrow> (\<forall>x \<in> set xs. clean x)"
  by (simp add: list_all_iff)

lemma clean_JObj [simp]:
  "clean (JObj fs) \<longleftrightarrow> keys_sorted fs \<and> (\<forall>f \<in> set fs. utf8_valid (fst f) \<and> clean (snd f))"
  by (simp add: list_all_iff)

declare clean.simps(5,6) [simp del]

lemma foldl_put_append:
  "keys_sorted (fs @ [(k, v)]) \<Longrightarrow> obj_put k v fs = fs @ [(k, v)]"
  by (induction fs) (auto simp: keys_sorted_def)

lemma foldl_put_sorted: "keys_sorted fs \<Longrightarrow> foldl (\<lambda>o' f. obj_put (fst f) (snd f) o') [] fs = fs"
proof (induction fs rule: rev_induct)
  case (snoc f fs)
  have "keys_sorted fs" using snoc.prems by (simp add: keys_sorted_def sorted_wrt_append)
  with snoc foldl_put_append [of fs "fst f" "snd f"] show ?case by simp
qed simp

lemma encode_head:
  assumes "clean v"
  obtains c r where "encode v = c # r" and "\<not> is_space c" and "c \<noteq> CHR '']''" and "c \<noteq> CHR ''}''"
proof (cases v)
  case (JNum n)
  then obtain c r where n: "n = c # r" "c = CHR ''-'' \<or> is_digit c"
    using assms number_text_head by auto
  then have "\<not> is_space c" "c \<noteq> CHR '']''" "c \<noteq> CHR ''}''" by (auto simp: is_space_def is_digit_def)
  then show thesis using that JNum n by simp
next
  case (JBool b)
  then show thesis using that by (cases b) (auto simp: is_space_def)
qed (use that in \<open>auto simp: is_space_def quote_def\<close>)

lemma skip_encode: "clean v \<Longrightarrow> skip_space (encode v @ r) = encode v @ r"
  by (metis append_Cons dropWhile.simps(2) encode_head)

lemma delimited_follow [simp]: "delimited (CHR '','' # r)" "delimited (CHR '']'' # r)" "delimited (CHR ''}'' # r)"
  by (simp_all add: delimited_def number_char_def is_digit_def)

lemma not_space_follow [simp]:
  "\<not> is_space CHR '',''" "\<not> is_space CHR '']''" "\<not> is_space CHR ''}''" "\<not> is_space CHR '':''" "\<not> is_space CHR 0x22"
  "\<not> is_space CHR ''{''" "\<not> is_space CHR ''[''"
  by (simp_all add: is_space_def)

definition parses :: "json \<Rightarrow> bool" where
  "parses v \<longleftrightarrow> (\<forall>n depth r. length (encode v) \<le> n \<longrightarrow> depth + height v \<le> maxNestingDepth \<longrightarrow> delimited r \<longrightarrow>
     parse_value n depth (encode v @ r) = Some (v, r))"

lemma parsesD:
  "parses v \<Longrightarrow> length (encode v) \<le> n \<Longrightarrow> depth + height v \<le> maxNestingDepth \<Longrightarrow> delimited r \<Longrightarrow>
   parse_value n depth (encode v @ r) = Some (v, r)"
  by (simp add: parses_def)

lemma parse_elems_encode:
  assumes "xs \<noteq> []" and "\<forall>x \<in> set xs. parses x \<and> clean x \<and> depth + height x \<le> maxNestingDepth"
    and "length (join_comma (map encode xs)) < n"
  shows "parse_elems n depth (join_comma (map encode xs) @ CHR '']'' # r) = Some (xs, r)"
  using assms
proof (induction xs arbitrary: n)
  case (Cons x xs)
  then obtain n' where n: "n = Suc n'" by (cases n) auto
  show ?case
  proof (cases xs)
    case Nil
    with Cons.prems n have "parse_value n' depth (encode x @ CHR '']'' # r) = Some (x, CHR '']'' # r)"
      by (intro parsesD) auto
    with Nil n show ?thesis by simp
  next
    case (Cons y ys)
    let ?t = "join_comma (map encode xs)"
    have len: "length (encode x) + Suc (length ?t) < Suc n'"
      using Cons.prems(3) n local.Cons by simp
    have "parse_value n' depth (encode x @ CHR '','' # ?t @ CHR '']'' # r) = Some (x, CHR '','' # ?t @ CHR '']'' # r)"
      using Cons.prems(2) len by (intro parsesD) auto
    moreover have "parse_elems n' depth (?t @ CHR '']'' # r) = Some (xs, r)"
      using Cons.IH [of n'] Cons.prems(2) len local.Cons by simp
    ultimately show ?thesis using n local.Cons by simp
  qed
qed simp

abbreviation field_text :: "string \<times> json \<Rightarrow> string" where
  "field_text f \<equiv> quote (fst f) @ '':'' @ encode (snd f)"

lemma parse_fields_one:
  assumes "utf8_valid k" and "parse_value n depth (encode v @ t) = Some (v, t)"
  shows "parse_fields (Suc n) depth (quote k @ '':'' @ encode v @ t) =
    (case skip_space t of
       [] \<Rightarrow> None
     | e # r \<Rightarrow> if e = CHR ''}'' then Some ([(k, v)], r)
               else if e = CHR '','' then map_option (apfst ((#) (k, v))) (parse_fields n depth r) else None)"
proof -
  obtain q where q: "quote k = CHR 0x22 # q"
      "parse_string (length (q @ '':'' @ encode v @ t)) (q @ '':'' @ encode v @ t) = Some (k, '':'' @ encode v @ t)"
    using parse_string_quote [OF assms(1)] by blast
  then show ?thesis using assms(2) by simp
qed

lemma parse_fields_encode:
  assumes "fs \<noteq> []"
    and "\<forall>f \<in> set fs. utf8_valid (fst f) \<and> parses (snd f) \<and> depth + height (snd f) \<le> maxNestingDepth"
    and "length (join_comma (map field_text fs)) < n"
  shows "parse_fields n depth (join_comma (map field_text fs) @ CHR ''}'' # r) = Some (fs, r)"
  using assms
proof (induction fs arbitrary: n)
  case (Cons f fs)
  then obtain n' where n: "n = Suc n'" by (cases n) auto
  have u: "utf8_valid (fst f)" using Cons.prems(2) by simp
  show ?case
  proof (cases fs)
    case Nil
    with Cons.prems n have "parse_value n' depth (encode (snd f) @ CHR ''}'' # r) = Some (snd f, CHR ''}'' # r)"
      by (intro parsesD) auto
    from parse_fields_one [OF u this] Nil n show ?thesis by simp
  next
    case (Cons g gs)
    let ?t = "join_comma (map field_text fs)"
    have len: "length (field_text f) + Suc (length ?t) < Suc n'"
      using Cons.prems(3) n local.Cons by simp
    have "parse_value n' depth (encode (snd f) @ CHR '','' # ?t @ CHR ''}'' # r) = Some (snd f, CHR '','' # ?t @ CHR ''}'' # r)"
      using Cons.prems(2) len by (intro parsesD) auto
    moreover have "parse_fields n' depth (?t @ CHR ''}'' # r) = Some (fs, r)"
      using Cons.IH [of n'] Cons.prems(2) len local.Cons by simp
    ultimately show ?thesis
      using parse_fields_one [OF u, of n' depth "snd f" "CHR '','' # ?t @ CHR ''}'' # r"] n local.Cons by simp
  qed
qed simp

lemma encode_JObj: "encode (JObj fs) = ''{'' @ join_comma (map field_text fs) @ ''}''"
  by (simp add: comp_def)

lemma fold_max_depth:
  "depth + Suc (fold max ns 0) \<le> k \<longleftrightarrow> depth < k \<and> (\<forall>n \<in> set ns. Suc depth + n \<le> (k::nat))"
proof (cases "depth < k")
  case True
  then have "depth + Suc (fold max ns 0) \<le> k \<longleftrightarrow> fold max ns 0 \<le> k - Suc depth" by auto
  also have "\<dots> \<longleftrightarrow> (\<forall>n \<in> set ns. n \<le> k - Suc depth)" by (simp add: fold_max_le)
  also have "\<dots> \<longleftrightarrow> (\<forall>n \<in> set ns. Suc depth + n \<le> k)" using True by (intro ball_cong) auto
  finally show ?thesis using True by simp
qed simp

lemma height_JArr: "depth + height (JArr xs) \<le> k \<longleftrightarrow> depth < k \<and> (\<forall>x \<in> set xs. Suc depth + height x \<le> k)"
  unfolding height.simps fold_max_depth by simp

lemma height_JObj:
  "depth + height (JObj fs) \<le> k \<longleftrightarrow> depth < k \<and> (\<forall>f \<in> set fs. Suc depth + height (snd f) \<le> k)"
  unfolding height.simps fold_max_depth by simp

lemma parses_clean: "clean v \<Longrightarrow> parses v"
proof (induction v)
  case JNull
  show ?case unfolding parses_def
  proof (intro allI impI)
    fix n depth and r :: string
    assume "length (encode JNull) \<le> n"
    then show "parse_value n depth (encode JNull @ r) = Some (JNull, r)" by (cases n) (auto simp: is_space_def)
  qed
next
  case (JBool b)
  show ?case unfolding parses_def
  proof (intro allI impI)
    fix n depth and r :: string
    assume "length (encode (JBool b)) \<le> n"
    then show "parse_value n depth (encode (JBool b) @ r) = Some (JBool b, r)"
      by (cases n; cases b) (auto simp: is_space_def)
  qed
next
  case (JNum x)
  then have x: "number_text x" by simp
  obtain c q where c: "x = c # q" "c = CHR ''-'' \<or> is_digit c" using number_text_head [OF x] .
  then have plain: "\<not> is_space c" "c \<noteq> CHR ''{''" "c \<noteq> CHR ''[''" "c \<noteq> CHR 0x22" "c \<noteq> CHR ''t''" "c \<noteq> CHR ''f''" "c \<noteq> CHR ''n''"
    by (auto simp: is_space_def is_digit_def)
  show ?case unfolding parses_def
  proof (intro allI impI)
    fix n depth and r :: string
    assume n: "length (encode (JNum x)) \<le> n" and r: "delimited r"
    have "parse_number (x @ r) = Some (x, r)"
      using parse_number_delimited [OF r] x by (simp add: number_text_def)
    then show "parse_value n depth (encode (JNum x) @ r) = Some (JNum x, r)"
      using n c plain by (cases n) simp_all
  qed
next
  case (JStr s)
  show ?case unfolding parses_def
  proof (intro allI impI)
    fix n depth and r :: string
    assume n: "length (encode (JStr s)) \<le> n"
    obtain q where q: "quote s = CHR 0x22 # q" "parse_string (length (q @ r)) (q @ r) = Some (s, r)"
      using parse_string_quote JStr by fastforce
    then show "parse_value n depth (encode (JStr s) @ r) = Some (JStr s, r)" using n by (cases n) simp_all
  qed
next
  case (JArr xs)
  show ?case unfolding parses_def
  proof (intro allI impI)
    fix n depth and r :: string
    assume n: "length (encode (JArr xs)) \<le> n" and h: "depth + height (JArr xs) \<le> maxNestingDepth"
    obtain n' where n': "n = Suc n'" using n by (cases n) auto
    note h' = h [unfolded height_JArr]
    show "parse_value n depth (encode (JArr xs) @ r) = Some (JArr xs, r)"
    proof (cases xs)
      case Nil
      then show ?thesis using h' n' by simp
    next
      case (Cons x ys)
      let ?t = "join_comma (map encode xs)"
      have "parse_elems n' (Suc depth) (?t @ CHR '']'' # r) = Some (xs, r)"
        using JArr h' n n' Cons by (intro parse_elems_encode) auto
      moreover have "clean x" using JArr.prems Cons by simp
      then obtain c q where "encode x = c # q" "\<not> is_space c" "c \<noteq> CHR '']''"
        by (rule encode_head)
      then have "\<exists>q'. ?t = c # q'" "\<not> is_space c" "c \<noteq> CHR '']''" using Cons by (cases ys; simp)+
      ultimately show ?thesis using h' n' by auto
    qed
  qed
next
  case (JObj fs)
  show ?case unfolding parses_def
  proof (intro allI impI)
    fix n depth and r :: string
    assume n: "length (encode (JObj fs)) \<le> n" and h: "depth + height (JObj fs) \<le> maxNestingDepth"
    obtain n' where n': "n = Suc n'" using n by (cases n) auto
    note h' = h [unfolded height_JObj]
    have sub: "parses (snd f)" if "f \<in> set fs" for f
      using JObj.IH [of f "snd f"] JObj.prems that by (cases f) (auto simp: snds.simps)
    show "parse_value n depth (encode (JObj fs) @ r) = Some (JObj fs, r)"
    proof (cases fs)
      case Nil
      then show ?thesis using h' n' by (simp add: keys_sorted_def)
    next
      case (Cons f gs)
      let ?t = "join_comma (map field_text fs)"
      have "parse_fields n' (Suc depth) (?t @ CHR ''}'' # r) = Some (fs, r)"
        using JObj.prems sub h' n n' Cons unfolding encode_JObj by (intro parse_fields_encode) auto
      moreover have "\<exists>q'. ?t = CHR 0x22 # q'" using Cons by (cases gs) (simp_all add: quote_def)
      moreover have "foldl (\<lambda>o' f. obj_put (fst f) (snd f) o') [] fs = fs"
        using JObj.prems by (intro foldl_put_sorted) simp
      ultimately show ?thesis using h' n' unfolding encode_JObj by auto
    qed
  qed
qed

lemma decode_encode:
  assumes "clean v" and "height v \<le> maxNestingDepth"
  shows "Decode (encode v) = Some v \<and> Unmarshal (encode v) = Some v"
proof -
  have "parse_value (Suc (length (encode v))) 0 (encode v @ []) = Some (v, [])"
    using parses_clean [OF assms(1)] assms(2) by (intro parsesD) (simp_all add: delimited_def)
  then show ?thesis by (simp add: Decode_def Unmarshal_def)
qed

end
