(* ===== verification/Resolver.thy ===== *)
theory Resolver
  imports Json_Roundtrip Go_Strings
begin

text \<open>
  \<^verbatim>\<open>internal/resolver/resolver.go\<close> and \<^verbatim>\<open>hash.go\<close>: locating resolvent objects in a payload,
  replacing them by time series, and the cache key. SHA-256 (with its hexadecimal rendering) is a
  parameter. The closure that overwrites a found object's slot is the slot itself.
\<close>

section \<open>Documents\<close>

datatype decode_error = SyntaxError | NotAnObject | GotNull

definition decodeObject :: "string \<Rightarrow> decode_error + fields" where
  "decodeObject b = (case Decode b of
     None \<Rightarrow> Inl SyntaxError
   | Some JNull \<Rightarrow> Inl GotNull
   | Some (JObj fs) \<Rightarrow> Inr fs
   | Some _ \<Rightarrow> Inl NotAnObject)"

definition ParsePayload :: "string \<Rightarrow> decode_error + fields" where
  "ParsePayload payload = decodeObject payload"

definition Marshal :: "fields \<Rightarrow> string" where
  "Marshal root = encode (JObj root)"

definition typeKey :: string where "typeKey = ''type''"
definition TimeSeriesType :: string where "TimeSeriesType = ''time-series''"
definition TypePrefix :: string where "TypePrefix = ''resolvent-''"
definition ResolventKey :: string where "ResolventKey = ''resolvent''"

text \<open>\<^verbatim>\<open>s, _ := obj[k].(string)\<close>: the empty string when the field is missing or not a string.\<close>

definition str_field :: "fields \<Rightarrow> string \<Rightarrow> string" where
  "str_field fs k = (case obj_get fs k of Some (JStr s) \<Rightarrow> s | _ \<Rightarrow> '''')"

definition resolventType :: "fields \<Rightarrow> string option" where
  "resolventType fs = (case obj_get fs typeKey of
     Some (JStr t) \<Rightarrow> if HasPrefix t TypePrefix then Some t else None | _ \<Rightarrow> None)"

section \<open>Cache keys\<close>

definition paramHash :: "(string \<Rightarrow> string) \<Rightarrow> string \<Rightarrow> fields \<Rightarrow> string" where
  "paramHash sha typ obj = sha (typ @ [CHR 0x00] @ encode (JObj obj))"

record found =
  fd_type :: string
  fd_hash :: string
  fd_object :: fields
  fd_input :: fields
  fd_path :: string
  fd_name :: string
  fd_slot :: slot

definition Rehash :: "(string \<Rightarrow> string) \<Rightarrow> string list \<Rightarrow> found \<Rightarrow> found" where
  "Rehash sha ignore f =
     f\<lparr>fd_hash := paramHash sha (fd_type f) (filter (\<lambda>e. fst e \<notin> set ignore) (fd_input f))\<rparr>"

section \<open>Walking the payload\<close>

definition escapePointer :: "string \<Rightarrow> string" where
  "escapePointer token =
     concat (map (\<lambda>c. if c = CHR ''~'' then ''~0'' else if c = CHR ''/'' then ''~1'' else [c]) token)"

definition pointerOf :: "string \<Rightarrow> string" where
  "pointerOf path = (if path = '''' then '''' else concat (map (\<lambda>seg. ''/'' @ escapePointer seg) (split_on CHR ''.'' path)))"

definition nameOf :: "fields \<Rightarrow> string \<Rightarrow> string" where
  "nameOf obj key = (let n = str_field obj ''name'' in if n \<noteq> '''' then n else key)"

record report =
  r_type :: string
  r_obj :: fields
  r_ptr :: string
  r_key :: string
  r_slot :: slot

text \<open>The report for a child that is a resolvent object, if it is one.\<close>

definition report_child :: "json \<Rightarrow> string \<Rightarrow> string \<Rightarrow> slot \<Rightarrow> report option" where
  "report_child elem ptr key at = (case elem of
     JObj obj \<Rightarrow> map_option (\<lambda>typ. \<lparr>r_type = typ, r_obj = obj, r_ptr = ptr, r_key = key, r_slot = at\<rparr>) (resolventType obj)
   | _ \<Rightarrow> None)"

function walk :: "json \<Rightarrow> string \<Rightarrow> slot \<Rightarrow> report list"
  and walk_elems :: "nat \<Rightarrow> json list \<Rightarrow> string \<Rightarrow> slot \<Rightarrow> report list"
  and walk_fields :: "fields \<Rightarrow> string \<Rightarrow> slot \<Rightarrow> report list" where
  "walk node pfx at = (case node of
     JArr xs \<Rightarrow> walk_elems 0 xs pfx at
   | JObj fs \<Rightarrow> if str_field fs typeKey = TimeSeriesType then [] else walk_fields fs pfx at
   | _ \<Rightarrow> [])"
| "walk_elems i [] pfx at = []"
| "walk_elems i (x # xs) pfx at =
     (let ptr = pfx @ ''/'' @ show_nat i
      in case report_child x ptr '''' (at @ [Idx i]) of
           Some r \<Rightarrow> r # walk_elems (Suc i) xs pfx at
         | None \<Rightarrow> walk x ptr (at @ [Idx i]) @ walk_elems (Suc i) xs pfx at)"
| "walk_fields [] pfx at = []"
| "walk_fields ((k, x) # fs) pfx at =
     (let ptr = pfx @ ''/'' @ escapePointer k
      in case report_child x ptr k (at @ [Key k]) of
           Some r \<Rightarrow> r # walk_fields fs pfx at
         | None \<Rightarrow> walk x ptr (at @ [Key k]) @ walk_fields fs pfx at)"
  by pat_completeness auto
termination
  by (relation "measure (\<lambda>a. case a of Inl (v, _) \<Rightarrow> 2 * size v
       | Inr (Inl (_, xs, _)) \<Rightarrow> 2 * size_list size xs + 1
       | Inr (Inr (fs, _)) \<Rightarrow> 2 * size_list (size_prod (\<lambda>_. 0) size) fs + 1)") auto

declare walk.simps [simp del]

fun locateContainer :: "json \<Rightarrow> string list \<Rightarrow> json option" where
  "locateContainer node [] = Some node"
| "locateContainer (JObj fs) (seg # segs) =
     (case obj_get fs seg of None \<Rightarrow> None | Some v \<Rightarrow> locateContainer v segs)"
| "locateContainer _ (seg # segs) = None"

definition path_segs :: "string \<Rightarrow> string list" where
  "path_segs path = (if path = '''' then [] else split_on CHR ''.'' path)"

definition find_reports :: "fields \<Rightarrow> string \<Rightarrow> report list" where
  "find_reports root path =
     (let segs = path_segs path; at = map Key segs
      in case locateContainer (JObj root) segs of
           None \<Rightarrow> []
         | Some container \<Rightarrow>
             (case (if segs = [] then None else report_child container (pointerOf path) (last segs) at) of
                Some r \<Rightarrow> [r]
              | None \<Rightarrow> walk container (pointerOf path) at))"

definition to_found :: "(string \<Rightarrow> string) \<Rightarrow> report \<Rightarrow> found" where
  "to_found sha r = \<lparr>fd_type = r_type r, fd_hash = paramHash sha (r_type r) (r_obj r), fd_object = r_obj r,
     fd_input = r_obj r, fd_path = r_ptr r, fd_name = nameOf (r_obj r) (r_key r), fd_slot = r_slot r\<rparr>"

definition Find :: "(string \<Rightarrow> string) \<Rightarrow> fields \<Rightarrow> string \<Rightarrow> found list" where
  "Find sha root path = map (to_found sha) (find_reports root path)"

section \<open>Substitution\<close>

datatype warning = UnexpectedType string | MarkerOverwritten

definition Substitute :: "found \<Rightarrow> string \<Rightarrow> bool \<Rightarrow> json \<Rightarrow> decode_error + (warning list \<times> json)" where
  "Substitute f seriesBody attachResolvent root =
     (case decodeObject seriesBody of
        Inl e \<Rightarrow> Inl e
      | Inr series \<Rightarrow>
          (let typ = str_field series typeKey;
               w1 = (if typ \<noteq> TimeSeriesType then [UnexpectedType typ] else []);
               w2 = (if attachResolvent \<and> obj_get series ResolventKey \<noteq> None then [MarkerOverwritten] else []);
               series' = (if attachResolvent then obj_put ResolventKey (JObj (fd_object f)) series else series)
           in Inr (w1 @ w2, put_at (fd_slot f) (JObj series') root)))"

definition DistinctTypes :: "found list \<Rightarrow> string list" where
  "DistinctTypes fs = map fd_type (first_by fd_type [] fs)"

end
