(* ===== verification/Resolver_Properties.thy ===== *)
theory Resolver_Properties
  imports Resolver
begin

text \<open>
  What the scan finds and what substitution does: the reports are exactly the resolvent objects
  that are reachable without passing through a resolvent or a time series, their slots never
  overlap, and overwriting them leaves the rest of the document alone.
\<close>

section \<open>The objects a scan may see\<close>

definition is_resolvent :: "json \<Rightarrow> bool" where
  "is_resolvent v \<longleftrightarrow> (\<exists>fs. v = JObj fs \<and> resolventType fs \<noteq> None)"

definition scanned :: "json \<Rightarrow> bool" where
  "scanned v \<longleftrightarrow> (case v of JArr xs \<Rightarrow> True | JObj fs \<Rightarrow> str_field fs typeKey \<noteq> TimeSeriesType | _ \<Rightarrow> False)"

text \<open>The slots below a node that the scan may look into.\<close>

inductive visible :: "json \<Rightarrow> slot \<Rightarrow> json \<Rightarrow> bool" where
  child: "scanned v \<Longrightarrow> child_at v s = Some x \<Longrightarrow> visible v [s] x"
| below: "scanned v \<Longrightarrow> child_at v s = Some x \<Longrightarrow> \<not> is_resolvent x \<Longrightarrow> visible x p y \<Longrightarrow> visible v (s # p) y"

inductive_cases visible_ConsE: "visible v (s # p) y"
inductive_cases visible_NilE: "visible v [] y"

definition hits :: "json \<Rightarrow> slot \<Rightarrow> fields \<Rightarrow> bool" where
  "hits x p fs \<longleftrightarrow> (if is_resolvent x then p = [] \<and> x = JObj fs
     else visible x p (JObj fs) \<and> resolventType fs \<noteq> None)"

lemma visible_hits:
  "visible v p (JObj fs) \<and> resolventType fs \<noteq> None \<longleftrightarrow>
   scanned v \<and> (\<exists>s q x. p = s # q \<and> child_at v s = Some x \<and> hits x q fs)"
proof
  assume L: "visible v p (JObj fs) \<and> resolventType fs \<noteq> None"
  then obtain s q where p: "p = s # q" by (cases p) (auto elim: visible_NilE)
  show "scanned v \<and> (\<exists>s q x. p = s # q \<and> child_at v s = Some x \<and> hits x q fs)"
    using L unfolding p by (auto elim!: visible_ConsE simp: hits_def is_resolvent_def)
next
  assume "scanned v \<and> (\<exists>s q x. p = s # q \<and> child_at v s = Some x \<and> hits x q fs)"
  then obtain s q x where *: "scanned v" "p = s # q" "child_at v s = Some x" "hits x q fs" by blast
  show "visible v p (JObj fs) \<and> resolventType fs \<noteq> None"
  proof (cases "is_resolvent x")
    case True
    with * show ?thesis by (auto simp: hits_def is_resolvent_def intro: visible.child)
  next
    case False
    with * show ?thesis by (auto simp: hits_def intro: visible.below)
  qed
qed

lemma visible_through_resolvent:
  assumes "visible v p x" and "is_resolvent x"
  shows "\<not> visible v (p @ s # q) y"
  using assms
proof (induction rule: visible.induct)
  case (child v t x)
  then show ?case by (auto elim!: visible_ConsE simp: visible_NilE)
next
  case (below v t x p y)
  then show ?case by (auto elim!: visible_ConsE elim: visible_NilE)
qed

lemma visible_get: "visible v p x \<Longrightarrow> get_at v p = Some x"
  by (induction rule: visible.induct) auto

section \<open>What the scan reports\<close>

definition hit_pairs :: "report list \<Rightarrow> (slot \<times> fields) set" where
  "hit_pairs rs = (\<lambda>r. (r_slot r, r_obj r)) ` set rs"

lemma hit_pairs_simps [simp]:
  "hit_pairs [] = {}" "hit_pairs (r # rs) = insert (r_slot r, r_obj r) (hit_pairs rs)"
  "hit_pairs (rs @ rs') = hit_pairs rs \<union> hit_pairs rs'"
  by (auto simp: hit_pairs_def)

lemma report_child_None: "report_child x ptr key at = None \<longleftrightarrow> \<not> is_resolvent x"
  by (auto simp: report_child_def is_resolvent_def split: json.splits)

lemma report_child_Some:
  "report_child x ptr key at = Some r \<Longrightarrow> is_resolvent x \<and> x = JObj (r_obj r) \<and> r_slot r = at
     \<and> resolventType (r_obj r) = Some (r_type r)"
  by (auto simp: report_child_def is_resolvent_def split: json.splits)

lemma child_at_field:
  "keys_sorted fs \<Longrightarrow> child_at (JObj fs) s = Some x \<longleftrightarrow> (\<exists>k. s = Key k \<and> (k, x) \<in> set fs)"
  by (cases s) (auto simp: obj_get_def dest: keys_sorted_distinct map_of_SomeD intro: map_of_is_SomeI)

lemma walk_hits:
  "json_ok node \<Longrightarrow> (sl, g) \<in> hit_pairs (walk node pfx at) \<longleftrightarrow>
     (\<exists>p. sl = at @ p \<and> visible node p (JObj g) \<and> resolventType g \<noteq> None)"
  "\<forall>x \<in> set xs. json_ok x \<Longrightarrow> (sl, g) \<in> hit_pairs (walk_elems i xs pfx at) \<longleftrightarrow>
     (\<exists>k p. k < length xs \<and> sl = at @ Idx (i + k) # p \<and> hits (xs ! k) p g)"
  "\<forall>f \<in> set fs. json_ok (snd f) \<Longrightarrow> (sl, g) \<in> hit_pairs (walk_fields fs pfx at) \<longleftrightarrow>
     (\<exists>k x p. (k, x) \<in> set fs \<and> sl = at @ Key k # p \<and> hits x p g)"
proof (induction node pfx at and i xs pfx at and fs pfx at arbitrary: sl and sl and sl
    rule: walk_walk_elems_walk_fields.induct)
  case (1 node pfx at)
  show ?case
  proof (cases node)
    case (JArr xs)
    then have "(sl, g) \<in> hit_pairs (walk node pfx at) \<longleftrightarrow>
        (\<exists>k p. k < length xs \<and> sl = at @ Idx k # p \<and> hits (xs ! k) p g)"
      using 1 by (subst walk.simps) simp
    then show ?thesis unfolding visible_hits JArr by (auto simp: scanned_def elim!: child_at.elims split: if_splits)
  next
    case (JObj fs)
    then have "(sl, g) \<in> hit_pairs (walk node pfx at) \<longleftrightarrow> scanned node \<and>
        (\<exists>k x p. (k, x) \<in> set fs \<and> sl = at @ Key k # p \<and> hits x p g)"
      using 1 by (subst walk.simps) (simp add: scanned_def)
    moreover have "keys_sorted fs" using 1 JObj by simp
    ultimately show ?thesis unfolding visible_hits JObj by (auto simp: child_at_field simp del: child_at.simps)
  qed (unfold visible_hits, simp_all add: walk.simps scanned_def)
next
  case (3 i x xs pfx at)
  let ?ptr = "pfx @ ''/'' @ show_nat i"
  have rest: "(sl, g) \<in> hit_pairs (walk_elems (Suc i) xs pfx at) \<longleftrightarrow>
      (\<exists>k p. k < length xs \<and> sl = at @ Idx (Suc i + k) # p \<and> hits (xs ! k) p g)"
    using 3 by (cases "report_child x ?ptr '''' (at @ [Idx i])") auto
  have split: "(\<exists>k p. k < length (x # xs) \<and> sl = at @ Idx (i + k) # p \<and> hits ((x # xs) ! k) p g) \<longleftrightarrow>
      (\<exists>p. sl = at @ Idx i # p \<and> hits x p g) \<or>
      (\<exists>k p. k < length xs \<and> sl = at @ Idx (Suc i + k) # p \<and> hits (xs ! k) p g)" (is "?A \<longleftrightarrow> ?B")
  proof
    assume ?A
    then obtain k p where "k < length (x # xs)" "sl = at @ Idx (i + k) # p" "hits ((x # xs) ! k) p g" by blast
    then show ?B by (cases k) auto
  next
    assume ?B
    then show ?A by (fastforce intro: exI [of _ "0 :: nat"] exI [of _ "Suc k" for k])
  qed
  show ?case
  proof (cases "report_child x ?ptr '''' (at @ [Idx i])")
    case None
    then show ?thesis using 3 rest split report_child_None [of x ?ptr "''''" "at @ [Idx i]"]
      by (auto simp: hits_def)
  next
    case (Some r)
    then show ?thesis using rest split report_child_Some [OF Some]
      by (auto simp: hits_def)
  qed
next
  case (5 k x fs pfx at)
  let ?ptr = "pfx @ ''/'' @ escapePointer k"
  have rest: "(sl, g) \<in> hit_pairs (walk_fields fs pfx at) \<longleftrightarrow>
      (\<exists>k x p. (k, x) \<in> set fs \<and> sl = at @ Key k # p \<and> hits x p g)"
    using 5 by (cases "report_child x ?ptr k (at @ [Key k])") auto
  have split: "(\<exists>l y p. (l, y) \<in> set ((k, x) # fs) \<and> sl = at @ Key l # p \<and> hits y p g) \<longleftrightarrow>
      (\<exists>p. sl = at @ Key k # p \<and> hits x p g) \<or> (\<exists>l y p. (l, y) \<in> set fs \<and> sl = at @ Key l # p \<and> hits y p g)"
    by auto
  show ?case
  proof (cases "report_child x ?ptr k (at @ [Key k])")
    case None
    have "(sl, g) \<in> hit_pairs (walk x ?ptr (at @ [Key k])) \<longleftrightarrow> (\<exists>p. sl = at @ Key k # p \<and> hits x p g)"
      using 5 None report_child_None [of x ?ptr k "at @ [Key k]"] by (auto simp: hits_def)
    then show ?thesis unfolding split using None rest by simp
  next
    case (Some r)
    then show ?thesis unfolding split using rest report_child_Some [OF Some] by (auto simp: hits_def)
  qed
qed (auto simp: walk.simps)

section \<open>Slots never overlap\<close>

lemma hit_pairs_slot: "r \<in> set rs \<Longrightarrow> (r_slot r, r_obj r) \<in> hit_pairs rs"
  by (auto simp: hit_pairs_def)

lemma walk_distinct:
  "json_ok node \<Longrightarrow> distinct (map r_slot (walk node pfx at))"
  "\<forall>x \<in> set xs. json_ok x \<Longrightarrow> distinct (map r_slot (walk_elems i xs pfx at))"
  "keys_sorted fs \<Longrightarrow> \<forall>f \<in> set fs. json_ok (snd f) \<Longrightarrow> distinct (map r_slot (walk_fields fs pfx at))"
proof (induction node pfx at and i xs pfx at and fs pfx at rule: walk_walk_elems_walk_fields.induct)
  case (1 node pfx at)
  then show ?case by (subst walk.simps) (auto split: json.splits)
next
  case (3 i x xs pfx at)
  let ?ptr = "pfx @ ''/'' @ show_nat i"
  have rest: "\<exists>j q. i < j \<and> r_slot r = at @ Idx j # q" if "r \<in> set (walk_elems (Suc i) xs pfx at)" for r
    using walk_hits(2) [of xs "r_slot r" "r_obj r" "Suc i" pfx at] hit_pairs_slot [OF that] 3 by auto
  have head: "\<exists>q. r_slot r = at @ Idx i # q" if "r \<in> set (walk x ?ptr (at @ [Idx i]))" for r
    using walk_hits(1) [of x "r_slot r" "r_obj r" ?ptr "at @ [Idx i]"] hit_pairs_slot [OF that] 3 by auto
  show ?case
  proof (cases "report_child x ?ptr '''' (at @ [Idx i])")
    case None
    have "r_slot r \<noteq> r_slot r'" if "r \<in> set (walk x ?ptr (at @ [Idx i]))" "r' \<in> set (walk_elems (Suc i) xs pfx at)" for r r'
      using head [OF that(1)] rest [OF that(2)] by auto
    then show ?thesis using 3 None by (auto 0 3)
  next
    case (Some r)
    have "at @ [Idx i] \<noteq> r_slot r'" if "r' \<in> set (walk_elems (Suc i) xs pfx at)" for r'
      using rest [OF that] by auto
    then show ?thesis using 3 report_child_Some [OF Some] Some by auto
  qed
next
  case (5 k x fs pfx at)
  let ?ptr = "pfx @ ''/'' @ escapePointer k"
  have sorted: "keys_sorted fs" "k \<notin> fst ` set fs" using 5 by (auto simp: keys_sorted_def)
  have rest: "\<exists>l q. l \<noteq> k \<and> r_slot r = at @ Key l # q" if "r \<in> set (walk_fields fs pfx at)" for r
    using walk_hits(3) [of fs "r_slot r" "r_obj r" pfx at] hit_pairs_slot [OF that] 5 sorted(2) by force
  have head: "\<exists>q. r_slot r = at @ Key k # q" if "r \<in> set (walk x ?ptr (at @ [Key k]))" for r
    using walk_hits(1) [of x "r_slot r" "r_obj r" ?ptr "at @ [Key k]"] hit_pairs_slot [OF that] 5 by auto
  show ?case
  proof (cases "report_child x ?ptr k (at @ [Key k])")
    case None
    have "r_slot r \<noteq> r_slot r'" if "r \<in> set (walk x ?ptr (at @ [Key k]))" "r' \<in> set (walk_fields fs pfx at)" for r r'
      using head [OF that(1)] rest [OF that(2)] by auto
    then show ?thesis using 5 None sorted(1) by (auto 0 3)
  next
    case (Some r)
    have "at @ [Key k] \<noteq> r_slot r'" if "r' \<in> set (walk_fields fs pfx at)" for r'
      using rest [OF that] by auto
    then show ?thesis using 5 report_child_Some [OF Some] Some sorted(1) by auto
  qed
qed auto

lemma walk_types:
  "r \<in> set (walk node pfx at) \<Longrightarrow> resolventType (r_obj r) = Some (r_type r)"
  "r \<in> set (walk_elems i xs pfx at) \<Longrightarrow> resolventType (r_obj r) = Some (r_type r)"
  "r \<in> set (walk_fields fs pfx at) \<Longrightarrow> resolventType (r_obj r) = Some (r_type r)"
proof (induction node pfx at and i xs pfx at and fs pfx at rule: walk_walk_elems_walk_fields.induct)
  case (1 node pfx at)
  then show ?case by (subst (asm) walk.simps) (auto split: json.splits if_splits)
qed (auto simp: Let_def split: option.splits dest!: report_child_Some)

lemma visible_apart:
  assumes "visible v p (JObj g)" "resolventType g \<noteq> None" and "visible v q (JObj h)" "resolventType h \<noteq> None"
    and "p \<noteq> q"
  shows "apart (at @ p) (at @ q)"
proof -
  have "\<not> prefix p q" if "visible v p (JObj g)" "resolventType g \<noteq> None" "visible v q (JObj h)" "p \<noteq> q" for p q g h
  proof
    assume "prefix p q"
    with that(4) obtain s t where "q = p @ s # t" by (metis append_Nil2 neq_Nil_conv prefixE)
    with that visible_through_resolvent [of v p "JObj g"] show False by (auto simp: is_resolvent_def)
  qed
  with assms show ?thesis unfolding apart_def by (metis same_prefix_prefix)
qed

lemma locate_get: "locateContainer v segs = get_at v (map Key segs)"
  by (induction v segs rule: locateContainer.induct) (auto split: option.splits)

lemma get_at_append: "get_at v (p @ q) = (case get_at v p of None \<Rightarrow> None | Some w \<Rightarrow> get_at w q)"
  by (induction p arbitrary: v) (auto split: option.splits)

section \<open>Finding\<close>

definition finds :: "fields \<Rightarrow> string \<Rightarrow> slot \<Rightarrow> fields \<Rightarrow> bool" where
  "finds root path sl g \<longleftrightarrow> (\<exists>c. get_at (JObj root) (map Key (path_segs path)) = Some c \<and>
     (if path \<noteq> '''' \<and> is_resolvent c then sl = map Key (path_segs path) \<and> c = JObj g
      else \<exists>p. sl = map Key (path_segs path) @ p \<and> visible c p (JObj g) \<and> resolventType g \<noteq> None))"

lemma path_segs_Nil: "path_segs path = [] \<longleftrightarrow> path = ''''"
  by (simp add: path_segs_def)

lemma find_reports_exact:
  assumes "json_ok (JObj root)"
  shows "(sl, g) \<in> hit_pairs (find_reports root path) \<longleftrightarrow> finds root path sl g"
    and "distinct (map r_slot (find_reports root path))"
proof -
  let ?segs = "path_segs path" and ?at = "map Key (path_segs path)"
  show "(sl, g) \<in> hit_pairs (find_reports root path) \<longleftrightarrow> finds root path sl g"
  proof (cases "get_at (JObj root) ?at")
    case None
    then show ?thesis by (simp add: find_reports_def finds_def locate_get Let_def)
  next
    case (Some c)
    have ok: "json_ok c" using json_ok_get [OF assms Some] .
    show ?thesis
    proof (cases "path \<noteq> '''' \<and> is_resolvent c")
      case True
      then obtain r where "report_child c (pointerOf path) (last ?segs) ?at = Some r"
        using report_child_None by fastforce
      with True Some report_child_Some [OF this] show ?thesis
        by (auto simp: find_reports_def finds_def locate_get Let_def path_segs_Nil)
    next
      case False
      then have "find_reports root path = walk c (pointerOf path) ?at"
        using Some report_child_None [of c "pointerOf path" "last ?segs" ?at]
        by (auto simp: find_reports_def locate_get Let_def path_segs_Nil)
      then show ?thesis using False Some walk_hits(1) [OF ok, of sl g "pointerOf path" ?at]
        by (auto simp: finds_def)
    qed
  qed
  show "distinct (map r_slot (find_reports root path))"
  proof (cases "get_at (JObj root) ?at")
    case (Some c)
    then show ?thesis using walk_distinct(1) [OF json_ok_get [OF assms Some], of "pointerOf path" ?at]
      by (auto simp: find_reports_def locate_get Let_def split: option.splits)
  qed (simp add: find_reports_def locate_get Let_def)
qed

lemma finds_get: "finds root path sl g \<Longrightarrow> get_at (JObj root) sl = Some (JObj g) \<and> resolventType g \<noteq> None"
  by (auto simp: finds_def get_at_append visible_get is_resolvent_def split: if_splits)

lemma finds_apart:
  assumes "finds root path p g" and "finds root path q h" and "p \<noteq> q"
  shows "apart p q"
proof -
  obtain c where c: "get_at (JObj root) (map Key (path_segs path)) = Some c" using assms(1) by (auto simp: finds_def)
  with assms show ?thesis
    by (auto simp: finds_def split: if_splits intro!: visible_apart simp del: get_at.simps)
qed

lemma Find_found:
  assumes "json_ok (JObj root)"
  shows "(\<exists>f \<in> set (Find sha root path). fd_slot f = sl \<and> fd_object f = g) \<longleftrightarrow> finds root path sl g"
    and "distinct (map fd_slot (Find sha root path))"
    and "f \<in> set (Find sha root path) \<Longrightarrow> resolventType (fd_object f) = Some (fd_type f)"
    and "f \<in> set (Find sha root path) \<Longrightarrow> finds root path (fd_slot f) (fd_object f)"
proof -
  note E = find_reports_exact [OF assms, where path = path]
  show pairs: "(\<exists>f \<in> set (Find sha root path). fd_slot f = sl \<and> fd_object f = g) \<longleftrightarrow> finds root path sl g" for sl g
    using E(1) [of sl g] by (force simp: Find_def to_found_def hit_pairs_def)
  have "map fd_slot (Find sha root path) = map r_slot (find_reports root path)" by (simp add: Find_def to_found_def)
  then show "distinct (map fd_slot (Find sha root path))" using E(2) by simp
  have "resolventType (r_obj r) = Some (r_type r)" if "r \<in> set (find_reports root path)" for r
    using that walk_types(1)
    by (auto simp: find_reports_def Let_def split: option.splits if_splits dest: report_child_Some)
  then show "f \<in> set (Find sha root path) \<Longrightarrow> resolventType (fd_object f) = Some (fd_type f)"
    by (auto simp: Find_def to_found_def)
  show "f \<in> set (Find sha root path) \<Longrightarrow> finds root path (fd_slot f) (fd_object f)" using pairs by blast
qed

text \<open>C27: A scan finds exactly the resolvent objects of the container: every object whose type starts with
  the prefix and that is reachable without entering a resolvent or a time series, each once, each with
  the slot it really occupies, and no two slots overlap.\<close>

theorem Find_exact:
  assumes "json_ok (JObj root)"
  shows "(\<forall>sl g. (\<exists>f \<in> set (Find sha root path). fd_slot f = sl \<and> fd_object f = g) \<longleftrightarrow> finds root path sl g)
    \<and> distinct (map fd_slot (Find sha root path))
    \<and> (\<forall>f \<in> set (Find sha root path). get_at (JObj root) (fd_slot f) = Some (JObj (fd_object f))
         \<and> resolventType (fd_object f) = Some (fd_type f))
    \<and> (\<forall>f \<in> set (Find sha root path). \<forall>h \<in> set (Find sha root path).
         fd_slot f \<noteq> fd_slot h \<longrightarrow> apart (fd_slot f) (fd_slot h))"
proof (intro conjI allI ballI impI)
  note F = Find_found [OF assms, where path = path]
  show "(\<exists>f \<in> set (Find sha root path). fd_slot f = sl \<and> fd_object f = g) \<longleftrightarrow> finds root path sl g" for sl g by (rule F(1))
  show "distinct (map fd_slot (Find sha root path))" by (rule F(2))
  show "get_at (JObj root) (fd_slot f) = Some (JObj (fd_object f))" if "f \<in> set (Find sha root path)" for f
    using finds_get [OF F(4) [OF that]] by simp
  show "resolventType (fd_object f) = Some (fd_type f)" if "f \<in> set (Find sha root path)" for f by (rule F(3) [OF that])
  show "apart (fd_slot f) (fd_slot h)"
    if "f \<in> set (Find sha root path)" "h \<in> set (Find sha root path)" "fd_slot f \<noteq> fd_slot h" for f h
    using finds_apart [OF F(4) [OF that(1)] F(4) [OF that(2)] that(3)] .
qed

definition demo_payload :: fields where
  "demo_payload = [(''model'', JObj [(''load'', JObj [(''type'', JStr ''time-series''), (''v'', JArr [])]),
     (''pv'', JObj [(''lat'', JNum ''48.1''), (''type'', JStr ''resolvent-pv1'')])]), (''name'', JStr ''x'')]"

lemma demo_payload_ok: "json_ok (JObj demo_payload)"
  by (simp add: demo_payload_def keys_sorted_def less_char_def)

theorem Find_exact_witness:
  "\<exists>f \<in> set (Find (\<lambda>s. s) demo_payload ''model''). fd_slot f = [Key ''model'', Key ''pv'']"
proof -
  let ?g = "[(''lat'', JNum ''48.1''), (''type'', JStr ''resolvent-pv1'')]"
  let ?c = "JObj [(''load'', JObj [(''type'', JStr ''time-series''), (''v'', JArr [])]), (''pv'', JObj ?g)]"
  have res: "resolventType ?g = Some ''resolvent-pv1''"
    by (simp add: resolventType_def obj_get_def typeKey_def HasPrefix_def TypePrefix_def)
  have "visible ?c [Key ''pv''] (JObj ?g)"
    by (rule visible.child) (simp_all add: scanned_def str_field_def obj_get_def typeKey_def TimeSeriesType_def)
  moreover have "\<not> is_resolvent ?c" by (simp add: is_resolvent_def resolventType_def obj_get_def typeKey_def)
  moreover have "get_at (JObj demo_payload) [Key ''model''] = Some ?c" by (simp add: demo_payload_def obj_get_def)
  ultimately have "finds demo_payload ''model'' [Key ''model'', Key ''pv''] ?g"
    using res by (auto simp: finds_def path_segs_def)
  with Find_exact [OF demo_payload_ok, of "\<lambda>s. s" "''model''"] show ?thesis by blast
qed

section \<open>Round trip\<close>

text \<open>C26: Re-encoding a payload is lossless: an object whose numbers are JSON numbers, whose strings are valid
  UTF-8 and that nests no deeper than the decoder allows parses from its own encoding to itself, field by field
  and with every number text verbatim.\<close>

theorem Parse_Marshal:
  assumes "clean (JObj root)" and "height (JObj root) \<le> maxNestingDepth"
  shows "ParsePayload (Marshal root) = Inr root"
  using decode_encode [OF assms] by (simp add: ParsePayload_def Marshal_def decodeObject_def)

theorem Parse_Marshal_witness:
  "ParsePayload (Marshal [(''a'', JArr [JNum ''9007199254740993'', JNull]), (''b'', JStr ''<x>'')]) =
     Inr [(''a'', JArr [JNum ''9007199254740993'', JNull]), (''b'', JStr ''<x>'')]"
proof (rule Parse_Marshal)
  let ?v = "JObj [(''a'', JArr [JNum ''9007199254740993'', JNull]), (''b'', JStr ''<x>'')]"
  have num: "number_text ''9007199254740993''"
    by (simp add: number_text_def parse_number_def int_part_def frac_part_def exp_part_def is_digit_def)
  show "clean ?v"
    by (simp add: num keys_sorted_def utf8_valid_def rune_width_def less_char_def)
  show "height ?v \<le> maxNestingDepth" by (simp add: maxNestingDepth_def)
qed

section \<open>Overwriting slots\<close>

definition put_all :: "(slot \<times> json) list \<Rightarrow> json \<Rightarrow> json" where
  "put_all ups root = foldl (\<lambda>r u. put_at (fst u) (snd u) r) root ups"

lemma put_all_frame:
  "\<forall>u \<in> set ups. apart (fst u) q \<Longrightarrow> get_at (put_all ups root) q = get_at root q"
  by (induction ups arbitrary: root) (auto simp: put_all_def get_put_apart)

lemma apart_sym: "apart p q \<longleftrightarrow> apart q p"
  by (auto simp: apart_def)

lemma put_all_get:
  assumes "distinct (map fst ups)" and "\<forall>u \<in> set ups. \<forall>w \<in> set ups. fst u \<noteq> fst w \<longrightarrow> apart (fst u) (fst w)"
    and "\<forall>u \<in> set ups. get_at root (fst u) \<noteq> None" and "(sl, v) \<in> set ups"
  shows "get_at (put_all ups root) sl = Some v"
  using assms
proof (induction ups arbitrary: root)
  case (Cons u ups)
  let ?r = "put_at (fst u) (snd u) root"
  have other: "apart (fst u) (fst w)" if "w \<in> set ups" for w
    using Cons.prems(1,2) that by (auto simp: image_iff)
  show ?case
  proof (cases "(sl, v) = u")
    case True
    then have "get_at (put_all ups ?r) sl = get_at ?r sl"
      using other by (intro put_all_frame) (auto simp: apart_sym)
    with True Cons.prems(3) show ?thesis by (auto simp: put_all_def intro: get_put_same)
  next
    case False
    have "\<forall>w \<in> set ups. get_at ?r (fst w) \<noteq> None" using Cons.prems(3) other by (auto simp: get_put_apart)
    with Cons False show ?thesis by (auto simp: put_all_def)
  qed
qed simp

end
