(* ===== verification/Response_Map.thy ===== *)
theory Response_Map
  imports Complex_Main Resolver
begin

text \<open>
  \<^verbatim>\<open>internal/resolver/mapping.go\<close>: path expressions, the response map that adapts foreign
  responses, and exact decimal scaling. A configured number (\<^verbatim>\<open>int\<close>, \<^verbatim>\<open>float64\<close> or
  \<^verbatim>\<open>json.Number\<close>) is represented by its text.
\<close>

section \<open>Paths\<close>

definition pathMarker :: string where "pathMarker = ''.''"

record path_seg =
  seg_name :: string
  seg_project :: bool

datatype path_error = NoMarker string | EmptySegment string | TwoProjections string

definition parse_seg :: "string \<Rightarrow> path_seg" where
  "parse_seg raw = (if HasSuffix raw ''[*]'' then \<lparr>seg_name = take (length raw - 3) raw, seg_project = True\<rparr>
     else \<lparr>seg_name = raw, seg_project = False\<rparr>)"

definition ParsePath :: "string \<Rightarrow> path_error + path_seg list" where
  "ParsePath expr =
     (if \<not> HasPrefix expr pathMarker then Inl (NoMarker expr)
      else let rest = drop (length pathMarker) expr
           in if rest = '''' then Inr []
              else let segs = map parse_seg (split_on CHR ''.'' rest)
                   in if \<exists>s \<in> set segs. seg_name s = '''' then Inl (EmptySegment expr)
                      else if 1 < length (filter seg_project segs) then Inl (TwoProjections expr)
                      else Inr segs)"

datatype eval_error =
  NotFoundSeg string | NotAnIndex string | OutOfRange string nat | NotContainer string | NeedsArray string
| AtElement nat eval_error

definition path_child :: "json \<Rightarrow> string \<Rightarrow> eval_error + json" where
  "path_child node name = (case node of
     JObj fs \<Rightarrow> (case obj_get fs name of None \<Rightarrow> Inl (NotFoundSeg name) | Some v \<Rightarrow> Inr v)
   | JArr xs \<Rightarrow> (case Atoi name of
        None \<Rightarrow> Inl (NotAnIndex name)
      | Some i \<Rightarrow> if i < 0 \<or> int (length xs) \<le> i then Inl (OutOfRange name (length xs)) else Inr (xs ! nat i))
   | _ \<Rightarrow> Inl (NotContainer name))"

primrec evalSegs :: "path_seg list \<Rightarrow> json \<Rightarrow> eval_error + json" where
  "evalSegs [] = (\<lambda>node. Inr node)"
| "evalSegs (seg # segs) = (\<lambda>node.
     case path_child node (seg_name seg) of
       Inl e \<Rightarrow> Inl e
     | Inr v \<Rightarrow>
         if seg_project seg then
           (case v of
              JArr xs \<Rightarrow> map_sum id JArr (traverse (evalSegs segs) AtElement 0 xs)
            | _ \<Rightarrow> Inl (NeedsArray (seg_name seg)))
         else evalSegs segs v)"

section \<open>Exact decimals\<close>

fun drop_zeros :: "string \<Rightarrow> string" where
  "drop_zeros s = (if s \<noteq> [] \<and> last s = CHR ''0'' then drop_zeros (butlast s) else s)"

declare drop_zeros.simps [simp del]

text \<open>\<^verbatim>\<open>big.Rat.SetString\<close> on the text of a JSON number; exponents beyond a million are refused.\<close>

definition number_parts :: "string \<Rightarrow> (bool \<times> string \<times> string \<times> int) option" where
  "number_parts s =
     (let (neg, s0) = (case s of c # r \<Rightarrow> if c = CHR ''-'' then (True, r) else if c = CHR ''+'' then (False, r) else (False, s) | [] \<Rightarrow> (False, s));
          ip = takeWhile is_digit s0; s1 = dropWhile is_digit s0;
          (fp, s2) = (case s1 of c # r \<Rightarrow> if c = CHR ''.'' then (takeWhile is_digit r, dropWhile is_digit r) else ([], s1) | [] \<Rightarrow> ([], s1))
      in if ip = [] \<and> fp = [] then None
         else case s2 of
           [] \<Rightarrow> Some (neg, ip, fp, 0)
         | c # r \<Rightarrow> if c = CHR ''e'' \<or> c = CHR ''E'' then map_option (\<lambda>e. (neg, ip, fp, e)) (Atoi r) else None)"

definition SetString :: "string \<Rightarrow> rat option" where
  "SetString s = (case number_parts s of
     None \<Rightarrow> None
   | Some (neg, ip, fp, e) \<Rightarrow>
       (case digits_val 0 (ip @ fp) of
          None \<Rightarrow> None
        | Some m \<Rightarrow>
            (let ex = e - int (length fp); v = (of_nat m :: rat)
             in if 1000000 < \<bar>ex\<bar> then None
                else Some ((if neg then - v else v) * (if 0 \<le> ex then 10 ^ nat ex else 1 / 10 ^ nat (- ex))))))"

text \<open>How often a factor divides a positive number, and what remains.\<close>

function strip_factor :: "nat \<Rightarrow> nat \<Rightarrow> nat \<times> nat" where
  "strip_factor p n = (if 1 < p \<and> 0 < n \<and> n mod p = 0 then (let (k, m) = strip_factor p (n div p) in (Suc k, m)) else (0, n))"
  by pat_completeness auto
termination
  by (relation "measure snd") auto

declare strip_factor.simps [simp del]

text \<open>\<^verbatim>\<open>big.Rat.FloatString\<close>: rounded to \<open>prec\<close> decimals, halves away from zero.\<close>

definition FloatString :: "rat \<Rightarrow> nat \<Rightarrow> string" where
  "FloatString r prec =
     (let (a, b) = quotient_of r; n = nat \<bar>a\<bar>; d = nat b;
          q = (2 * n * 10 ^ prec + d) div (2 * d);
          ip = q div 10 ^ prec; fp = q mod 10 ^ prec;
          body = show_nat ip @ (if prec = 0 then [] else ''.'' @ replicate (prec - length (show_nat fp)) CHR ''0'' @ show_nat fp)
      in (if a < 0 then ''-'' @ body else body))"

definition trim_dot :: "string \<Rightarrow> string" where
  "trim_dot s = (if s \<noteq> [] \<and> last s = CHR ''.'' then butlast s else s)"

definition formatRat :: "rat \<Rightarrow> string" where
  "formatRat r =
     (let (a, b) = quotient_of r
      in if b = 1 then show_int a
         else let (twos, r1) = strip_factor 2 (nat b); (fives, r2) = strip_factor 5 r1;
                  decimals = (if r2 \<noteq> 1 then 16 else max twos fives)
              in trim_dot (drop_zeros (FloatString r decimals)))"

section \<open>Applying a map\<close>

datatype map_error =
  BadPath path_error | EvalFailed eval_error | BadScale string | CannotScale | NotANumber string
| ElementOf nat map_error | MapKey string map_error | ResponseNotJSON

definition scaleNumber :: "string \<Rightarrow> rat \<Rightarrow> map_error + json" where
  "scaleNumber n factor = (case SetString n of None \<Rightarrow> Inl (NotANumber n) | Some v \<Rightarrow> Inr (JNum (formatRat (v * factor))))"

fun scaleValue :: "rat \<Rightarrow> json \<Rightarrow> map_error + json" where
  "scaleValue factor (JNum n) = scaleNumber n factor"
| "scaleValue factor (JArr xs) = map_sum id JArr (traverse (scaleValue factor) ElementOf 0 xs)"
| "scaleValue factor JNull = Inr JNull"
| "scaleValue factor _ = Inl CannotScale"

definition scaleFactor :: "json \<Rightarrow> map_error + rat" where
  "scaleFactor v = (case v of
     JNum t \<Rightarrow> (case SetString t of None \<Rightarrow> Inl (BadScale t) | Some r \<Rightarrow> Inr r)
   | _ \<Rightarrow> Inl (BadScale ''''))"

definition eval_path :: "string \<Rightarrow> json \<Rightarrow> map_error + json" where
  "eval_path s doc = (case ParsePath s of
     Inl e \<Rightarrow> Inl (BadPath e)
   | Inr p \<Rightarrow> (case evalSegs p doc of Inl e \<Rightarrow> Inl (EvalFailed e) | Inr v \<Rightarrow> Inr v))"

definition mapValue :: "json \<Rightarrow> json \<Rightarrow> map_error + json" where
  "mapValue doc spec = (case spec of
     JStr s \<Rightarrow> if \<not> HasPrefix s pathMarker then Inr (JStr s) else eval_path s doc
   | JObj fs \<Rightarrow>
       (case obj_get fs ''value'' of
          Some v \<Rightarrow> Inr v
        | None \<Rightarrow>
            (case obj_get fs ''path'' of
               None \<Rightarrow> Inr (JObj fs)
             | Some _ \<Rightarrow>
                 (case eval_path (str_field fs ''path'') doc of
                    Inl e \<Rightarrow> Inl e
                  | Inr v \<Rightarrow>
                      (case obj_get fs ''scale'' of
                         None \<Rightarrow> Inr v
                       | Some sc \<Rightarrow> (case scaleFactor sc of Inl e \<Rightarrow> Inl e | Inr factor \<Rightarrow> scaleValue factor v)))))
   | _ \<Rightarrow> Inr spec)"

fun map_fields :: "json \<Rightarrow> fields \<Rightarrow> map_error + fields" where
  "map_fields doc [] = Inr []"
| "map_fields doc ((key, spec) # m) =
     (case mapValue doc spec of
        Inl e \<Rightarrow> Inl (MapKey key e)
      | Inr v \<Rightarrow> (case map_fields doc m of Inl e \<Rightarrow> Inl e | Inr out \<Rightarrow> Inr ((key, v) # out)))"

definition ApplyMap :: "string \<Rightarrow> fields \<Rightarrow> map_error + string" where
  "ApplyMap body m = (case Decode body of
     None \<Rightarrow> Inl ResponseNotJSON
   | Some doc \<Rightarrow> (case map_fields doc m of Inl e \<Rightarrow> Inl e | Inr out \<Rightarrow> Inr (encode (JObj out))))"

section \<open>Validation\<close>

datatype spec_error = EmptyMap | EmptyKey | SpecPath path_error | PathNotString | SpecScale map_error | UnknownMapKey string
| SpecKey string spec_error

fun validate_keys :: "fields \<Rightarrow> spec_error option" where
  "validate_keys [] = None"
| "validate_keys ((k, v) # fs) =
     (if k = ''path'' then validate_keys fs
      else if k = ''scale'' then (case scaleFactor v of Inl e \<Rightarrow> Some (SpecScale e) | Inr _ \<Rightarrow> validate_keys fs)
      else Some (UnknownMapKey k))"

definition validateMapSpec :: "json \<Rightarrow> spec_error option" where
  "validateMapSpec spec = (case spec of
     JStr s \<Rightarrow> if HasPrefix s pathMarker then (case ParsePath s of Inl e \<Rightarrow> Some (SpecPath e) | Inr _ \<Rightarrow> None) else None
   | JObj fs \<Rightarrow>
       (case obj_get fs ''path'' of
          None \<Rightarrow> None
        | Some (JStr p) \<Rightarrow> (case ParsePath p of Inl e \<Rightarrow> Some (SpecPath e) | Inr _ \<Rightarrow> validate_keys fs)
        | Some _ \<Rightarrow> Some PathNotString)
   | _ \<Rightarrow> None)"

fun validate_specs :: "fields \<Rightarrow> spec_error option" where
  "validate_specs [] = None"
| "validate_specs ((key, spec) # m) =
     (if key = '''' then Some EmptyKey
      else case validateMapSpec spec of Some e \<Rightarrow> Some (SpecKey key e) | None \<Rightarrow> validate_specs m)"

definition ValidateResponseMap :: "fields \<Rightarrow> spec_error option" where
  "ValidateResponseMap m = (if m = [] then Some EmptyMap else validate_specs m)"

end
