(* ===== verification/Chain.thy ===== *)
theory Chain
  imports Response_Map
begin

text \<open>
  \<^verbatim>\<open>internal/resolver/chain.go\<close>: references between resolvents, their order into dependency
  levels, and filling references from resolved series. A found resolvent is identified by its
  position in document order, which stands for the pointer the source compares; the memo and the
  visiting set of the depth computation are explicit. \<open>level\<close> recurses with fuel, one unit per
  resolvent on the trail: the visiting set makes longer trails impossible.
\<close>

section \<open>References\<close>

definition refKey :: string where "refKey = ''$from''"
definition pathKey :: string where "pathKey = ''path''"
definition MaxChainDepth :: nat where "MaxChainDepth = 8"

datatype ref_error = FromMissing | PathKeyNotString | UnknownRefKey string | RefPath path_error

definition parseRef :: "fields \<Rightarrow> ref_error + (string \<times> path_seg list)" where
  "parseRef ref =
     (let from = str_field ref refKey
      in if from = '''' then Inl FromMissing
         else case (case obj_get ref pathKey of
                      None \<Rightarrow> Inr pathMarker
                    | Some (JStr s) \<Rightarrow> Inr (if HasPrefix s pathMarker then s else pathMarker @ s)
                    | Some _ \<Rightarrow> Inl PathKeyNotString) of
           Inl e \<Rightarrow> Inl e
         | Inr expr \<Rightarrow>
             (case find (\<lambda>k. k \<noteq> refKey \<and> k \<noteq> pathKey) (map fst ref) of
                Some k \<Rightarrow> Inl (UnknownRefKey k)
              | None \<Rightarrow> (case ParsePath expr of Inl e \<Rightarrow> Inl (RefPath e) | Inr p \<Rightarrow> Inr (from, p))))"

record ref_site =
  rs_ref :: fields
  rs_ptr :: string
  rs_slot :: slot

text \<open>The reference objects below a node in visiting order; the walk does not enter a reference.\<close>

function walkRefs :: "json \<Rightarrow> string \<Rightarrow> slot \<Rightarrow> ref_site list"
  and visitChild :: "json \<Rightarrow> string \<Rightarrow> slot \<Rightarrow> ref_site list"
  and refs_elems :: "nat \<Rightarrow> json list \<Rightarrow> string \<Rightarrow> slot \<Rightarrow> ref_site list"
  and refs_fields :: "fields \<Rightarrow> string \<Rightarrow> slot \<Rightarrow> ref_site list" where
  "walkRefs node ptr sl = (case node of
     JObj fs \<Rightarrow> refs_fields fs ptr sl | JArr xs \<Rightarrow> refs_elems 0 xs ptr sl | _ \<Rightarrow> [])"
| "visitChild child ptr sl = (case child of
     JObj m \<Rightarrow> if obj_get m refKey \<noteq> None then [\<lparr>rs_ref = m, rs_ptr = ptr, rs_slot = sl\<rparr>] else walkRefs child ptr sl
   | _ \<Rightarrow> walkRefs child ptr sl)"
| "refs_elems i [] ptr sl = []"
| "refs_elems i (x # xs) ptr sl =
     visitChild x (ptr @ ''/'' @ show_nat i) (sl @ [Idx i]) @ refs_elems (Suc i) xs ptr sl"
| "refs_fields [] ptr sl = []"
| "refs_fields ((k, x) # fs) ptr sl =
     visitChild x (ptr @ ''/'' @ escapePointer k) (sl @ [Key k]) @ refs_fields fs ptr sl"
  by pat_completeness auto
termination
  by (relation "measure (\<lambda>a. case a of Inl (Inl (v, _)) \<Rightarrow> 3 * size v
       | Inl (Inr (v, _)) \<Rightarrow> 3 * size v + 1
       | Inr (Inl (_, xs, _)) \<Rightarrow> 3 * size_list size xs + 2
       | Inr (Inr (fs, _)) \<Rightarrow> 3 * size_list (size_prod (\<lambda>_. 0) size) fs + 2)") auto

declare walkRefs.simps [simp del] visitChild.simps [simp del]

section \<open>Binding\<close>

datatype chain_error =
  RefAt string ref_error | NoSuchResolvent string string | AmbiguousName string string nat | SelfReference string string
| ReferenceCycle "string list" | TooDeep string | OutOfFuel

definition named :: "found list \<Rightarrow> string \<Rightarrow> nat list" where
  "named fs name = filter (\<lambda>i. fd_name (fs ! i) = name \<and> fd_name (fs ! i) \<noteq> '''') [0..<length fs]"

definition bind_ref :: "nat \<Rightarrow> string \<Rightarrow> string \<Rightarrow> nat list \<Rightarrow> chain_error + nat" where
  "bind_ref i from ptr cands = (case cands of
     [] \<Rightarrow> Inl (NoSuchResolvent ptr from)
   | [j] \<Rightarrow> if j = i then Inl (SelfReference ptr from) else Inr j
   | _ \<Rightarrow> Inl (AmbiguousName ptr from (length cands)))"

definition bind_site :: "found list \<Rightarrow> nat \<Rightarrow> ref_site \<Rightarrow> chain_error + (string \<times> nat)" where
  "bind_site fs i site = (case parseRef (rs_ref site) of
     Inl e \<Rightarrow> Inl (RefAt (rs_ptr site) e)
   | Inr (from, _) \<Rightarrow> (case bind_ref i from (rs_ptr site) (named fs from) of Inl e \<Rightarrow> Inl e | Inr j \<Rightarrow> Inr (from, j)))"

definition bind_all :: "found list \<Rightarrow> nat \<Rightarrow> chain_error + (string \<times> nat) list" where
  "bind_all fs i = traverse (bind_site fs i) (\<lambda>_ e. e) 0 (walkRefs (JObj (fd_object (fs ! i))) (fd_path (fs ! i)) [])"

text \<open>The dependencies of a resolvent, in the order of the names that refer to them.\<close>

definition dep_order :: "(string \<times> nat) list \<Rightarrow> nat list" where
  "dep_order bs = map (\<lambda>n. the (map_of bs n)) (sorted_list_of_set (fst ` set bs))"

definition fd_label :: "found \<Rightarrow> string" where
  "fd_label f = (if fd_name f \<noteq> '''' then fd_name f else fd_path f)"

section \<open>Depths\<close>

type_synonym depths = "nat \<Rightarrow> nat option"

fun level :: "nat \<Rightarrow> (nat \<Rightarrow> nat list) \<Rightarrow> (nat \<Rightarrow> string) \<Rightarrow> depths \<Rightarrow> nat list \<Rightarrow> string list \<Rightarrow> nat
    \<Rightarrow> chain_error + (nat \<times> depths)"
  and level_deps :: "nat \<Rightarrow> (nat \<Rightarrow> nat list) \<Rightarrow> (nat \<Rightarrow> string) \<Rightarrow> depths \<Rightarrow> nat list \<Rightarrow> string list \<Rightarrow> nat list \<Rightarrow> nat
    \<Rightarrow> chain_error + (nat \<times> depths)" where
  "level 0 deps label depth visiting trail i = Inl OutOfFuel"
| "level (Suc n) deps label depth visiting trail i =
     (case depth i of
        Some d \<Rightarrow> Inr (d, depth)
      | None \<Rightarrow>
          if i \<in> set visiting then Inl (ReferenceCycle (trail @ [label i]))
          else case level_deps n deps label depth (i # visiting) (trail @ [label i]) (deps i) 0 of
            Inl e \<Rightarrow> Inl e
          | Inr (d, depth') \<Rightarrow>
              if MaxChainDepth \<le> d then Inl (TooDeep (label i)) else Inr (d, depth'(i \<mapsto> d)))"
| "level_deps n deps label depth visiting trail [] d = Inr (d, depth)"
| "level_deps n deps label depth visiting trail (j # js) d =
     (case level n deps label depth visiting trail j of
        Inl e \<Rightarrow> Inl e
      | Inr (dd, depth') \<Rightarrow> level_deps n deps label depth' visiting trail js (max d (Suc dd)))"

fun all_levels :: "nat \<Rightarrow> (nat \<Rightarrow> nat list) \<Rightarrow> (nat \<Rightarrow> string) \<Rightarrow> depths \<Rightarrow> nat list \<Rightarrow> chain_error + depths" where
  "all_levels n deps label depth [] = Inr depth"
| "all_levels n deps label depth (i # is) =
     (case level n deps label depth [] [] i of Inl e \<Rightarrow> Inl e | Inr (_, depth') \<Rightarrow> all_levels n deps label depth' is)"

text \<open>Appending a resolvent to its level, with empty levels up to it as far as needed.\<close>

definition add_level :: "nat list list \<Rightarrow> nat \<Rightarrow> nat \<Rightarrow> nat list list" where
  "add_level lv d i = (let lv' = lv @ replicate (Suc d - length lv) [] in lv'[d := lv' ! d @ [i]])"

definition group_levels :: "(nat \<Rightarrow> nat) \<Rightarrow> nat list \<Rightarrow> nat list list" where
  "group_levels depth is = foldl (\<lambda>lv i. add_level lv (depth i) i) [] is"

definition Chain :: "found list \<Rightarrow> chain_error + ((nat \<Rightarrow> (string \<times> nat) list) \<times> nat list list)" where
  "Chain fs =
     (case traverse (bind_all fs) (\<lambda>_ e. e) 0 [0..<length fs] of
        Inl e \<Rightarrow> Inl e
      | Inr bs \<Rightarrow>
          (let deps = (\<lambda>i. if i < length bs then dep_order (bs ! i) else [])
           in case all_levels (Suc (length fs)) deps (\<lambda>i. fd_label (fs ! i)) (\<lambda>_. None) [0..<length fs] of
                Inl e \<Rightarrow> Inl e
              | Inr depth \<Rightarrow> Inr (\<lambda>i. if i < length bs then bs ! i else [],
                                group_levels (\<lambda>i. the (depth i)) [0..<length fs])))"

definition DependsOn :: "(string \<times> nat) list \<Rightarrow> string list" where
  "DependsOn bs = sorted_list_of_set (fst ` set bs)"

section \<open>Filling references\<close>

datatype fill_error = SeriesMissing string string | SeriesNotJSON string string | SeriesEval string string eval_error | FillRef ref_error

definition decodeSeries :: "string option \<Rightarrow> (string option) + json" where
  "decodeSeries body = (case body of None \<Rightarrow> Inl None | Some b \<Rightarrow> (case Decode b of None \<Rightarrow> Inl (Some ''JSON'') | Some v \<Rightarrow> Inr v))"

definition fill_site :: "(nat \<Rightarrow> string option) \<Rightarrow> (string \<times> nat) list \<Rightarrow> ref_site \<Rightarrow> fill_error + (slot \<times> json)" where
  "fill_site series bs site = (case parseRef (rs_ref site) of
     Inl e \<Rightarrow> Inl (FillRef e)
   | Inr (from, path) \<Rightarrow>
       (case decodeSeries (Option.bind (map_of bs from) series) of
          Inl None \<Rightarrow> Inl (SeriesMissing (rs_ptr site) from)
        | Inl _ \<Rightarrow> Inl (SeriesNotJSON (rs_ptr site) from)
        | Inr doc \<Rightarrow>
            (case evalSegs path doc of
               Inl e \<Rightarrow> Inl (SeriesEval (rs_ptr site) from e)
             | Inr v \<Rightarrow> Inr (rs_slot site, v))))"

text \<open>Whether references were filled, and the resolvent with its input.\<close>

definition Fill :: "(nat \<Rightarrow> string option) \<Rightarrow> (string \<times> nat) list \<Rightarrow> found \<Rightarrow> fill_error + (bool \<times> found)" where
  "Fill series bs f =
     (if bs = [] then Inr (False, f)
      else case traverse (fill_site series bs) (\<lambda>_ e. e) 0 (walkRefs (JObj (fd_object f)) (fd_path f) []) of
        Inl e \<Rightarrow> Inl e
      | Inr ups \<Rightarrow>
          Inr (True, f\<lparr>fd_input := (case foldl (\<lambda>r u. put_at (fst u) (snd u) r) (JObj (fd_object f)) ups of
             JObj fs \<Rightarrow> fs | _ \<Rightarrow> fd_object f)\<rparr>))"

end
