(* ===== verification/Chain_Properties.thy ===== *)
theory Chain_Properties
  imports Chain
begin

text \<open>
  The dependency levels of \<^verbatim>\<open>resolver.Chain\<close>: a successful call assigns every resolvent its
  longest chain of references, a failure for depth or a cycle means that no assignment within the
  limit exists, and the fuel of the recursion is never used up.
\<close>

section \<open>The memo\<close>

definition step_max :: "depths \<Rightarrow> nat \<Rightarrow> nat list \<Rightarrow> nat" where
  "step_max D d js = fold max (map (\<lambda>j. Suc (the (D j))) js) d"

text \<open>Every memoised depth is the exact one.\<close>

definition memo_ok :: "(nat \<Rightarrow> nat list) \<Rightarrow> depths \<Rightarrow> bool" where
  "memo_ok deps D \<longleftrightarrow> (\<forall>i d. D i = Some d \<longrightarrow>
     d < MaxChainDepth \<and> set (deps i) \<subseteq> dom D \<and> d = step_max D 0 (deps i))"

lemma step_max_cong: "set js \<subseteq> dom D \<Longrightarrow> D \<subseteq>\<^sub>m D' \<Longrightarrow> step_max D' d js = step_max D d js"
proof -
  assume a: "set js \<subseteq> dom D" "D \<subseteq>\<^sub>m D'"
  have "D' j = D j" if "j \<in> set js" for j
    using a that unfolding map_le_def by (metis subsetD)
  then show ?thesis unfolding step_max_def by (intro arg_cong2 [where f = "\<lambda>a b. fold max a b"]) auto
qed

lemma memo_ok_upd:
  assumes "memo_ok deps D" "i \<notin> dom D" "d < MaxChainDepth" "set (deps i) \<subseteq> dom D" "d = step_max D 0 (deps i)"
  shows "memo_ok deps (D(i \<mapsto> d))"
proof -
  have le: "D \<subseteq>\<^sub>m D(i \<mapsto> d)" using assms(2) by (auto simp: map_le_def)
  have "step_max (D(i \<mapsto> d)) 0 (deps k) = step_max D 0 (deps k)" if "set (deps k) \<subseteq> dom D" for k
    by (rule step_max_cong [OF that le])
  note same = this
  show ?thesis unfolding memo_ok_def
  proof (intro allI impI)
    fix k e
    assume k: "(D(i \<mapsto> d)) k = Some e"
    show "e < MaxChainDepth \<and> set (deps k) \<subseteq> dom (D(i \<mapsto> d)) \<and> e = step_max (D(i \<mapsto> d)) 0 (deps k)"
    proof (cases "k = i")
      case True
      with k assms same [of i] show ?thesis by auto
    next
      case False
      with k assms(1) have "e < MaxChainDepth" "set (deps k) \<subseteq> dom D" "e = step_max D 0 (deps k)"
        by (auto simp: memo_ok_def)
      with same [of k] show ?thesis by auto
    qed
  qed
qed

lemma fold_max_mono: "d \<le> fold max ns (d::nat)"
  by (simp add: fold_max_le [of ns d, THEN iffD1, OF order_refl])

lemma level_spec:
  "level n deps label D vis trail i = Inr (d, D') \<Longrightarrow> memo_ok deps D \<Longrightarrow> dom D \<inter> set vis = {} \<Longrightarrow>
     D \<subseteq>\<^sub>m D' \<and> memo_ok deps D' \<and> dom D' \<inter> set vis = {} \<and> D' i = Some d"
  "level_deps n deps label D vis trail js e = Inr (d, D') \<Longrightarrow> memo_ok deps D \<Longrightarrow> dom D \<inter> set vis = {} \<Longrightarrow>
     D \<subseteq>\<^sub>m D' \<and> memo_ok deps D' \<and> dom D' \<inter> set vis = {} \<and> set js \<subseteq> dom D' \<and> d = step_max D' e js"
proof (induction n deps label D vis trail i and n deps label D vis trail js e
    arbitrary: d D' and d D' rule: level_level_deps.induct)
  case (2 n deps label D vis trail i)
  show ?case
  proof (cases "D i")
    case (Some x)
    then show ?thesis using 2 by auto
  next
    case None
    with 2 obtain E where i: "i \<notin> set vis"
      and l: "level_deps n deps label D (i # vis) (trail @ [label i]) (deps i) 0 = Inr (d, E)"
      and d: "d < MaxChainDepth" and D': "D' = E(i \<mapsto> d)"
      by (auto split: if_splits sum.splits)
    from None 2 have "dom D \<inter> set (i # vis) = {}" by auto
    with 2 None i l have E: "D \<subseteq>\<^sub>m E" "memo_ok deps E" "dom E \<inter> set (i # vis) = {}"
      "set (deps i) \<subseteq> dom E" "d = step_max E 0 (deps i)" by auto
    moreover from E have "i \<notin> dom E" by auto
    ultimately have "memo_ok deps D'" unfolding D' by (intro memo_ok_upd d)
    moreover have "E \<subseteq>\<^sub>m D'" using E unfolding D' by (auto simp: map_le_def)
    moreover have "D' i = Some d" "dom D' \<inter> set vis = {}" using E i unfolding D' by auto
    ultimately show ?thesis using E map_le_trans [of D E D'] by blast
  qed
next
  case (4 n deps label D vis trail j js e)
  then obtain dd E where l: "level n deps label D vis trail j = Inr (dd, E)"
    and r: "level_deps n deps label E vis trail js (max e (Suc dd)) = Inr (d, D')"
    by (auto split: sum.splits)
  from "4.IH"(1) [OF l] "4.prems" have E: "D \<subseteq>\<^sub>m E" "memo_ok deps E" "dom E \<inter> set vis = {}" "E j = Some dd" by auto
  from "4.IH"(2) [OF l refl r E(2,3)] have F: "E \<subseteq>\<^sub>m D'" "memo_ok deps D'" "dom D' \<inter> set vis = {}" "set js \<subseteq> dom D'"
    "d = step_max D' (max e (Suc dd)) js" by auto
  from E(4) F(1) have "D' j = Some dd" by (force simp: map_le_def)
  with E F show ?case by (auto simp: step_max_def max.commute intro: map_le_trans)
qed (auto simp: step_max_def)

lemma all_levels_spec:
  "all_levels n deps label D is = Inr D' \<Longrightarrow> memo_ok deps D \<Longrightarrow> D \<subseteq>\<^sub>m D' \<and> memo_ok deps D' \<and> set is \<subseteq> dom D'"
proof (induction "is" arbitrary: D)
  case (Cons i "is")
  then obtain d E where l: "level n deps label D [] [] i = Inr (d, E)" and r: "all_levels n deps label E is = Inr D'"
    by (auto split: sum.splits)
  from level_spec(1) [OF l] Cons.prems have E: "D \<subseteq>\<^sub>m E" "memo_ok deps E" "E i = Some d" by auto
  from Cons.IH [OF r E(2)] have F: "E \<subseteq>\<^sub>m D'" "memo_ok deps D'" "set is \<subseteq> dom D'" by auto
  with E have "D' i = Some d" by (force simp: map_le_def)
  with E F show ?case by (auto intro: map_le_trans)
qed simp

section \<open>Failures\<close>

text \<open>The fuel covers every trail: the resolvents on it are distinct.\<close>

lemma level_fuel:
  "\<forall>i < N. set (deps i) \<subseteq> {..<N} \<Longrightarrow> distinct vis \<Longrightarrow> set vis \<subseteq> {..<N} \<Longrightarrow> i < N \<Longrightarrow> N < n + length vis \<Longrightarrow>
   level n deps label D vis trail i \<noteq> Inl OutOfFuel"
  "\<forall>i < N. set (deps i) \<subseteq> {..<N} \<Longrightarrow> distinct vis \<Longrightarrow> set vis \<subseteq> {..<N} \<Longrightarrow> set js \<subseteq> {..<N} \<Longrightarrow> N < n + length vis \<Longrightarrow>
   level_deps n deps label D vis trail js e \<noteq> Inl OutOfFuel"
proof (induction n deps label D vis trail i and n deps label D vis trail js e rule: level_level_deps.induct)
  case (1 deps label D vis trail i)
  then have "card (set vis) \<le> card {..<N}" by (intro card_mono) auto
  with 1 show ?case by (simp add: distinct_card)
next
  case (2 n deps label D vis trail i)
  then show ?case by (auto split: option.splits sum.splits)
next
  case (4 n deps label D vis trail j js e)
  then show ?case by (auto split: sum.splits)
qed simp

lemma all_levels_fuel:
  assumes "\<forall>i < N. set (deps i) \<subseteq> {..<N}" "set is \<subseteq> {..<N}" "N < n"
  shows "all_levels n deps label D is \<noteq> Inl OutOfFuel"
  using assms(2)
proof (induction "is" arbitrary: D)
  case (Cons i "is")
  then have "level n deps label D [] [] i \<noteq> Inl OutOfFuel" by (intro level_fuel [OF assms(1)]) (use assms in auto)
  with Cons show ?case by (auto split: sum.splits)
qed simp

text \<open>An assignment of ranks below the limit that grows along references.\<close>

definition ranking :: "nat \<Rightarrow> (nat \<Rightarrow> nat list) \<Rightarrow> (nat \<Rightarrow> nat) \<Rightarrow> bool" where
  "ranking N deps rk \<longleftrightarrow> (\<forall>i < N. rk i < MaxChainDepth \<and> (\<forall>j \<in> set (deps i). j < N \<and> rk j < rk i))"

lemma level_ranked:
  "ranking N deps rk \<Longrightarrow> \<forall>i d. D i = Some d \<longrightarrow> d \<le> rk i \<Longrightarrow> \<forall>v \<in> set vis. rk i < rk v \<Longrightarrow> i < N \<Longrightarrow>
   level n deps label D vis trail i = Inl OutOfFuel \<or>
   (\<exists>d D'. level n deps label D vis trail i = Inr (d, D') \<and> d \<le> rk i \<and> (\<forall>i d. D' i = Some d \<longrightarrow> d \<le> rk i))"
  "ranking N deps rk \<Longrightarrow> \<forall>i d. D i = Some d \<longrightarrow> d \<le> rk i \<Longrightarrow> \<forall>j \<in> set js. j < N \<and> rk j < b \<and> (\<forall>v \<in> set vis. rk j < rk v) \<Longrightarrow> e \<le> b \<Longrightarrow>
   level_deps n deps label D vis trail js e = Inl OutOfFuel \<or>
   (\<exists>d D'. level_deps n deps label D vis trail js e = Inr (d, D') \<and> d \<le> b \<and> (\<forall>i d. D' i = Some d \<longrightarrow> d \<le> rk i))"
proof (induction n deps label D vis trail i and n deps label D vis trail js e
    arbitrary: and b rule: level_level_deps.induct)
  case (2 n deps label D vis trail i)
  show ?case
  proof (cases "D i")
    case None
    have i: "i \<notin> set vis" using "2.prems"(3) by auto
    have "\<forall>j \<in> set (deps i). j < N \<and> rk j < rk i \<and> (\<forall>v \<in> set (i # vis). rk j < rk v)"
      using "2.prems" by (fastforce simp: ranking_def intro: less_trans)
    from "2.IH" [OF None i "2.prems"(1,2) this]
    consider "level_deps n deps label D (i # vis) (trail @ [label i]) (deps i) 0 = Inl OutOfFuel"
      | d E where "level_deps n deps label D (i # vis) (trail @ [label i]) (deps i) 0 = Inr (d, E)"
        "d \<le> rk i" "\<forall>i d. E i = Some d \<longrightarrow> d \<le> rk i" by auto
    moreover have "rk i < MaxChainDepth" using "2.prems"(1,4) by (simp add: ranking_def)
    ultimately show ?thesis by cases (use i None in auto)
  qed (use 2 in auto)
next
  case (4 n deps label D vis trail j js e)
  from "4.prems" have "level n deps label D vis trail j = Inl OutOfFuel \<or>
    (\<exists>d D'. level n deps label D vis trail j = Inr (d, D') \<and> d \<le> rk j \<and> (\<forall>i d. D' i = Some d \<longrightarrow> d \<le> rk i))"
    by (intro "4.IH"(1)) auto
  then show ?case
  proof (elim disjE exE conjE)
    fix d D'
    assume l: "level n deps label D vis trail j = Inr (d, D')" "d \<le> rk j" "\<forall>i d. D' i = Some d \<longrightarrow> d \<le> rk i"
    from l(2) "4.prems"(3,4) have "max e (Suc d) \<le> b" by auto
    from "4.IH"(2) [OF l(1) refl "4.prems"(1) l(3) _ this] "4.prems"(3) l(1) show ?thesis by auto
  qed simp
qed auto

lemma all_levels_ranked:
  assumes "ranking N deps rk" "\<forall>i d. D i = Some d \<longrightarrow> d \<le> rk i" "set is \<subseteq> {..<N}"
  shows "all_levels n deps label D is = Inl OutOfFuel \<or> (\<exists>D'. all_levels n deps label D is = Inr D')"
  using assms(2,3)
proof (induction "is" arbitrary: D)
  case (Cons i "is")
  then consider "level n deps label D [] [] i = Inl OutOfFuel"
    | d E where "level n deps label D [] [] i = Inr (d, E)" "\<forall>i d. E i = Some d \<longrightarrow> d \<le> rk i"
    using level_ranked(1) [OF assms(1) Cons.prems(1), of "[]" i n label "[]"] by auto
  then show ?case by cases (use Cons in auto)
qed simp

section \<open>Grouping\<close>

lemma group_levels_eq:
  "group_levels f is = map (\<lambda>k. filter (\<lambda>i. f i = k) is) [0..<fold max (map (\<lambda>i. Suc (f i)) is) 0]"
proof (induction "is" rule: rev_induct)
  case (snoc x "is")
  define M where "M = fold max (map (\<lambda>i. Suc (f i)) is) 0"
  have lt: "f i < M" if "i \<in> set is" for i
    using that fold_max_le [of "map (\<lambda>i. Suc (f i)) is" 0 M] unfolding M_def by (force simp: Suc_le_eq)
  have high: "M \<le> k \<Longrightarrow> filter (\<lambda>i. f i = k) is = []" for k
    using lt by (force simp: filter_empty_conv)
  have "group_levels f (is @ [x]) = add_level (map (\<lambda>k. filter (\<lambda>i. f i = k) is) [0..<M]) (f x) x"
    using snoc by (simp add: group_levels_def M_def)
  also have "\<dots> = map (\<lambda>k. filter (\<lambda>i. f i = k) (is @ [x])) [0..<max M (Suc (f x))]"
    by (rule nth_equalityI) (auto simp: add_level_def Let_def nth_append nth_list_update high max_def)
  finally show ?case by (simp add: M_def max.commute)
qed (simp add: group_levels_def)

section \<open>Bindings\<close>

lemma bind_site_ok:
  "bind_site fs i site = Inr (from, j) \<Longrightarrow> j < length fs \<and> j \<noteq> i \<and> fd_name (fs ! j) = from \<and> named fs from = [j]"
  by (auto simp: bind_site_def bind_ref_def split: sum.splits list.splits if_splits)
    (force simp: named_def filter_eq_Cons_iff dest: arg_cong [where f = set])+

lemma bind_all_ok:
  assumes "bind_all fs i = Inr bs" "(from, j) \<in> set bs"
  shows "j < length fs \<and> j \<noteq> i \<and> fd_name (fs ! j) = from \<and> named fs from = [j]"
proof -
  let ?sites = "walkRefs (JObj (fd_object (fs ! i))) (fd_path (fs ! i)) []"
  from assms obtain k where "k < length bs" "bs ! k = (from, j)" by (auto simp: in_set_conv_nth)
  with assms(1) have "bind_site fs i (?sites ! k) = Inr (from, j)"
    unfolding bind_all_def by (metis traverse_length traverse_nth)
  then show ?thesis by (rule bind_site_ok)
qed

lemma dep_order_set:
  assumes "bind_all fs i = Inr bs"
  shows "set (dep_order bs) = snd ` set bs"
proof -
  have "map_of bs n = Some j" if "(n, j) \<in> set bs" for n j
  proof -
    from that obtain j' where j': "map_of bs n = Some j'" by (metis map_of_eq_None_iff option.exhaust fst_conv image_eqI)
    then show ?thesis using bind_all_ok [OF assms that] bind_all_ok [OF assms map_of_SomeD [OF j']] by simp
  qed
  then show ?thesis unfolding dep_order_def by (force simp: image_iff)
qed

lemma traverse_total: "\<forall>x \<in> set xs. \<exists>y. f x = Inr y \<Longrightarrow> \<exists>ys. traverse f w i xs = Inr ys"
proof (induction xs arbitrary: i)
  case (Cons x xs)
  then obtain y ys where "f x = Inr y" "traverse f w (Suc i) xs = Inr ys" by (metis list.set_intros)
  then show ?case by simp
qed simp

section \<open>The order of a chain\<close>

text \<open>The bindings of each resolvent, when every reference binds.\<close>

definition bindings :: "found list \<Rightarrow> nat \<Rightarrow> (string \<times> nat) list" where
  "bindings fs i = (if i < length fs then case bind_all fs i of Inl _ \<Rightarrow> [] | Inr bs \<Rightarrow> bs else [])"

lemma Chain_unfold:
  assumes "\<forall>i < length fs. \<exists>bs. bind_all fs i = Inr bs"
  shows "Chain fs = (case all_levels (Suc (length fs)) (\<lambda>i. dep_order (bindings fs i)) (\<lambda>i. fd_label (fs ! i))
           (\<lambda>_. None) [0..<length fs] of
       Inl e \<Rightarrow> Inl e
     | Inr depth \<Rightarrow> Inr (bindings fs, group_levels (\<lambda>i. the (depth i)) [0..<length fs]))"
proof -
  from assms obtain bs where t: "traverse (bind_all fs) (\<lambda>_ e. e) 0 [0..<length fs] = Inr bs"
    using traverse_total [of "[0..<length fs]" "bind_all fs" "\<lambda>_ e. e" 0] by auto
  have len: "length bs = length fs" using traverse_length [OF t] by simp
  have "bind_all fs i = Inr (bs ! i)" if "i < length fs" for i
    using traverse_nth [OF t, of i] that by simp
  then have eq: "(\<lambda>i. if i < length bs then bs ! i else []) = bindings fs"
    by (auto simp: bindings_def len fun_eq_iff)
  have deps: "(\<lambda>i. if i < length bs then dep_order (bs ! i) else []) = (\<lambda>i. dep_order (bindings fs i))"
    unfolding eq [symmetric] by (auto simp: fun_eq_iff dep_order_def)
  show ?thesis unfolding Chain_def t by (simp only: sum.case Let_def eq deps)
qed

lemma Chain_binds: "Chain fs = Inr r \<Longrightarrow> \<forall>i < length fs. \<exists>bs. bind_all fs i = Inr bs"
proof (intro allI impI)
  fix i assume "Chain fs = Inr r" "i < length fs"
  then obtain bs where t: "traverse (bind_all fs) (\<lambda>_ e. e) 0 [0..<length fs] = Inr bs"
    by (auto simp: Chain_def split: sum.splits)
  from traverse_nth [OF t, of i] \<open>i < length fs\<close> show "\<exists>bs. bind_all fs i = Inr bs" by auto
qed

lemma bindings_deps:
  assumes "\<forall>i < length fs. \<exists>bs. bind_all fs i = Inr bs"
  shows "set (dep_order (bindings fs i)) = snd ` set (bindings fs i)"
    and "(n, j) \<in> set (bindings fs i) \<Longrightarrow> j < length fs \<and> fd_name (fs ! j) = n \<and> j \<noteq> i"
proof -
  show "set (dep_order (bindings fs i)) = snd ` set (bindings fs i)"
  proof (cases "i < length fs")
    case True
    with assms obtain bs where "bind_all fs i = Inr bs" by auto
    with True dep_order_set [of fs i bs] show ?thesis by (simp add: bindings_def)
  qed (simp add: bindings_def dep_order_def)
  show "(n, j) \<in> set (bindings fs i) \<Longrightarrow> j < length fs \<and> fd_name (fs ! j) = n \<and> j \<noteq> i"
  proof (cases "i < length fs")
    case True
    with assms obtain bs where bs: "bind_all fs i = Inr bs" by auto
    assume "(n, j) \<in> set (bindings fs i)"
    with True bs show ?thesis using bind_all_ok [OF bs, of n j] by (simp add: bindings_def)
  qed (simp add: bindings_def)
qed

lemma step_max_pred: "step_max D 0 js = Suc k \<Longrightarrow> \<exists>j \<in> set js. the (D j) = k"
proof -
  have *: "fold max ns (m::nat) = m \<or> fold max ns m \<in> set ns" for ns m
  proof (induction ns arbitrary: m)
    case (Cons a ns)
    from Cons [of "max a m"] show ?case by (auto simp: max_def split: if_splits)
  qed simp
  assume "step_max D 0 js = Suc k"
  with * [of "map (\<lambda>j. Suc (the (D j))) js" 0] show ?thesis by (auto simp: step_max_def)
qed

lemma step_max_less: "j \<in> set js \<Longrightarrow> the (D j) < step_max D e js"
  using fold_max_le [of "map (\<lambda>j. Suc (the (D j))) js" e "step_max D e js"] by (auto simp: step_max_def Suc_le_eq)

text \<open>C28: The levels of a chain hold every resolvent once, in document order, in at most eight levels;
  every reference points into an earlier level to the resolvent of that name, and a resolvent beyond
  the first level refers into the level directly before it.\<close>

theorem Chain_levels:
  assumes "Chain fs = Inr (bs, lv)"
  shows "length lv \<le> MaxChainDepth \<and>
    (\<forall>i < length fs. \<exists>!k. k < length lv \<and> i \<in> set (lv ! k)) \<and>
    (\<forall>k < length lv. lv ! k = filter (\<lambda>i. i \<in> set (lv ! k)) [0..<length fs] \<and>
      (\<forall>i \<in> set (lv ! k).
         (\<forall>(name, j) \<in> set (bs i). fd_name (fs ! j) = name \<and> (\<exists>k' < k. j \<in> set (lv ! k'))) \<and>
         (0 < k \<longrightarrow> (\<exists>(name, j) \<in> set (bs i). j \<in> set (lv ! (k - 1))))))"
proof -
  let ?N = "[0..<length fs]" and ?deps = "\<lambda>i. dep_order (bindings fs i)"
  note binds = Chain_binds [OF assms]
  from assms obtain D where al: "all_levels (Suc (length fs)) ?deps (\<lambda>i. fd_label (fs ! i)) (\<lambda>_. None) ?N = Inr D"
    and bs: "bs = bindings fs" and lv: "lv = group_levels (\<lambda>i. the (D i)) ?N"
    unfolding Chain_unfold [OF binds] by (auto split: sum.splits)
  have memo: "memo_ok ?deps D" and dom: "{..<length fs} \<subseteq> dom D"
    using all_levels_spec [OF al] by (auto simp: memo_ok_def atLeast0LessThan [symmetric])
  let ?f = "\<lambda>i. the (D i)" and ?M = "fold max (map (\<lambda>i. Suc (the (D i))) ?N) 0"
  have lv_eq: "lv = map (\<lambda>k. filter (\<lambda>i. ?f i = k) ?N) [0..<?M]" unfolding lv by (rule group_levels_eq)
  have less: "?f i < ?M" if "i < length fs" for i
    using step_max_less [of i ?N D 0] that by (simp add: step_max_def)
  have depth: "?f i < MaxChainDepth" "?f i = step_max D 0 (?deps i)" if "i < length fs" for i
    using memo dom that unfolding memo_ok_def by (force, force)
  have dep: "j < length fs \<and> ?f j < ?f i" if "(n, j) \<in> set (bs i)" "i < length fs" for n i j
  proof -
    have "j \<in> set (?deps i)" using bindings_deps(1) [OF binds, of i] that by (force simp: bs)
    then show ?thesis using bindings_deps(2) [OF binds] that depth(2) [OF that(2)] step_max_less [of j "?deps i" D 0]
      by (auto simp: bs)
  qed
  have prev: "\<exists>(n, j) \<in> set (bs i). j < length fs \<and> ?f j = ?f i - 1" if "i < length fs" "0 < ?f i" for i
  proof -
    from that depth(2) [of i] have "step_max D 0 (?deps i) = Suc (?f i - 1)" by simp
    then obtain j where "j \<in> set (?deps i)" "?f j = ?f i - 1" by (auto dest: step_max_pred)
    with bindings_deps(1) [OF binds, of i] bindings_deps(2) [OF binds] show ?thesis by (force simp: bs)
  qed
  have mem: "i \<in> set (lv ! k) \<longleftrightarrow> i < length fs \<and> ?f i = k" if "k < length lv" for i k
    using that by (auto simp: lv_eq)
  have len: "length lv = ?M" by (simp add: lv_eq)
  have "?M \<le> MaxChainDepth" using depth(1) by (simp add: fold_max_le Suc_le_eq)
  moreover have "lv ! k = filter (\<lambda>i. i \<in> set (lv ! k)) ?N" if "k < length lv" for k
    using that by (auto simp: lv_eq intro: filter_cong)
  moreover have "\<exists>!k. k < length lv \<and> i \<in> set (lv ! k)" if "i < length fs" for i
    using less [OF that] mem that by (auto simp: len)
  moreover have "fd_name (fs ! j) = n \<and> (\<exists>k' < k. j \<in> set (lv ! k'))"
    if "k < length lv" "i \<in> set (lv ! k)" "(n, j) \<in> set (bs i)" for k i n j
    using that mem dep bindings_deps(2) [OF binds] unfolding bs by (metis less_trans)
  moreover have "\<exists>(n, j) \<in> set (bs i). j \<in> set (lv ! (k - 1))"
    if "k < length lv" "i \<in> set (lv ! k)" "0 < k" for k i
    using that mem prev [of i] by fastforce
  ultimately show ?thesis by (auto simp: len)
qed


section \<open>A chain of two\<close>

definition demo_found :: "string \<Rightarrow> string \<Rightarrow> fields \<Rightarrow> found" where
  "demo_found typ nm obj = \<lparr>fd_type = typ, fd_hash = '''', fd_object = obj, fd_input = obj, fd_path = ''/ts/'' @ nm,
     fd_name = nm, fd_slot = [Key ''ts'', Key nm]\<rparr>"

definition demo_chain :: "found list" where
  "demo_chain =
     [demo_found ''resolvent-heat'' ''heat'' [(''code'', JObj [(''$from'', JStr ''building''), (''path'', JStr ''variant'')])],
      demo_found ''resolvent-building'' ''building'' [(''id'', JNum ''7'')]]"

lemma demo_chain_bind: "bind_all demo_chain 0 = Inr [(''building'', 1)]" "bind_all demo_chain 1 = Inr []"
  by code_simp+

lemma demo_chain_levels: "\<exists>bs. Chain demo_chain = Inr (bs, [[1], [0]])"
proof -
  have "map_sum id snd (Chain demo_chain) = Inr [[1], [0]]" by code_simp
  then show ?thesis by (cases "Chain demo_chain") auto
qed

theorem Chain_levels_witness:
  "\<exists>bs. Chain demo_chain = Inr (bs, [[1], [0]]) \<and> (\<forall>(name, j) \<in> set (bs 0). fd_name (demo_chain ! j) = name \<and> j = 1)"
proof -
  obtain bs where c: "Chain demo_chain = Inr (bs, [[1], [0]])" using demo_chain_levels by blast
  from Chain_levels [OF c, THEN conjunct2, THEN conjunct2, rule_format, of 1]
  have "\<forall>(name, j) \<in> set (bs 0). fd_name (demo_chain ! j) = name \<and> (\<exists>k' < 1. j \<in> set ([[1], [0]] ! k'))"
    by simp
  with c show ?thesis by auto
qed


end
