(* ===== verification/Config.thy ===== *)
theory Config
  imports Resolver Scheduler
begin

text \<open>
  \<^verbatim>\<open>internal/config/config.go\<close>: the configuration, its defaults and the accessors the other
  components call. A Go map of the configuration is the list of its entries in key order; pointers and
  nil-able maps and slices are options. Durations are 64-bit numbers of nanoseconds; \<open>wrap64\<close> is written
  where the source adds or shifts them. Decoding YAML (a library) is not modelled: the decoded
  configuration is the input of \<open>applyDefaults\<close>.
\<close>

section \<open>Sixty-four bit integers\<close>

definition wrap64 :: "int \<Rightarrow> int" where
  "wrap64 x = (x + 2 ^ 63) mod 2 ^ 64 - 2 ^ 63"

lemma wrap64_id: "- (2 ^ 63) \<le> x \<Longrightarrow> x < 2 ^ 63 \<Longrightarrow> wrap64 x = x"
  unfolding wrap64_def by simp

lemma wrap64_range: "- (2 ^ 63) \<le> wrap64 x \<and> wrap64 x < 2 ^ 63"
  unfolding wrap64_def by simp

section \<open>Types\<close>

record cors_section =
  co_origins :: "string list"
  co_headers :: "string list"
  co_expose :: "string list"
  co_credentials :: bool
  co_max_age :: "duration option"
  co_private :: bool

record server_cfg =
  sv_addr :: string
  sv_read_timeout :: duration
  sv_write_timeout :: duration
  sv_shutdown_grace :: duration
  sv_max_body :: int
  sv_metrics_addr :: string
  sv_log_level :: string
  sv_cors :: cors_section

definition RoleClient :: string where "RoleClient = ''client''"
definition RoleAdmin :: string where "RoleAdmin = ''admin''"

record api_key =
  ak_name :: string
  ak_key :: string
  ak_previous :: string
  ak_role :: string
  ak_max_concurrent :: int
  ak_max_queued :: int
  ak_max_schedules :: "int option"
  ak_max_priority :: "int option"

definition MinPriority :: int where "MinPriority = -10"
definition MaxPriority :: int where "MaxPriority = 10"

record storage_cfg =
  sg_path :: string
  sg_results_dir :: string
  sg_retention :: duration
  sg_max_result :: int

record worker_cfg =
  wk_count :: int
  wk_resolvent_concurrency :: int
  wk_poll_interval :: duration
  wk_max_attempts :: int
  wk_backoff_base :: duration
  wk_backoff_max :: duration
  wk_job_timeout :: duration
  wk_scheduler_interval :: duration

record callbacks_cfg =
  cb_hosts :: "string list"
  cb_secret :: string
  cb_max_attempts :: int
  cb_timeout :: duration

record cache_cfg =
  ca_default_ttl :: duration
  ca_cleanup :: duration

definition InjectNone :: string where "InjectNone = ''none''"
definition InjectBodyField :: string where "InjectBodyField = ''body_field''"
definition InjectHeader :: string where "InjectHeader = ''header''"
definition ModeDirect :: string where "ModeDirect = ''direct''"
definition ModePoll :: string where "ModePoll = ''poll''"
definition RootTimeseriesPath :: string where "RootTimeseriesPath = ''.''"

record poll_cfg =
  po_id_path :: string
  po_url :: string
  po_result_url :: string
  po_cancel_url :: string
  po_status_path :: string
  po_done :: "string list"
  po_failed :: "string list"
  po_interval :: duration
  po_timeout :: duration
  po_result_timeout :: duration

record response_cfg =
  re_mode :: string
  re_poll :: "poll_cfg option"

record target_cfg =
  tg_url :: string
  tg_method :: string
  tg_api_key :: string
  tg_inject :: string
  tg_key_field :: string
  tg_key_header :: string
  tg_timeout :: duration
  tg_job_timeout :: duration
  tg_max_attempts :: int
  tg_retry_on_timeout :: "bool option"
  tg_ts_path :: string
  tg_attach :: "bool option"
  tg_proxy :: bool
  tg_response :: response_cfg

record resolvent_cfg =
  rv_url :: string
  rv_method :: string
  rv_api_key :: string
  rv_key_header :: string
  rv_timeout :: duration
  rv_cache_ttl :: duration
  rv_target :: string
  rv_payload_field :: string
  rv_response_path :: string
  rv_query_map :: "(string \<times> string) list option"
  rv_cache_ignore :: "string list option"
  rv_response_map :: "fields option"

record config =
  cf_server :: server_cfg
  cf_keys :: "api_key list"
  cf_storage :: storage_cfg
  cf_worker :: worker_cfg
  cf_cache :: cache_cfg
  cf_max_response :: int
  cf_callbacks :: callbacks_cfg
  cf_targets :: "(string \<times> target_cfg) list"
  cf_resolvents :: "(string \<times> resolvent_cfg) list"

abbreviation target_of :: "config \<Rightarrow> string \<Rightarrow> target_cfg option" where
  "target_of c name \<equiv> map_of (cf_targets c) name"

abbreviation resolvent_of :: "config \<Rightarrow> string \<Rightarrow> resolvent_cfg option" where
  "resolvent_of c typ \<equiv> map_of (cf_resolvents c) typ"

section \<open>Limits per client\<close>

definition MaxQueuedFor :: "config \<Rightarrow> string \<Rightarrow> int" where
  "MaxQueuedFor c client = (case find (\<lambda>k. ak_name k = client) (cf_keys c) of None \<Rightarrow> 0 | Some k \<Rightarrow> ak_max_queued k)"

definition DefaultMaxSchedules :: int where "DefaultMaxSchedules = 100"

definition MaxSchedulesFor :: "config \<Rightarrow> string \<Rightarrow> int" where
  "MaxSchedulesFor c client =
     (case find (\<lambda>k. ak_name k = client \<and> ak_max_schedules k \<noteq> None) (cf_keys c) of
        None \<Rightarrow> DefaultMaxSchedules | Some k \<Rightarrow> the (ak_max_schedules k))"

definition HasConcurrencyCeilings :: "config \<Rightarrow> bool" where
  "HasConcurrencyCeilings c \<longleftrightarrow> (\<exists>k \<in> set (cf_keys c). 0 < ak_max_concurrent k)"

definition MaxConcurrentFor :: "config \<Rightarrow> string \<Rightarrow> int" where
  "MaxConcurrentFor c client =
     (case find (\<lambda>k. ak_name k = client) (cf_keys c) of None \<Rightarrow> 0 | Some k \<Rightarrow> ak_max_concurrent k)"

definition MaxPriorityFor :: "config \<Rightarrow> string \<Rightarrow> int" where
  "MaxPriorityFor c client =
     (case find (\<lambda>k. ak_name k = client \<and> ak_max_priority k \<noteq> None) (cf_keys c) of
        None \<Rightarrow> MaxPriority | Some k \<Rightarrow> the (ak_max_priority k))"

section \<open>Limits per target\<close>

definition RetriesOnTimeout :: "target_cfg \<Rightarrow> bool" where
  "RetriesOnTimeout t \<longleftrightarrow> tg_retry_on_timeout t = None \<or> tg_retry_on_timeout t = Some True"

definition JobTimeoutFor :: "config \<Rightarrow> string \<Rightarrow> duration" where
  "JobTimeoutFor c target = (case target_of c target of
     Some t \<Rightarrow> if 0 < tg_job_timeout t then tg_job_timeout t else wk_job_timeout (cf_worker c)
   | None \<Rightarrow> wk_job_timeout (cf_worker c))"

definition MaxAttemptsFor :: "config \<Rightarrow> string \<Rightarrow> int" where
  "MaxAttemptsFor c target = (case target_of c target of
     Some t \<Rightarrow> if 0 < tg_max_attempts t then tg_max_attempts t else wk_max_attempts (cf_worker c)
   | None \<Rightarrow> wk_max_attempts (cf_worker c))"

definition DefaultResultTimeout :: duration where "DefaultResultTimeout = 10 * minute"

definition ResultBudget :: "poll_cfg \<Rightarrow> duration" where
  "ResultBudget p = (if 0 < po_result_timeout p then po_result_timeout p else DefaultResultTimeout)"

definition DefaultCacheIgnoreFields :: "string list" where "DefaultCacheIgnoreFields = [''name'']"

definition CacheIgnore :: "resolvent_cfg \<Rightarrow> string list" where
  "CacheIgnore r = (case rv_cache_ignore r of None \<Rightarrow> DefaultCacheIgnoreFields | Some fs \<Rightarrow> fs)"

definition CallbacksEnabled :: "callbacks_cfg \<Rightarrow> bool" where
  "CallbacksEnabled c \<longleftrightarrow> 0 < length (cb_hosts c)"

datatype log_level = LevelDebug | LevelInfo | LevelWarn | LevelError

definition SlogLevel :: "server_cfg \<Rightarrow> log_level" where
  "SlogLevel s = (if sv_log_level s = ''debug'' then LevelDebug else if sv_log_level s = ''warn'' then LevelWarn
     else if sv_log_level s = ''error'' then LevelError else LevelInfo)"

section \<open>Defaults\<close>

definition or_default :: "'a \<Rightarrow> 'a \<Rightarrow> 'a \<Rightarrow> 'a" where
  "or_default zero def v = (if v = zero then def else v)"

definition setDur :: "duration \<Rightarrow> duration \<Rightarrow> duration" where
  "setDur def d = (if d = 0 then def else d)"

definition server_defaults :: "server_cfg \<Rightarrow> server_cfg" where
  "server_defaults s = s\<lparr>sv_addr := or_default '''' '':8080'' (sv_addr s),
     sv_read_timeout := setDur (10 * second) (sv_read_timeout s), sv_write_timeout := setDur (30 * second) (sv_write_timeout s),
     sv_shutdown_grace := setDur (20 * second) (sv_shutdown_grace s), sv_max_body := or_default 0 (10 * 2 ^ 20) (sv_max_body s),
     sv_log_level := or_default '''' ''info'' (sv_log_level s)\<rparr>"

definition auth_defaults :: "api_key list \<Rightarrow> api_key list" where
  "auth_defaults = map (\<lambda>k. k\<lparr>ak_role := or_default '''' RoleClient (ak_role k)\<rparr>)"

definition storage_defaults :: "storage_cfg \<Rightarrow> storage_cfg" where
  "storage_defaults s = s\<lparr>sg_path := or_default '''' ''./data/tentacron.db'' (sg_path s),
     sg_results_dir := or_default '''' ''./data/results'' (sg_results_dir s),
     sg_retention := setDur (720 * 60 * minute) (sg_retention s), sg_max_result := or_default 0 (2 ^ 30) (sg_max_result s)\<rparr>"

definition worker_defaults :: "worker_cfg \<Rightarrow> worker_cfg" where
  "worker_defaults w = w\<lparr>wk_count := or_default 0 4 (wk_count w),
     wk_resolvent_concurrency := or_default 0 4 (wk_resolvent_concurrency w),
     wk_poll_interval := setDur (2 * second) (wk_poll_interval w), wk_max_attempts := or_default 0 5 (wk_max_attempts w),
     wk_backoff_base := setDur (2 * second) (wk_backoff_base w), wk_backoff_max := setDur (60 * second) (wk_backoff_max w),
     wk_job_timeout := setDur (5 * minute) (wk_job_timeout w),
     wk_scheduler_interval := setDur (30 * second) (wk_scheduler_interval w)\<rparr>"

definition cache_defaults :: "cache_cfg \<Rightarrow> cache_cfg" where
  "cache_defaults c = c\<lparr>ca_default_ttl := setDur (6 * 60 * minute) (ca_default_ttl c),
     ca_cleanup := setDur (15 * minute) (ca_cleanup c)\<rparr>"

definition upstream_defaults :: "int \<Rightarrow> int" where
  "upstream_defaults n = or_default 0 (10 * 2 ^ 20) n"

definition callbacks_defaults :: "callbacks_cfg \<Rightarrow> callbacks_cfg" where
  "callbacks_defaults c = c\<lparr>cb_max_attempts := or_default 0 5 (cb_max_attempts c), cb_timeout := setDur (5 * second) (cb_timeout c)\<rparr>"

definition applyResolutionDefaults :: "target_cfg \<Rightarrow> target_cfg" where
  "applyResolutionDefaults t =
     (if tg_proxy t then t
      else t\<lparr>tg_ts_path := or_default '''' ''time-series'' (tg_ts_path t), tg_attach := or_default None (Some True) (tg_attach t)\<rparr>)"

definition applyAuthDefaults :: "target_cfg \<Rightarrow> target_cfg" where
  "applyAuthDefaults t =
     (let inject = (if tg_inject t = '''' then (if tg_api_key t = '''' then InjectNone else InjectHeader) else tg_inject t)
      in t\<lparr>tg_inject := inject,
           tg_key_field := (if inject = InjectBodyField \<and> tg_key_field t = '''' then ''api_key'' else tg_key_field t),
           tg_key_header := (if inject = InjectHeader \<and> tg_key_header t = '''' then ''X-API-Key'' else tg_key_header t)\<rparr>)"

definition poll_defaults :: "poll_cfg \<Rightarrow> poll_cfg" where
  "poll_defaults p = p\<lparr>po_interval := setDur (10 * second) (po_interval p), po_timeout := setDur (30 * minute) (po_timeout p),
     po_result_timeout := setDur DefaultResultTimeout (po_result_timeout p),
     po_result_url := or_default '''' (po_url p) (po_result_url p)\<rparr>"

definition applyResponseDefaults :: "target_cfg \<Rightarrow> target_cfg" where
  "applyResponseDefaults t =
     (let mode = or_default '''' ModeDirect (re_mode (tg_response t))
      in t\<lparr>tg_response := (tg_response t)\<lparr>re_mode := mode,
             re_poll := (if mode = ModePoll then map_option poll_defaults (re_poll (tg_response t)) else re_poll (tg_response t))\<rparr>\<rparr>)"

definition target_defaults :: "target_cfg \<Rightarrow> target_cfg" where
  "target_defaults t = applyResponseDefaults (applyAuthDefaults (applyResolutionDefaults
     (t\<lparr>tg_method := or_default '''' ''POST'' (tg_method t), tg_timeout := setDur (60 * second) (tg_timeout t)\<rparr>)))"

definition resolvent_defaults :: "duration \<Rightarrow> resolvent_cfg \<Rightarrow> resolvent_cfg" where
  "resolvent_defaults defaultTTL r =
     (let r' = (if rv_target r = ''''
                then r\<lparr>rv_method := or_default '''' ''POST'' (rv_method r),
                       rv_key_header := or_default '''' ''X-API-Key'' (rv_key_header r),
                       rv_timeout := setDur (30 * second) (rv_timeout r)\<rparr>
                else r)
      in r'\<lparr>rv_cache_ttl := (if rv_cache_ttl r' = 0 then defaultTTL else rv_cache_ttl r')\<rparr>)"

definition applyDefaults :: "config \<Rightarrow> config" where
  "applyDefaults c =
     (let cache = cache_defaults (cf_cache c)
      in c\<lparr>cf_server := server_defaults (cf_server c), cf_keys := auth_defaults (cf_keys c),
           cf_storage := storage_defaults (cf_storage c), cf_worker := worker_defaults (cf_worker c), cf_cache := cache,
           cf_max_response := upstream_defaults (cf_max_response c), cf_callbacks := callbacks_defaults (cf_callbacks c),
           cf_targets := map (map_prod id target_defaults) (cf_targets c),
           cf_resolvents := map (map_prod id (resolvent_defaults (ca_default_ttl cache))) (cf_resolvents c)\<rparr>)"

section \<open>Credentials to redact\<close>

text \<open>Longest first; equally long ones in text order.\<close>

definition UpstreamSecrets :: "config \<Rightarrow> string list" where
  "UpstreamSecrets c =
     sort_key (\<lambda>s. (- int (length s), s))
       ((if cb_secret (cf_callbacks c) \<noteq> '''' then [cb_secret (cf_callbacks c)] else [])
        @ filter (\<lambda>s. s \<noteq> '''') (map (tg_api_key \<circ> snd) (cf_targets c))
        @ filter (\<lambda>s. s \<noteq> '''') (map (rv_api_key \<circ> snd) (cf_resolvents c)))"

section \<open>Environment references\<close>

text \<open>
  \<^verbatim>\<open>expandEnv\<close> over \<^verbatim>\<open>os.Expand\<close>: \<^verbatim>\<open>$$\<close> is a dollar sign, \<^verbatim>\<open>${NAME}\<close> and \<^verbatim>\<open>$NAME\<close> are replaced by the value of
  the variable; unset variables are collected, sorted and without repetition. \<open>shell_name\<close> is
  \<^verbatim>\<open>os.getShellName\<close>: the name at the start of the text and the bytes it takes.
\<close>

definition alnum :: "char \<Rightarrow> bool" where
  "alnum c \<longleftrightarrow> c = CHR ''_'' \<or> (CHR ''0'' \<le> c \<and> c \<le> CHR ''9'') \<or> (CHR ''a'' \<le> c \<and> c \<le> CHR ''z'') \<or> (CHR ''A'' \<le> c \<and> c \<le> CHR ''Z'')"

definition shell_special :: "char \<Rightarrow> bool" where
  "shell_special c \<longleftrightarrow> c \<in> set ''*#$@!?-0123456789''"

definition shell_name :: "string \<Rightarrow> string \<times> nat" where
  "shell_name s =
     (case s of
        [] \<Rightarrow> ([], 0)
      | c # r \<Rightarrow>
          if c = CHR ''{'' then
            (case r of
               d # e # _ \<Rightarrow>
                 if shell_special d \<and> e = CHR ''}'' then ([d], 3)
                 else let k = length (takeWhile (\<lambda>x. x \<noteq> CHR ''}'') r)
                      in if k = length r then ([], 1) else if k = 0 then ([], 2) else (take k r, k + 2)
             | _ \<Rightarrow>
                 let k = length (takeWhile (\<lambda>x. x \<noteq> CHR ''}'') r)
                 in if k = length r then ([], 1) else if k = 0 then ([], 2) else (take k r, k + 2))
          else if shell_special c then ([c], 1)
          else (takeWhile alnum s, length (takeWhile alnum s)))"

text \<open>The expanded text and the variables asked for that are unset.\<close>

function expand :: "(string \<Rightarrow> string option) \<Rightarrow> string \<Rightarrow> string \<times> string list" where
  "expand env [] = ([], [])"
| "expand env (c # r) =
     (if c = CHR ''$'' \<and> r \<noteq> [] then
        (let (name, w) = shell_name r; (out, missing) = expand env (drop w r)
         in if name = [] then ((if 0 < w then out else c # out), missing)
            else if name = ''$'' then (''$'' @ out, missing)
            else case env name of None \<Rightarrow> (out, name # missing) | Some v \<Rightarrow> (v @ out, missing))
      else let (out, missing) = expand env r in (c # out, missing))"
  by pat_completeness auto
termination
  by (relation "measure (length \<circ> snd)") auto

definition expandEnv :: "(string \<Rightarrow> string option) \<Rightarrow> string \<Rightarrow> string list + string" where
  "expandEnv env s = (let (out, missing) = expand env s
     in if missing \<noteq> [] then Inl (remdups_adj (sort missing)) else Inr out)"

end
