(* ===== verification/Cors.thy ===== *)
theory Cors
  imports Config
begin

text \<open>
  \<^verbatim>\<open>internal/cors/cors.go\<close>: the browser policy. A response header is a pair of a name and a
  value, in the order they were added; the request is its method and its header lookup
  (\<^verbatim>\<open>Header.Get\<close>, empty when absent). Letter case is that of ASCII, which is all that serialised
  origins, methods and header names contain. The wrapped handler is left out: \<open>ServeHTTP\<close> returns the
  headers it hands on, or its own answer.
\<close>

section \<open>Text\<close>

definition lower_char :: "char \<Rightarrow> char" where
  "lower_char c = (if CHR ''A'' \<le> c \<and> c \<le> CHR ''Z'' then char_of (of_char c + 32 :: nat) else c)"

definition upper_char :: "char \<Rightarrow> char" where
  "upper_char c = (if CHR ''a'' \<le> c \<and> c \<le> CHR ''z'' then char_of (of_char c - 32 :: nat) else c)"

definition ToLower :: "string \<Rightarrow> string" where "ToLower s = map lower_char s"
definition ToUpper :: "string \<Rightarrow> string" where "ToUpper s = map upper_char s"
definition EqualFold :: "string \<Rightarrow> string \<Rightarrow> bool" where "EqualFold s t \<longleftrightarrow> ToLower s = ToLower t"

text \<open>\<^verbatim>\<open>strings.Cut\<close> and \<^verbatim>\<open>strings.Index\<close>: the text before and after the first occurrence.\<close>

fun cut_at :: "string \<Rightarrow> string \<Rightarrow> (string \<times> string) option" where
  "cut_at sep [] = (if sep = [] then Some ([], []) else None)"
| "cut_at sep (c # s) = (if prefix sep (c # s) then Some ([], drop (length sep) (c # s))
     else map_option (apfst ((#) c)) (cut_at sep s))"

definition token_char :: "char \<Rightarrow> bool" where
  "token_char c \<longleftrightarrow> (CHR ''0'' \<le> c \<and> c \<le> CHR ''9'') \<or> (CHR ''a'' \<le> c \<and> c \<le> CHR ''z'') \<or> (CHR ''A'' \<le> c \<and> c \<le> CHR ''Z'')
     \<or> c \<in> set ''!#$%&*+-.^_|~'' \<or> c = CHR 0x27 \<or> c = CHR 0x60"

fun canon_chars :: "bool \<Rightarrow> string \<Rightarrow> string" where
  "canon_chars up [] = []"
| "canon_chars up (c # s) = (if up then upper_char c else lower_char c) # canon_chars (c = CHR ''-'') s"

definition CanonicalHeaderKey :: "string \<Rightarrow> string" where
  "CanonicalHeaderKey s = (if \<forall>c \<in> set s. token_char c then canon_chars True s else s)"

fun join_text :: "string \<Rightarrow> string list \<Rightarrow> string" where
  "join_text sep [] = []"
| "join_text sep [s] = s"
| "join_text sep (s # t # ss) = s @ sep @ join_text sep (t # ss)"

section \<open>Configuration\<close>

definition DefaultAllowedMethods :: "string list" where
  "DefaultAllowedMethods = [''GET'', ''HEAD'', ''POST'', ''DELETE'', ''OPTIONS'']"
definition DefaultAllowedHeaders :: "string list" where
  "DefaultAllowedHeaders = [''Content-Type'', ''X-API-Key'', ''Idempotency-Key'', ''X-Request-ID'', ''Range'', ''Authorization'']"
definition DefaultExposeHeaders :: "string list" where
  "DefaultExposeHeaders = [''X-Request-ID'', ''Allow'', ''Retry-After'', ''Content-Disposition'', ''Content-Length'',
     ''Content-Range'', ''Accept-Ranges'']"
definition DefaultMaxAge :: duration where "DefaultMaxAge = 10 * minute"

record cors_config =
  cc_origins :: "string list"
  cc_methods :: "string list"
  cc_headers :: "string list"
  cc_expose :: "string list"
  cc_credentials :: bool
  cc_max_age :: duration
  cc_private :: bool

definition CorsEnabled :: "cors_config \<Rightarrow> bool" where
  "CorsEnabled c \<longleftrightarrow> 0 < length (cc_origins c)"

definition AllowsAny :: "cors_config \<Rightarrow> bool" where
  "AllowsAny c \<longleftrightarrow> (\<exists>o' \<in> set (cc_origins c). o' = ''*'')"

definition Wildcards :: "cors_config \<Rightarrow> nat" where
  "Wildcards c = length (filter (\<lambda>o'. o' = ''*'' \<or> Contains o' ''://*.'') (cc_origins c))"

datatype cors_error =
  EmptyOrigin | OriginShape string | OriginScheme string | OriginPath string | OriginCredentials string | OriginStar string
| StarMethodsWithCredentials | StarExposeWithCredentials | StarOriginWithCredentials

definition ValidateOrigin :: "string \<Rightarrow> cors_error option" where
  "ValidateOrigin o' =
     (if o' = '''' then Some EmptyOrigin
      else if o' = ''*'' \<or> EqualFold o' ''null'' then None
      else case cut_at ''://'' o' of
        None \<Rightarrow> Some (OriginShape o')
      | Some (scheme, host) \<Rightarrow>
          if scheme = '''' \<or> host = '''' then Some (OriginShape o')
          else if scheme \<noteq> ''http'' \<and> scheme \<noteq> ''https'' then Some (OriginScheme o')
          else if \<exists>c \<in> set host. c \<in> set ''/?#'' then Some (OriginPath o')
          else if CHR ''@'' \<in> set host then Some (OriginCredentials o')
          else if CHR ''*'' \<in> set host \<and> (\<not> HasPrefix host ''*.'' \<or> length host < 3 \<or> CHR ''*'' \<in> set (drop 1 host))
            then Some (OriginStar o')
          else None)"

fun first_error :: "('a \<Rightarrow> 'e option) \<Rightarrow> 'a list \<Rightarrow> 'e option" where
  "first_error f [] = None"
| "first_error f (x # xs) = (case f x of Some e \<Rightarrow> Some e | None \<Rightarrow> first_error f xs)"

definition ValidateCors :: "cors_config \<Rightarrow> cors_error option" where
  "ValidateCors c =
     (if cc_credentials c \<and> ''*'' \<in> set (cc_methods c) then Some StarMethodsWithCredentials
      else if cc_credentials c \<and> ''*'' \<in> set (cc_expose c) then Some StarExposeWithCredentials
      else if cc_credentials c \<and> AllowsAny c then Some StarOriginWithCredentials
      else first_error ValidateOrigin (cc_origins c))"

section \<open>The policy\<close>

record wildcard =
  w_prefix :: string
  w_suffix :: string

definition wildcard_match :: "wildcard \<Rightarrow> string \<Rightarrow> bool" where
  "wildcard_match w origin \<longleftrightarrow> length (w_prefix w) + length (w_suffix w) < length origin
     \<and> HasPrefix origin (w_prefix w) \<and> HasSuffix origin (w_suffix w)"

record policy =
  p_enabled :: bool
  p_allow_all :: bool
  p_exact :: "string list"
  p_wildcards :: "wildcard list"
  p_credentials :: bool
  p_private :: bool
  p_methods :: string
  p_headers :: string
  p_headers_any :: bool
  p_expose :: string
  p_max_age :: string

definition joinHeaderList :: "string list \<Rightarrow> string list \<Rightarrow> (string \<Rightarrow> string) \<Rightarrow> string" where
  "joinHeaderList base extra canon =
     join_text '', '' (foldl (\<lambda>out v. let v' = canon v in if \<exists>have \<in> set out. EqualFold have v' then out else out @ [v']) base extra)"

definition split_wildcard :: "string \<Rightarrow> wildcard option" where
  "split_wildcard o' = map_option (\<lambda>(a, b). \<lparr>w_prefix = a @ ''://'', w_suffix = ''.'' @ b\<rparr>) (cut_at ''://*.'' o')"

definition newPolicy :: "cors_config \<Rightarrow> policy" where
  "newPolicy cfg =
     (let os = map ToLower (cc_origins cfg);
          rest = filter (\<lambda>o'. o' \<noteq> ''*'') os;
          methods = (if cc_methods cfg = [] then DefaultAllowedMethods else cc_methods cfg);
          any = (cc_headers cfg = [''*''])
      in \<lparr>p_enabled = CorsEnabled cfg, p_allow_all = (''*'' \<in> set os),
          p_exact = filter (\<lambda>o'. split_wildcard o' = None) rest,
          p_wildcards = List.map_filter split_wildcard rest,
          p_credentials = cc_credentials cfg, p_private = cc_private cfg,
          p_methods = joinHeaderList [] methods ToUpper,
          p_headers = (if any then '''' else joinHeaderList DefaultAllowedHeaders (cc_headers cfg) CanonicalHeaderKey),
          p_headers_any = any,
          p_expose = joinHeaderList DefaultExposeHeaders (cc_expose cfg) CanonicalHeaderKey,
          p_max_age = (if cc_max_age cfg < 0 then ''''
                       else if cc_max_age cfg = 0 then show_int (DefaultMaxAge div second)
                       else show_int (cc_max_age cfg div second))\<rparr>)"

definition originAllowed :: "policy \<Rightarrow> string \<Rightarrow> bool" where
  "originAllowed p origin \<longleftrightarrow> p_allow_all p \<or>
     (let o' = ToLower origin in o' \<in> set (p_exact p) \<or> (\<exists>w \<in> set (p_wildcards p). wildcard_match w o'))"

definition allowOriginValue :: "policy \<Rightarrow> string \<Rightarrow> string" where
  "allowOriginValue p origin = (if p_allow_all p \<and> \<not> p_credentials p then ''*'' else origin)"

definition Allows :: "policy \<Rightarrow> string \<Rightarrow> bool" where
  "Allows p origin \<longleftrightarrow> p_enabled p \<and> originAllowed p origin"

definition PolicyOf :: "cors_section \<Rightarrow> cors_config" where
  "PolicyOf c = \<lparr>cc_origins = co_origins c, cc_methods = [], cc_headers = co_headers c, cc_expose = co_expose c,
     cc_credentials = co_credentials c,
     cc_max_age = (case co_max_age c of None \<Rightarrow> 0 | Some d \<Rightarrow> if d = 0 then -1 else d),
     cc_private = co_private c\<rparr>"

section \<open>Serving\<close>

type_synonym headers = "(string \<times> string) list"

definition hdr_add :: "string \<Rightarrow> string \<Rightarrow> headers \<Rightarrow> headers" where
  "hdr_add k v h = h @ [(k, v)]"

definition hdr_set :: "string \<Rightarrow> string \<Rightarrow> headers \<Rightarrow> headers" where
  "hdr_set k v h = filter (\<lambda>e. fst e \<noteq> k) h @ [(k, v)]"

record http_request =
  rq_method :: string
  rq_header :: "string \<Rightarrow> string"

datatype cors_outcome = PassedOn headers | Answered nat headers

definition preflight :: "policy \<Rightarrow> http_request \<Rightarrow> string \<Rightarrow> headers \<Rightarrow> headers" where
  "preflight p r origin hdr =
     (let h1 = hdr_add ''Vary'' ''Access-Control-Request-Headers'' (hdr_add ''Vary'' ''Access-Control-Request-Method''
                 (hdr_add ''Vary'' ''Origin'' hdr))
      in if origin \<noteq> '''' \<and> originAllowed p origin then
           (let h2 = hdr_set ''Access-Control-Allow-Methods'' (p_methods p)
                       (hdr_set ''Access-Control-Allow-Origin'' (allowOriginValue p origin) h1);
                req = rq_header r ''Access-Control-Request-Headers'';
                h3 = (if p_headers_any p then (if req \<noteq> '''' then hdr_set ''Access-Control-Allow-Headers'' req h2 else h2)
                      else hdr_set ''Access-Control-Allow-Headers'' (p_headers p) h2);
                h4 = (if p_credentials p then hdr_set ''Access-Control-Allow-Credentials'' ''true'' h3 else h3);
                h5 = (if p_max_age p \<noteq> '''' then hdr_set ''Access-Control-Max-Age'' (p_max_age p) h4 else h4)
            in if p_private p \<and> rq_header r ''Access-Control-Request-Private-Network'' = ''true''
               then hdr_set ''Access-Control-Allow-Private-Network'' ''true'' h5 else h5)
         else h1)"

definition ServeHTTP :: "policy \<Rightarrow> http_request \<Rightarrow> headers \<Rightarrow> cors_outcome" where
  "ServeHTTP p r hdr =
     (if \<not> p_enabled p then PassedOn hdr
      else let origin = rq_header r ''Origin''
           in if rq_method r = ''OPTIONS'' \<and> rq_header r ''Access-Control-Request-Method'' \<noteq> ''''
              then Answered 204 (preflight p r origin hdr)
              else let h1 = hdr_add ''Vary'' ''Origin'' hdr
                   in if origin \<noteq> '''' \<and> originAllowed p origin then
                        (let h2 = hdr_set ''Access-Control-Allow-Origin'' (allowOriginValue p origin) h1;
                             h3 = (if p_credentials p then hdr_set ''Access-Control-Allow-Credentials'' ''true'' h2 else h2)
                         in PassedOn (hdr_set ''Access-Control-Expose-Headers'' (p_expose p) h3))
                      else PassedOn h1)"

section \<open>Which origins are admitted\<close>

text \<open>
  What a configured entry admits: \<open>*\<close> everything, a subdomain wildcard every origin with the same scheme
  whose host is a proper subdomain, any other entry the equal origin; letter case does not matter.
\<close>

definition entry_admits :: "string \<Rightarrow> string \<Rightarrow> bool" where
  "entry_admits entry origin \<longleftrightarrow> entry = ''*'' \<or>
     (if Contains (ToLower entry) ''://*.''
      then \<exists>scheme host sub. cut_at ''://*.'' (ToLower entry) = Some (scheme, host) \<and> sub \<noteq> '''' \<and>
             ToLower origin = scheme @ ''://'' @ sub @ ''.'' @ host
      else ToLower origin = ToLower entry)"

lemma cut_at_some: "cut_at sep s = Some (a, b) \<Longrightarrow> s = a @ sep @ b"
  by (induction sep s arbitrary: a rule: cut_at.induct) (auto simp: prefix_def split: if_splits)

lemma cut_at_none: "cut_at sep s = None \<longleftrightarrow> \<not> Contains s sep"
proof (induction sep s rule: cut_at.induct)
  case (2 sep c s)
  then show ?case by (auto simp: Contains_def sublist_Cons_right)
qed (auto simp: Contains_def)

lemma wildcard_match_iff:
  "wildcard_match w origin \<longleftrightarrow> (\<exists>sub. sub \<noteq> '''' \<and> origin = w_prefix w @ sub @ w_suffix w)"
proof
  assume "wildcard_match w origin"
  then have len: "length (w_prefix w) + length (w_suffix w) < length origin"
    and pre: "prefix (w_prefix w) origin" and suf: "suffix (w_suffix w) origin"
    by (auto simp: wildcard_match_def HasPrefix_def HasSuffix_def)
  from pre obtain r where r: "origin = w_prefix w @ r" by (rule prefixE)
  from suf obtain l where l: "origin = l @ w_suffix w" by (rule suffixE)
  from len l have long: "length (w_prefix w) < length l" by simp
  from r l have "w_prefix w @ r = l @ w_suffix w" by simp
  then consider us where "w_prefix w = l @ us" | us where "w_prefix w @ us = l"
    unfolding append_eq_append_conv2 by blast
  then show "\<exists>sub. sub \<noteq> '''' \<and> origin = w_prefix w @ sub @ w_suffix w"
  proof cases
    case 1
    then have "length l \<le> length (w_prefix w)" by simp
    with long show ?thesis by simp
  next
    case 2
    with long have "us \<noteq> ''''" by auto
    with 2 l show ?thesis by (intro exI [of _ us]) auto
  qed
qed (auto simp: wildcard_match_def HasPrefix_def HasSuffix_def suffix_def)

lemma of_lower_char:
  "(of_char (lower_char c) :: nat) = (if 65 \<le> (of_char c :: nat) \<and> (of_char c :: nat) \<le> 90 then of_char c + 32 else of_char c)"
  by (auto simp: lower_char_def less_eq_char_def)

lemma ToLower_star: "ToLower s = ''*'' \<longleftrightarrow> s = ''*''"
proof -
  have "lower_char c = CHR ''*'' \<longleftrightarrow> c = CHR ''*''" for c
  proof
    assume "lower_char c = CHR ''*''"
    then have "(of_char (lower_char c) :: nat) = 42" by simp
    then have "(of_char c :: nat) = of_char (CHR ''*'')" by (auto simp: of_lower_char split: if_splits)
    then show "c = CHR ''*''" by (simp only: of_char_eq_iff)
  qed (simp add: lower_char_def less_eq_char_def)
  then show ?thesis by (auto simp: ToLower_def map_eq_Cons_conv)
qed

lemma split_wildcard_none: "split_wildcard s = None \<longleftrightarrow> \<not> Contains s ''://*.''"
  by (simp add: split_wildcard_def cut_at_none)

lemma split_wildcard_match:
  "(\<exists>w. split_wildcard s = Some w \<and> wildcard_match w o') \<longleftrightarrow> Contains s ''://*.'' \<and>
     (\<exists>scheme host sub. cut_at ''://*.'' s = Some (scheme, host) \<and> sub \<noteq> '''' \<and> o' = scheme @ ''://'' @ sub @ ''.'' @ host)"
proof -
  have "Contains s ''://*.'' \<longleftrightarrow> cut_at ''://*.'' s \<noteq> None" by (simp add: cut_at_none)
  then show ?thesis by (auto simp: split_wildcard_def wildcard_match_iff)
qed

text \<open>C37: The policy admits an origin exactly when some configured entry does: the star, a subdomain wildcard whose
  scheme agrees and whose host is a proper suffix preceded by a dot, or the equal origin.\<close>

theorem originAllowed_iff:
  "originAllowed (newPolicy cfg) origin \<longleftrightarrow> (\<exists>entry \<in> set (cc_origins cfg). entry_admits entry origin)"
proof -
  let ?E = "set (cc_origins cfg)"
  have exact: "ToLower origin \<in> set (p_exact (newPolicy cfg)) \<longleftrightarrow>
      (\<exists>e \<in> ?E. e \<noteq> ''*'' \<and> \<not> Contains (ToLower e) ''://*.'' \<and> ToLower origin = ToLower e)"
    by (auto simp: newPolicy_def Let_def split_wildcard_none) (metis ToLower_star)+
  have wild: "w \<in> set (p_wildcards (newPolicy cfg)) \<longleftrightarrow> (\<exists>e \<in> ?E. e \<noteq> ''*'' \<and> split_wildcard (ToLower e) = Some w)" for w
    by (auto simp: newPolicy_def Let_def map_filter_def ToLower_star image_iff)
  have all: "p_allow_all (newPolicy cfg) \<longleftrightarrow> ''*'' \<in> ?E"
    by (simp add: newPolicy_def Let_def image_iff) (metis ToLower_star)
  define W where "W e \<longleftrightarrow> (\<exists>scheme host sub. cut_at ''://*.'' (ToLower e) = Some (scheme, host)
      \<and> sub \<noteq> [] \<and> ToLower origin = scheme @ ''://'' @ sub @ ''.'' @ host)" for e
  have wild_match: "(\<exists>w \<in> set (p_wildcards (newPolicy cfg)). wildcard_match w (ToLower origin)) \<longleftrightarrow>
      (\<exists>e \<in> ?E. e \<noteq> ''*'' \<and> Contains (ToLower e) ''://*.'' \<and> W e)"
    unfolding W_def split_wildcard_match [symmetric] using wild by blast
  define X where "X e \<longleftrightarrow> ToLower origin = ToLower e" for e
  show ?thesis
    unfolding originAllowed_def Let_def exact wild_match all entry_admits_def W_def [symmetric] X_def [symmetric] by (auto; metis)
qed

section \<open>What a response reveals\<close>

definition is_cors_header :: "string \<times> string \<Rightarrow> bool" where
  "is_cors_header e \<longleftrightarrow> HasPrefix (fst e) ''Access-Control-''"

fun outcome_headers :: "cors_outcome \<Rightarrow> headers" where
  "outcome_headers (PassedOn h) = h"
| "outcome_headers (Answered s h) = h"

lemma hdr_set_mem: "e \<in> set (hdr_set k v h) \<longleftrightarrow> e = (k, v) \<or> (e \<in> set h \<and> fst e \<noteq> k)"
  by (auto simp: hdr_set_def)

lemma hdr_add_mem: "e \<in> set (hdr_add k v h) \<longleftrightarrow> e = (k, v) \<or> e \<in> set h"
  by (auto simp: hdr_add_def)

lemma hdr_if_mem: "e \<in> set (if b then h else h') \<longleftrightarrow> (if b then e \<in> set h else e \<in> set h')"
  by simp

lemmas hdr_mem = hdr_set_mem hdr_add_mem hdr_if_mem

lemma policy_fields [simp]:
  "p_enabled (newPolicy cfg) = CorsEnabled cfg" "p_credentials (newPolicy cfg) = cc_credentials cfg"
  by (simp_all add: newPolicy_def Let_def)

text \<open>The two headers that grant access, and the whole answer to an origin that is not admitted.\<close>

lemma preflight_mem:
  "(''Access-Control-Allow-Origin'', v) \<in> set (preflight p r origin []) \<longleftrightarrow>
     origin \<noteq> '''' \<and> originAllowed p origin \<and> v = allowOriginValue p origin"
  "(''Access-Control-Allow-Credentials'', v) \<in> set (preflight p r origin []) \<longleftrightarrow>
     origin \<noteq> '''' \<and> originAllowed p origin \<and> p_credentials p \<and> v = ''true''"
  "(''Vary'', ''Origin'') \<in> set (preflight p r origin [])"
  "origin = '''' \<or> \<not> originAllowed p origin \<Longrightarrow> set (preflight p r origin []) =
     {(''Vary'', ''Origin''), (''Vary'', ''Access-Control-Request-Method''), (''Vary'', ''Access-Control-Request-Headers'')}"
  unfolding preflight_def Let_def by (simp_all add: hdr_mem) (auto simp: hdr_add_def)

lemma ServeHTTP_mem:
  assumes "p_enabled p"
  shows "(''Access-Control-Allow-Origin'', v) \<in> set (outcome_headers (ServeHTTP p r [])) \<longleftrightarrow>
      rq_header r ''Origin'' \<noteq> '''' \<and> originAllowed p (rq_header r ''Origin'') \<and> v = allowOriginValue p (rq_header r ''Origin'')"
    and "(''Access-Control-Allow-Credentials'', v) \<in> set (outcome_headers (ServeHTTP p r [])) \<longleftrightarrow>
      rq_header r ''Origin'' \<noteq> '''' \<and> originAllowed p (rq_header r ''Origin'') \<and> p_credentials p \<and> v = ''true''"
    and "(''Vary'', ''Origin'') \<in> set (outcome_headers (ServeHTTP p r []))"
    and "rq_header r ''Origin'' = '''' \<or> \<not> originAllowed p (rq_header r ''Origin'') \<Longrightarrow>
      \<forall>e \<in> set (outcome_headers (ServeHTTP p r [])). fst e = ''Vary''"
  using assms unfolding ServeHTTP_def Let_def
  by (simp_all add: preflight_mem hdr_mem) (auto simp: preflight_mem hdr_add_def)

text \<open>C38: Every answer of an enabled policy varies on the origin. The allowed origin is announced exactly to an
  admitted origin, as that origin or, without credentials, as the star; permission for credentials never
  accompanies the star; and an origin that is not admitted gets no header but \<open>Vary\<close>.\<close>

theorem cors_answer_safe:
  assumes "CorsEnabled cfg"
  shows "\<forall>out. out = set (outcome_headers (ServeHTTP (newPolicy cfg) r [])) \<longrightarrow>
     (''Vary'', ''Origin'') \<in> out \<and>
     (\<forall>v. (''Access-Control-Allow-Origin'', v) \<in> out \<longrightarrow>
        originAllowed (newPolicy cfg) (rq_header r ''Origin'') \<and>
        (v = rq_header r ''Origin'' \<or> v = ''*'' \<and> (\<forall>c. (''Access-Control-Allow-Credentials'', c) \<notin> out))) \<and>
     (rq_header r ''Origin'' \<noteq> '''' \<and> originAllowed (newPolicy cfg) (rq_header r ''Origin'') \<longrightarrow>
        (\<exists>v. (''Access-Control-Allow-Origin'', v) \<in> out)) \<and>
     (\<not> originAllowed (newPolicy cfg) (rq_header r ''Origin'') \<longrightarrow> (\<forall>e \<in> out. fst e = ''Vary''))"
proof -
  have en: "p_enabled (newPolicy cfg)" using assms by simp
  show ?thesis using ServeHTTP_mem(3,4) [OF en, where r = r]
    by (auto simp: ServeHTTP_mem(1,2) [OF en] allowOriginValue_def)
qed

definition demo_cors :: cors_config where
  "demo_cors = \<lparr>cc_origins = [''https://*.example.org''], cc_methods = [], cc_headers = [], cc_expose = [],
     cc_credentials = True, cc_max_age = 0, cc_private = False\<rparr>"

definition demo_request :: "string \<Rightarrow> http_request" where
  "demo_request origin = \<lparr>rq_method = ''GET'', rq_header = (\<lambda>k. if k = ''Origin'' then origin else '''')\<rparr>"

theorem cors_answer_safe_witness:
  "(\<exists>v. (''Access-Control-Allow-Origin'', v) \<in>
      set (outcome_headers (ServeHTTP (newPolicy demo_cors) (demo_request ''https://App.example.org'') [])))
   \<and> list_all (\<lambda>e. fst e = ''Vary'') (outcome_headers (ServeHTTP (newPolicy demo_cors) (demo_request ''https://evil-example.org'') []))"
proof -
  have on: "CorsEnabled demo_cors" by code_simp
  have "originAllowed (newPolicy demo_cors) ''https://App.example.org''"
    "\<not> originAllowed (newPolicy demo_cors) ''https://evil-example.org''" by code_simp+
  then show ?thesis
    using cors_answer_safe [OF on, of "demo_request ''https://App.example.org''"]
      cors_answer_safe [OF on, of "demo_request ''https://evil-example.org''"] by (simp add: demo_request_def list_all_iff)
qed

end
