(* ===== verification/Go_Url.thy ===== *)
theory Go_Url
  imports Go_Strings
begin

text \<open>
  What the source uses of \<^verbatim>\<open>net/url\<close> and \<^verbatim>\<open>net\<close>. Escaping is modelled; \<^verbatim>\<open>url.Parse\<close> and the
  reassembly of a parsed URL are parameters, collected in a record: the parser, the parts the source
  reads, and the text of a URL whose query has been replaced.
\<close>

record 'u url_lib =
  url_parse :: "string \<Rightarrow> 'u option"
  url_scheme :: "'u \<Rightarrow> string"
  url_host :: "'u \<Rightarrow> string"
  url_user :: "'u \<Rightarrow> bool"
  url_query :: "'u \<Rightarrow> (string \<times> string list) list"
  url_text :: "'u \<Rightarrow> string \<Rightarrow> string"

definition upper_hex :: "nat \<Rightarrow> char" where
  "upper_hex n = (if n < 10 then char_of (48 + n) else char_of (55 + n))"

definition unreserved :: "char \<Rightarrow> bool" where
  "unreserved c \<longleftrightarrow> (CHR ''0'' \<le> c \<and> c \<le> CHR ''9'') \<or> (CHR ''a'' \<le> c \<and> c \<le> CHR ''z'') \<or> (CHR ''A'' \<le> c \<and> c \<le> CHR ''Z'')
     \<or> c \<in> set ''-_.~''"

definition percent :: "char \<Rightarrow> string" where
  "percent c = (let n = of_char c :: nat in [CHR ''%'', upper_hex (n div 16), upper_hex (n mod 16)])"

text \<open>A path segment also keeps \<open>$&+:=@\<close>; a query value keeps none of them and writes a space as \<open>+\<close>.\<close>

definition PathEscape :: "string \<Rightarrow> string" where
  "PathEscape s = concat (map (\<lambda>c. if unreserved c \<or> c \<in> set ''$&+:=@'' then [c] else percent c) s)"

definition QueryEscape :: "string \<Rightarrow> string" where
  "QueryEscape s = concat (map (\<lambda>c. if c = CHR '' '' then ''+'' else if unreserved c then [c] else percent c) s)"

text \<open>\<^verbatim>\<open>Values.Set\<close> and \<^verbatim>\<open>Values.Encode\<close> on parameters in key order.\<close>

fun values_set :: "string \<Rightarrow> string \<Rightarrow> (string \<times> string list) list \<Rightarrow> (string \<times> string list) list" where
  "values_set k v [] = [(k, [v])]"
| "values_set k v ((l, w) # q) =
     (if k = l then (k, [v]) # q else if k < l then (k, [v]) # (l, w) # q else (l, w) # values_set k v q)"

definition values_encode :: "(string \<times> string list) list \<Rightarrow> string" where
  "values_encode q = join_with CHR ''&''
     (concat (map (\<lambda>(k, vs). map (\<lambda>v. QueryEscape k @ ''='' @ QueryEscape v) vs) q))"

text \<open>Whether \<^verbatim>\<open>net.SplitHostPort\<close> succeeds.\<close>

definition split_host_port_ok :: "string \<Rightarrow> bool" where
  "split_host_port_ok s =
     (CHR '':'' \<in> set s \<and>
      (if hd s = CHR ''['' then
         (let host = takeWhile (\<lambda>c. c \<noteq> CHR '']'') (tl s); rest = drop (length host + 2) s
          in CHR '']'' \<in> set (tl s) \<and> CHR ''['' \<notin> set (tl s) \<and> (case rest of c # port \<Rightarrow>
               c = CHR '':'' \<and> CHR '':'' \<notin> set port \<and> CHR '']'' \<notin> set port | [] \<Rightarrow> False))
       else count_list s CHR '':'' = 1 \<and> CHR ''['' \<notin> set s \<and> CHR '']'' \<notin> set s))"

lemma PathEscape_safe: "\<forall>c \<in> set s. unreserved c \<Longrightarrow> PathEscape s = s"
  by (induction s) (auto simp: PathEscape_def)

end
