(* ===== verification/Config_Validate.thy ===== *)
theory Config_Validate
  imports Cors Response_Map Go_Url
begin

text \<open>
  \<^verbatim>\<open>internal/config/validate.go\<close>: every problem of a configuration, as the list of the offending
  field and its flaw. The source joins all problems into one error; the order of entries of a map is
  that of their keys here, and no property depends on it.
\<close>

datatype flaw =
  NotPositive int | BadLogLevel string | NotListenAddress string | BadCors cors_error | NegativeMaxAge duration
| BackoffOrder | NoKeys | NameRequired | KeyRequired | DuplicateName string | SamePreviousKey | BadRole string
| Negative int | PriorityRange int | NoTargets | BudgetTooShort duration duration | NotMethod string | ProxyKnobs
| BadMode string | BadInject string | InjectNeedsKey | PollRequired | Missing | NoPlaceholder | NotURL string
| ResultTimeoutShort | IntervalOrder | Overlap "string list" | BadPrefix | URLAndTarget | UnknownTarget string
| NotDirect string | ForeignKnobs | QueryMapMethod | QueryMapEmpty | QueryMapTwice string string string
| BadResponseMap spec_error | IgnoredField string | BadHost string | SecretRequired

type_synonym problem = "string \<times> flaw"

definition flag :: "bool \<Rightarrow> problem \<Rightarrow> problem list" where
  "flag b p = (if b then [p] else [])"

definition positiveDur :: "string \<Rightarrow> duration \<Rightarrow> problem list" where
  "positiveDur field d = flag (d \<le> 0) (field, NotPositive d)"

definition positiveInt :: "string \<Rightarrow> int \<Rightarrow> problem list" where
  "positiveInt field n = flag (n \<le> 0) (field, NotPositive n)"

definition indexed :: "string \<Rightarrow> nat \<Rightarrow> string" where
  "indexed field i = field @ ''['' @ show_nat i @ '']''"

definition enum :: "'a list \<Rightarrow> (nat \<times> 'a) list" where
  "enum xs = zip [0..<length xs] xs"

definition opt_problem :: "string \<Rightarrow> ('e \<Rightarrow> flaw) \<Rightarrow> 'e option \<Rightarrow> problem list" where
  "opt_problem field f e = (case e of None \<Rightarrow> [] | Some x \<Rightarrow> [(field, f x)])"

section \<open>Sections\<close>

definition v_server :: "server_cfg \<Rightarrow> problem list" where
  "v_server s =
     positiveDur ''server.read_timeout'' (sv_read_timeout s) @ positiveDur ''server.write_timeout'' (sv_write_timeout s)
   @ positiveDur ''server.shutdown_grace'' (sv_shutdown_grace s) @ positiveInt ''server.max_body_bytes'' (sv_max_body s)
   @ flag (sv_log_level s \<notin> {''debug'', ''info'', ''warn'', ''error''}) (''server.log_level'', BadLogLevel (sv_log_level s))
   @ flag (sv_metrics_addr s \<noteq> '''' \<and> \<not> split_host_port_ok (sv_metrics_addr s)) (''server.metrics_addr'', NotListenAddress (sv_metrics_addr s))
   @ concat (map (\<lambda>(i, o'). opt_problem (indexed ''server.cors.allowed_origins'' i) BadCors (ValidateOrigin o')) (enum (co_origins (sv_cors s))))
   @ (case co_max_age (sv_cors s) of Some d \<Rightarrow> flag (d < 0) (''server.cors.max_age'', NegativeMaxAge d) | None \<Rightarrow> [])
   @ opt_problem ''server.cors'' BadCors (ValidateCors (PolicyOf (sv_cors s)))"

definition v_storage :: "storage_cfg \<Rightarrow> problem list" where
  "v_storage s = positiveDur ''storage.retention'' (sg_retention s) @ positiveInt ''storage.max_result_bytes'' (sg_max_result s)"

definition v_upstream :: "int \<Rightarrow> problem list" where
  "v_upstream n = positiveInt ''upstream.max_response_bytes'' n"

definition v_worker :: "worker_cfg \<Rightarrow> problem list" where
  "v_worker w =
     positiveInt ''worker.count'' (wk_count w) @ positiveInt ''worker.resolvent_concurrency'' (wk_resolvent_concurrency w)
   @ positiveInt ''worker.max_attempts'' (wk_max_attempts w) @ positiveDur ''worker.poll_interval'' (wk_poll_interval w)
   @ positiveDur ''worker.backoff_base'' (wk_backoff_base w) @ positiveDur ''worker.backoff_max'' (wk_backoff_max w)
   @ positiveDur ''worker.job_timeout'' (wk_job_timeout w) @ positiveDur ''worker.scheduler_interval'' (wk_scheduler_interval w)
   @ flag (0 < wk_backoff_base w \<and> 0 < wk_backoff_max w \<and> wk_backoff_max w < wk_backoff_base w) (''worker.backoff_base'', BackoffOrder)"

definition v_cache :: "cache_cfg \<Rightarrow> problem list" where
  "v_cache c = positiveDur ''cache.default_ttl'' (ca_default_ttl c) @ positiveDur ''cache.cleanup_interval'' (ca_cleanup c)"

definition v_key :: "api_key list \<Rightarrow> nat \<Rightarrow> api_key \<Rightarrow> problem list" where
  "v_key before i k =
     (let f = indexed ''auth.api_keys'' i
      in flag (ak_name k = '''') (f, NameRequired) @ flag (ak_key k = '''') (f, KeyRequired)
       @ flag (ak_name k \<in> ak_name ` set before) (''auth.api_keys'', DuplicateName (ak_name k))
       @ flag (ak_previous k \<noteq> '''' \<and> ak_previous k = ak_key k) (f, SamePreviousKey)
       @ flag (ak_role k \<noteq> RoleClient \<and> ak_role k \<noteq> RoleAdmin) (f, BadRole (ak_role k))
       @ flag (ak_max_queued k < 0) (f, Negative (ak_max_queued k))
       @ (case ak_max_schedules k of Some n \<Rightarrow> flag (n < 0) (f, Negative n) | None \<Rightarrow> [])
       @ flag (ak_max_concurrent k < 0) (f, Negative (ak_max_concurrent k))
       @ (case ak_max_priority k of Some n \<Rightarrow> flag (n < MinPriority \<or> MaxPriority < n) (f, PriorityRange n) | None \<Rightarrow> []))"

definition v_auth :: "api_key list \<Rightarrow> problem list" where
  "v_auth ks = flag (ks = []) (''auth.api_keys'', NoKeys) @ concat (map (\<lambda>(i, k). v_key (take i ks) i k) (enum ks))"

definition v_callbacks :: "callbacks_cfg \<Rightarrow> problem list" where
  "v_callbacks c =
     concat (map (\<lambda>(i, h). flag (h = '''' \<or> (\<exists>x \<in> set h. x \<in> set ''/@ '') \<or> Contains h ''://'') (indexed ''callbacks.allowed_hosts'' i, BadHost h))
       (enum (cb_hosts c)))
   @ flag (CallbacksEnabled c \<and> cb_secret c = '''') (''callbacks.signing_secret'', SecretRequired)
   @ positiveInt ''callbacks.max_attempts'' (cb_max_attempts c) @ positiveDur ''callbacks.timeout'' (cb_timeout c)"

section \<open>Targets\<close>

definition validMethod :: "string \<Rightarrow> bool" where
  "validMethod m \<longleftrightarrow> m \<in> {''GET'', ''POST'', ''PUT'', ''PATCH''}"

definition http_url :: "'u url_lib \<Rightarrow> string \<Rightarrow> bool" where
  "http_url lib raw = (case url_parse lib raw of None \<Rightarrow> False
     | Some u \<Rightarrow> (url_scheme lib u = ''http'' \<or> url_scheme lib u = ''https'') \<and> url_host lib u \<noteq> '''')"

definition v_url :: "'u url_lib \<Rightarrow> string \<Rightarrow> string \<Rightarrow> problem list" where
  "v_url lib field raw = (if raw = '''' then [(field, Missing)] else flag (\<not> http_url lib raw) (field, NotURL raw))"

definition intersect :: "string list \<Rightarrow> string list \<Rightarrow> string list" where
  "intersect a b = filter (\<lambda>v. v \<in> set a) b"

text \<open>\<^verbatim>\<open>strings.ReplaceAll(s, old, new)\<close> for a non-empty \<open>old\<close>.\<close>

function ReplaceAll :: "string \<Rightarrow> string \<Rightarrow> string \<Rightarrow> string" where
  "ReplaceAll s old new =
     (if old = [] then s
      else case cut_at old s of None \<Rightarrow> s | Some (a, b) \<Rightarrow> a @ new @ ReplaceAll b old new)"
  by pat_completeness auto
termination
proof (relation "measure (\<lambda>(s, _). length s)")
  fix s old new :: string and x a b
  assume "old \<noteq> []" "cut_at old s = Some x" "(a, b) = x"
  then have "s = a @ old @ b" using cut_at_some [of old s a b] by simp
  with \<open>old \<noteq> []\<close> show "((b, old, new), s, old, new) \<in> measure (\<lambda>(s, _). length s)" by simp
qed simp

declare ReplaceAll.simps [simp del]

definition v_template :: "'u url_lib \<Rightarrow> string \<Rightarrow> string \<Rightarrow> problem list" where
  "v_template lib field tmpl =
     flag (\<not> Contains tmpl ''{id}'') (field, NoPlaceholder) @ flag (\<not> http_url lib (ReplaceAll tmpl ''{id}'' ''x'')) (field, NotURL tmpl)"

definition v_poll :: "'u url_lib \<Rightarrow> string \<Rightarrow> poll_cfg option \<Rightarrow> duration \<Rightarrow> problem list" where
  "v_poll lib p poll callTimeout = (case poll of
     None \<Rightarrow> [(p, PollRequired)]
   | Some pl \<Rightarrow>
       flag (po_id_path pl = '''') (p @ ''.id_json_path'', Missing)
     @ v_template lib (p @ ''.url_template'') (po_url pl)
     @ (if po_cancel_url pl \<noteq> '''' then v_template lib (p @ ''.cancel_url_template'') (po_cancel_url pl) else [])
     @ flag (po_status_path pl = '''') (p @ ''.status_json_path'', Missing)
     @ flag (po_done pl = []) (p @ ''.done_values'', Missing)
     @ positiveDur (p @ ''.interval'') (po_interval pl) @ positiveDur (p @ ''.timeout'') (po_timeout pl)
     @ positiveDur (p @ ''.result_timeout'') (po_result_timeout pl)
     @ flag (0 < po_result_timeout pl \<and> 0 < callTimeout \<and> po_result_timeout pl < callTimeout) (p @ ''.result_timeout'', ResultTimeoutShort)
     @ flag (0 < po_interval pl \<and> 0 < po_timeout pl \<and> po_timeout pl \<le> po_interval pl) (p @ ''.interval'', IntervalOrder)
     @ flag (intersect (po_done pl) (po_failed pl) \<noteq> []) (p, Overlap (intersect (po_done pl) (po_failed pl))))"

definition v_target_auth :: "string \<Rightarrow> target_cfg \<Rightarrow> problem list" where
  "v_target_auth p t =
     flag (tg_inject t \<notin> {InjectNone, InjectBodyField, InjectHeader}) (p @ ''.api_key_inject'', BadInject (tg_inject t))
   @ flag (tg_inject t \<noteq> InjectNone \<and> tg_api_key t = '''') (p @ ''.api_key'', InjectNeedsKey)"

definition v_target :: "'u url_lib \<Rightarrow> string \<Rightarrow> target_cfg \<Rightarrow> problem list" where
  "v_target lib p t =
     v_url lib (p @ ''.url'') (tg_url t)
   @ flag (\<not> validMethod (tg_method t)) (p @ ''.method'', NotMethod (tg_method t))
   @ positiveDur (p @ ''.timeout'') (tg_timeout t)
   @ flag (tg_job_timeout t < 0) (p @ ''.job_timeout'', NotPositive (tg_job_timeout t))
   @ flag (tg_max_attempts t < 0) (p @ ''.max_attempts'', NotPositive (tg_max_attempts t))
   @ v_target_auth p t
   @ flag (tg_proxy t \<and> (tg_ts_path t \<noteq> '''' \<or> tg_attach t \<noteq> None)) (p, ProxyKnobs)
   @ (if re_mode (tg_response t) = ModeDirect then []
      else if re_mode (tg_response t) = ModePoll then v_poll lib (p @ ''.response.poll'') (re_poll (tg_response t)) (tg_timeout t)
      else [(p @ ''.response.mode'', BadMode (re_mode (tg_response t)))])"

definition call_timeout :: "(string \<times> target_cfg) list \<Rightarrow> resolvent_cfg \<Rightarrow> duration" where
  "call_timeout tgs r = (if rv_target r \<noteq> '''' then (case map_of tgs (rv_target r) of None \<Rightarrow> 0 | Some t \<Rightarrow> tg_timeout t) else rv_timeout r)"

definition longestResolventTimeout :: "(string \<times> resolvent_cfg) list \<Rightarrow> (string \<times> target_cfg) list \<Rightarrow> duration \<times> string" where
  "longestResolventTimeout rs tgs = foldl (\<lambda>(longest, who) (name, r).
     let d = call_timeout tgs r in if longest < d then (d, name) else (longest, who)) (0, '''') rs"

definition timeoutBudget :: "string \<Rightarrow> target_cfg \<Rightarrow> worker_cfg \<Rightarrow> duration \<Rightarrow> problem list" where
  "timeoutBudget p t w longest =
     (let budget = (if tg_job_timeout t = 0 then wk_job_timeout w else tg_job_timeout t);
          need = (if \<not> tg_proxy t \<and> 0 < longest then wrap64 (tg_timeout t + longest) else tg_timeout t)
      in if budget \<le> 0 \<or> tg_timeout t \<le> 0 then [] else flag (budget < need) (p, BudgetTooShort budget need))"

definition v_targets :: "'u url_lib \<Rightarrow> (string \<times> target_cfg) list \<Rightarrow> (string \<times> resolvent_cfg) list \<Rightarrow> worker_cfg \<Rightarrow> problem list" where
  "v_targets lib tgs rs w =
     (let longest = fst (longestResolventTimeout rs tgs)
      in flag (tgs = []) (''targets'', NoTargets)
       @ concat (map (\<lambda>(name, t). v_target lib (''targets.'' @ name) t @ timeoutBudget (''targets.'' @ name) t w longest) tgs))"

section \<open>Resolvents\<close>

definition v_target_backed :: "string \<Rightarrow> resolvent_cfg \<Rightarrow> (string \<times> target_cfg) list \<Rightarrow> problem list" where
  "v_target_backed p r tgs =
     (case map_of tgs (rv_target r) of
        None \<Rightarrow> [(p @ ''.target'', UnknownTarget (rv_target r))]
      | Some t \<Rightarrow> flag (re_mode (tg_response t) \<noteq> ModeDirect) (p @ ''.target'', NotDirect (re_mode (tg_response t))))
   @ flag (rv_api_key r \<noteq> '''' \<or> rv_method r \<noteq> '''' \<or> rv_timeout r \<noteq> 0) (p, ForeignKnobs)"

fun v_query_map :: "string \<Rightarrow> (string \<times> string) list \<Rightarrow> (string \<times> string) list \<Rightarrow> problem list" where
  "v_query_map p seen [] = []"
| "v_query_map p seen ((field, param) # m) =
     (if field = '''' \<or> param = '''' then (p @ ''.query_map'', QueryMapEmpty) # v_query_map p seen m
      else (case map_of seen param of None \<Rightarrow> [] | Some other \<Rightarrow> [(p @ ''.query_map'', QueryMapTwice other field param)])
         @ v_query_map p ((param, field) # seen) m)"

definition v_adapters :: "string \<Rightarrow> resolvent_cfg \<Rightarrow> problem list" where
  "v_adapters p r =
     (case rv_query_map r of None \<Rightarrow> []
      | Some m \<Rightarrow> flag (rv_method r \<noteq> ''GET'') (p @ ''.query_map'', QueryMapMethod) @ v_query_map p [] m)
   @ (case rv_response_map r of None \<Rightarrow> [] | Some m \<Rightarrow> opt_problem p BadResponseMap (ValidateResponseMap m))
   @ concat (map (\<lambda>(i, f). flag (f = '''' \<or> f = ''type'') (indexed (p @ ''.cache_ignore_fields'') i, IgnoredField f))
       (enum (case rv_cache_ignore r of None \<Rightarrow> [] | Some fs \<Rightarrow> fs)))"

definition v_resolvent :: "'u url_lib \<Rightarrow> string \<Rightarrow> resolvent_cfg \<Rightarrow> (string \<times> target_cfg) list \<Rightarrow> problem list" where
  "v_resolvent lib name r tgs =
     (let p = ''resolvents.'' @ name
      in flag (\<not> HasPrefix name TypePrefix) (p, BadPrefix)
       @ positiveDur (p @ ''.cache_ttl'') (rv_cache_ttl r)
       @ (if rv_target r \<noteq> '''' \<and> rv_url r \<noteq> '''' then [(p, URLAndTarget)]
          else if rv_target r \<noteq> '''' then v_target_backed p r tgs
          else v_url lib (p @ ''.url'') (rv_url r)
             @ flag (\<not> validMethod (rv_method r)) (p @ ''.method'', NotMethod (rv_method r))
             @ positiveDur (p @ ''.timeout'') (rv_timeout r))
       @ v_adapters p r)"

definition v_resolvents :: "'u url_lib \<Rightarrow> (string \<times> resolvent_cfg) list \<Rightarrow> (string \<times> target_cfg) list \<Rightarrow> problem list" where
  "v_resolvents lib rs tgs = concat (map (\<lambda>(name, r). v_resolvent lib name r tgs) rs)"

definition Validate :: "'u url_lib \<Rightarrow> config \<Rightarrow> problem list" where
  "Validate lib c =
     v_server (cf_server c) @ v_storage (cf_storage c) @ v_worker (cf_worker c) @ v_cache (cf_cache c)
   @ v_upstream (cf_max_response c) @ v_callbacks (cf_callbacks c) @ v_auth (cf_keys c)
   @ v_targets lib (cf_targets c) (cf_resolvents c) (cf_worker c) @ v_resolvents lib (cf_resolvents c) (cf_targets c)"

section \<open>What validation guarantees\<close>

named_theorems no_flaw "validation of a section finds nothing"

lemma flag_Nil [no_flaw]: "flag b p = [] \<longleftrightarrow> \<not> b"
  by (simp add: flag_def)

lemma positive_Nil [no_flaw]: "positiveDur f d = [] \<longleftrightarrow> 0 < d" "positiveInt f n = [] \<longleftrightarrow> 0 < n"
  by (auto simp: positiveDur_def positiveInt_def flag_def)

lemma longest_mono: "fst acc \<le> fst (foldl (\<lambda>(longest, who) (name, r).
     let d = call_timeout tgs r in if longest < d then (d, name) else (longest, who)) acc rs)"
proof (induction rs arbitrary: acc)
  case (Cons e rs)
  obtain l w n r where "acc = (l, w)" "e = (n, r)" by (cases acc, cases e) auto
  then show ?case using Cons [of "if l < call_timeout tgs r then (call_timeout tgs r, n) else (l, w)"]
    by (auto simp: Let_def split: if_splits)
qed simp

lemma longest_bounds: "(n, r) \<in> set rs \<Longrightarrow> call_timeout tgs r \<le> fst (longestResolventTimeout rs tgs)"
proof -
  let ?f = "\<lambda>(longest, who) (name, r). let d = call_timeout tgs r in if longest < d then (d, name) else (longest, who)"
  assume "(n, r) \<in> set rs"
  then obtain us vs where rs: "rs = us @ (n, r) # vs" by (auto simp: in_set_conv_decomp)
  obtain l w where acc: "foldl ?f (0, '''') us = (l, w)" by (rule prod.exhaust)
  have "call_timeout tgs r \<le> fst (?f (l, w) (n, r))" by (simp add: Let_def)
  also have "\<dots> \<le> fst (foldl ?f (?f (l, w) (n, r)) vs)" by (rule longest_mono)
  finally show ?thesis by (simp add: longestResolventTimeout_def rs acc)
qed

lemma longest_attained:
  "fst (longestResolventTimeout rs tgs) = 0 \<or> (\<exists>(n, r) \<in> set rs. fst (longestResolventTimeout rs tgs) = call_timeout tgs r)"
proof -
  let ?f = "\<lambda>(longest, who) (name, r). let d = call_timeout tgs r in if longest < d then (d, name) else (longest, who)"
  have "fst (foldl ?f acc rs) = fst acc \<or> (\<exists>(n, r) \<in> set rs. fst (foldl ?f acc rs) = call_timeout tgs r)" for acc
  proof (induction rs arbitrary: acc)
    case (Cons e rs)
    obtain l w n r where e: "acc = (l, w)" "e = (n, r)" by (cases acc, cases e) auto
    show ?case using Cons [of "?f acc e"] by (auto simp: e Let_def split: if_splits)
  qed simp
  from this [of "(0, '''')"] show ?thesis by (simp add: longestResolventTimeout_def)
qed

lemma Validate_target:
  assumes "Validate lib c = []" and "(name, t) \<in> set (cf_targets c)"
  shows "v_target lib (''targets.'' @ name) t = [] \<and>
    timeoutBudget (''targets.'' @ name) t (cf_worker c) (fst (longestResolventTimeout (cf_resolvents c) (cf_targets c))) = []"
  using assms by (force simp: Validate_def v_targets_def Let_def)

lemma Validate_resolvent:
  assumes "Validate lib c = []" and "(name, r) \<in> set (cf_resolvents c)"
  shows "v_resolvent lib name r (cf_targets c) = []"
  using assms by (force simp: Validate_def v_resolvents_def)

lemma Validate_worker: "Validate lib c = [] \<Longrightarrow> v_worker (cf_worker c) = []"
  by (simp add: Validate_def)


section \<open>A configuration\<close>

text \<open>URLs as text: the parser accepts everything and reports an http URL with a host.\<close>

definition plain_urls :: "string url_lib" where
  "plain_urls = \<lparr>url_parse = Some, url_scheme = (\<lambda>_. ''http''), url_host = (\<lambda>u. u), url_user = (\<lambda>_. False),
     url_query = (\<lambda>_. []), url_text = (\<lambda>u q. if q = '''' then u else u @ ''?'' @ q)\<rparr>"

definition demo_target :: target_cfg where
  "demo_target = \<lparr>tg_url = ''http://meme/run'', tg_method = '''', tg_api_key = ''k1'', tg_inject = '''', tg_key_field = '''',
     tg_key_header = '''', tg_timeout = 0, tg_job_timeout = 0, tg_max_attempts = 0, tg_retry_on_timeout = None, tg_ts_path = '''',
     tg_attach = None, tg_proxy = False, tg_response = \<lparr>re_mode = '''', re_poll = None\<rparr>\<rparr>"

definition demo_resolvent :: resolvent_cfg where
  "demo_resolvent = \<lparr>rv_url = ''http://pv'', rv_method = '''', rv_api_key = '''', rv_key_header = '''', rv_timeout = 0, rv_cache_ttl = 0,
     rv_target = '''', rv_payload_field = '''', rv_response_path = '''', rv_query_map = None, rv_cache_ignore = None, rv_response_map = None\<rparr>"

definition demo_raw_config :: config where
  "demo_raw_config = \<lparr>
     cf_server = \<lparr>sv_addr = '''', sv_read_timeout = 0, sv_write_timeout = 0, sv_shutdown_grace = 0, sv_max_body = 0, sv_metrics_addr = '''',
       sv_log_level = '''', sv_cors = \<lparr>co_origins = [], co_headers = [], co_expose = [], co_credentials = False, co_max_age = None, co_private = False\<rparr>\<rparr>,
     cf_keys = [\<lparr>ak_name = ''acme'', ak_key = ''s3cret'', ak_previous = '''', ak_role = '''', ak_max_concurrent = 2, ak_max_queued = 0,
       ak_max_schedules = None, ak_max_priority = None\<rparr>],
     cf_storage = \<lparr>sg_path = '''', sg_results_dir = '''', sg_retention = 0, sg_max_result = 0\<rparr>,
     cf_worker = \<lparr>wk_count = 0, wk_resolvent_concurrency = 0, wk_poll_interval = 0, wk_max_attempts = 0, wk_backoff_base = 0,
       wk_backoff_max = 0, wk_job_timeout = 0, wk_scheduler_interval = 0\<rparr>,
     cf_cache = \<lparr>ca_default_ttl = 0, ca_cleanup = 0\<rparr>, cf_max_response = 0,
     cf_callbacks = \<lparr>cb_hosts = [], cb_secret = '''', cb_max_attempts = 0, cb_timeout = 0\<rparr>,
     cf_targets = [(''meme'', demo_target)], cf_resolvents = [(''resolvent-pv1'', demo_resolvent)]\<rparr>"

definition demo_config :: config where
  "demo_config = applyDefaults demo_raw_config"

lemma demo_config_valid: "Validate plain_urls demo_config = []"
  by code_simp


end
