(* ===== verification/Upstream.thy ===== *)
theory Upstream
  imports Config_Validate
begin

text \<open>
  \<^verbatim>\<open>internal/upstream\<close>: outbound calls. \<^verbatim>\<open>client.go\<close> classifies what comes back, \<^verbatim>\<open>target.go\<close>
  forwards payloads, polls and fetches results, \<^verbatim>\<open>resource.go\<close> calls resource APIs. The network is a
  parameter: the answer to an outbound request, including the bytes delivered before a read failed.
  Metrics and the timers inside one call are left out; a deadline that fires is an answer of the network.
\<close>

section \<open>Errors and answers\<close>

datatype cause = Canceled | DeadlineExceeded | BodyTooLarge | OtherCause string

record up_error =
  ue_op :: string
  ue_status :: nat
  ue_transient :: bool
  ue_body :: string
  ue_cause :: "cause option"

definition up_failure :: "string \<Rightarrow> nat \<Rightarrow> bool \<Rightarrow> cause \<Rightarrow> up_error" where
  "up_failure op status transient c = \<lparr>ue_op = op, ue_status = status, ue_transient = transient, ue_body = '''', ue_cause = Some c\<rparr>"

record outbound =
  ob_method :: string
  ob_url :: string
  ob_body :: "string option"
  ob_headers :: headers
  ob_timeout :: duration

text \<open>No request could be built, the exchange failed, or a response with status, content type, the bytes delivered and,
  if reading stopped early, why.\<close>

datatype wire = CannotBuild | NetFail cause | Reply nat string string "cause option"

record client =
  cl_max_body :: int
  cl_secrets :: "string list"

section \<open>Excerpts\<close>

definition errBodyExcerpt :: nat where "errBodyExcerpt = 512"

text \<open>\<^verbatim>\<open>strings.ToValidUTF8(s, "")\<close>: bytes that belong to no rune are dropped.\<close>

fun valid_utf8_fuel :: "nat \<Rightarrow> string \<Rightarrow> string" where
  "valid_utf8_fuel n [] = []"
| "valid_utf8_fuel 0 s = []"
| "valid_utf8_fuel (Suc n) (c # s) = (case rune_width (c # s) of
     None \<Rightarrow> valid_utf8_fuel n s | Some w \<Rightarrow> take w (c # s) @ valid_utf8_fuel n (drop w (c # s)))"

definition ToValidUTF8 :: "string \<Rightarrow> string" where
  "ToValidUTF8 s = valid_utf8_fuel (length s) s"

definition RuneStart :: "char \<Rightarrow> bool" where
  "RuneStart c \<longleftrightarrow> \<not> cont_byte c"

fun rune_cut :: "string \<Rightarrow> nat \<Rightarrow> nat" where
  "rune_cut s 0 = 0"
| "rune_cut s (Suc n) = (if RuneStart (s ! Suc n) then Suc n else rune_cut s n)"

definition ellipsis :: string where
  "ellipsis = map char_of [0xE2, 0x80, 0xA6 :: nat]"

definition redact :: "string list \<Rightarrow> string \<Rightarrow> string" where
  "redact secrets s = foldl (\<lambda>s secret. if secret \<noteq> '''' then ReplaceAll s secret ''[redacted]'' else s) s secrets"

definition excerpt :: "client \<Rightarrow> string \<Rightarrow> string" where
  "excerpt cl b =
     (let s = TrimSpace (redact (cl_secrets cl) (ToValidUTF8 b))
      in if errBodyExcerpt < length s then take (rune_cut s errBodyExcerpt) s @ ellipsis else s)"

section \<open>One call\<close>

text \<open>At most one byte more than the cap is read, so a failure beyond it is never seen.\<close>

definition readCapped :: "int \<Rightarrow> string \<Rightarrow> cause option \<Rightarrow> cause + string" where
  "readCapped limit delivered err =
     (let n = wrap64 (limit + 1); body = take (nat n) delivered
      in case (if int (length delivered) < n then err else None) of
           Some c \<Rightarrow> Inl c
         | None \<Rightarrow> if limit < int (length body) then Inl BodyTooLarge else Inr body)"

definition send :: "(outbound \<Rightarrow> wire) \<Rightarrow> string \<Rightarrow> string \<Rightarrow> string \<Rightarrow> string option \<Rightarrow> headers \<Rightarrow> duration
    \<Rightarrow> up_error + (nat \<times> string \<times> string \<times> cause option)" where
  "send net op method url body headers timeout =
     (let h0 = (if body \<noteq> None then [(''Content-Type'', ''application/json'')] else []);
          hs = foldl (\<lambda>h (k, v). hdr_set k v h) (hdr_set ''Accept'' ''application/json'' h0) headers
      in case net \<lparr>ob_method = method, ob_url = url, ob_body = body, ob_headers = hs, ob_timeout = timeout\<rparr> of
           CannotBuild \<Rightarrow> Inl (up_failure op 0 False (OtherCause ''request''))
         | NetFail c \<Rightarrow> Inl (up_failure op 0 True c)
         | Reply status ctype delivered err \<Rightarrow> Inr (status, ctype, delivered, err))"

definition call :: "client \<Rightarrow> (outbound \<Rightarrow> wire) \<Rightarrow> string \<Rightarrow> string \<Rightarrow> string \<Rightarrow> string option \<Rightarrow> headers \<Rightarrow> duration
    \<Rightarrow> up_error + (nat \<times> string)" where
  "call cl net op method url body headers timeout =
     (case send net op method url body headers timeout of
        Inl e \<Rightarrow> Inl e
      | Inr (status, _, delivered, err) \<Rightarrow>
          (case readCapped (cl_max_body cl) delivered err of
             Inl c \<Rightarrow> if c = BodyTooLarge then Inl (up_failure op status False c) else Inl (up_failure op 0 True c)
           | Inr respBody \<Rightarrow>
               if 200 \<le> status \<and> status < 300 then Inr (status, respBody)
               else Inl \<lparr>ue_op = op, ue_status = status, ue_transient = (status = 429 \<or> 500 \<le> status),
                         ue_body = excerpt cl respBody, ue_cause = None\<rparr>))"

section \<open>Placeholders\<close>

text \<open>A URL split at its \<^verbatim>\<open>{field}\<close> placeholders: literal bytes (left) and field names (right).\<close>

function pieces :: "string \<Rightarrow> (char + string) list" where
  "pieces [] = []"
| "pieces (c # s) =
     (let w = takeWhile alnum s; r = dropWhile alnum s
      in if c = CHR ''{'' \<and> w \<noteq> [] \<and> r \<noteq> [] \<and> hd r = CHR ''}'' then Inr w # pieces (tl r) else Inl c # pieces s)"
  by pat_completeness auto
termination
proof (relation "measure length")
  fix c s x y
  assume "y = dropWhile alnum s"
  then show "(tl y, c # s) \<in> measure length" using length_dropWhile_le [of alnum s] by simp
qed auto

definition fields_of :: "string \<Rightarrow> string list" where
  "fields_of url = List.map_filter (\<lambda>p. case p of Inl _ \<Rightarrow> None | Inr f \<Rightarrow> Some f) (pieces url)"

definition fill_pieces :: "(string \<Rightarrow> string option) \<Rightarrow> string \<Rightarrow> string" where
  "fill_pieces value url = concat (map (\<lambda>p. case p of Inl c \<Rightarrow> [c] | Inr f \<Rightarrow>
     (case value f of Some s \<Rightarrow> PathEscape s | None \<Rightarrow> ''{'' @ f @ ''}'')) (pieces url))"

section \<open>Raw documents\<close>

text \<open>The fields of an object with the text of their values (\<^verbatim>\<open>map[string]json.RawMessage\<close>).\<close>

type_synonym raw_fields = "(string \<times> string) list"

fun raw_put :: "string \<Rightarrow> string \<Rightarrow> raw_fields \<Rightarrow> raw_fields" where
  "raw_put k v [] = [(k, v)]"
| "raw_put k v ((l, w) # fs) =
     (if k = l then (k, v) # fs else if k < l then (k, v) # (l, w) # fs else (l, w) # raw_put k v fs)"

fun parse_raw :: "nat \<Rightarrow> string \<Rightarrow> (raw_fields \<times> string) option" where
  "parse_raw 0 s = None"
| "parse_raw (Suc n) s =
     (case skip_space s of
        [] \<Rightarrow> None
      | q # r0 \<Rightarrow>
          if q \<noteq> CHR 0x22 then None
          else case parse_string (length r0) r0 of
            None \<Rightarrow> None
          | Some (k, s1) \<Rightarrow>
              (case skip_space s1 of
                 [] \<Rightarrow> None
               | c # r1 \<Rightarrow>
                   if c \<noteq> CHR '':'' then None
                   else case parse_value n 1 r1 of
                     None \<Rightarrow> None
                   | Some (_, s2) \<Rightarrow>
                       (let raw = take (length (skip_space r1) - length s2) (skip_space r1)
                        in case skip_space s2 of
                             [] \<Rightarrow> None
                           | e # r2 \<Rightarrow> if e = CHR ''}'' then Some ([(k, raw)], r2)
                                      else if e = CHR '','' then map_option (apfst ((#) (k, raw))) (parse_raw n r2)
                                      else None)))"

definition raw_object :: "string \<Rightarrow> decode_error + raw_fields" where
  "raw_object b = (case Unmarshal b of
     None \<Rightarrow> Inl SyntaxError
   | Some JNull \<Rightarrow> Inl GotNull
   | Some (JObj []) \<Rightarrow> Inr []
   | Some (JObj _) \<Rightarrow>
       (case parse_raw (length b) (tl (skip_space b)) of
          None \<Rightarrow> Inl SyntaxError
        | Some (fs, _) \<Rightarrow> Inr (foldl (\<lambda>o' f. raw_put (fst f) (snd f) o') [] fs))
   | Some _ \<Rightarrow> Inl NotAnObject)"

text \<open>What \<^verbatim>\<open>json.Marshal\<close> does to the text of a raw value: white space between tokens goes, \<open><\<close>, \<open>>\<close>, \<open>&\<close> and the two
  line separators are escaped, everything else stays as it is.\<close>

fun compact :: "bool \<Rightarrow> string \<Rightarrow> string" where
  "compact str [] = []"
| "compact str (c # s) =
     (if c = CHR ''<'' \<or> c = CHR ''>'' \<or> c = CHR ''&'' then escape_ascii c @ compact str s
      else if prefix (utf8 0x2028) (c # s) then CHR 0x5C # ''u2028'' @ compact str (drop 2 s)
      else if prefix (utf8 0x2029) (c # s) then CHR 0x5C # ''u2029'' @ compact str (drop 2 s)
      else if str then
        (if c = CHR 0x22 then c # compact False s
         else if c = CHR 0x5C then (case s of [] \<Rightarrow> [c] | d # r \<Rightarrow> c # d # compact True r)
         else c # compact True s)
      else if is_space c then compact False s
      else if c = CHR 0x22 then c # compact True s
      else c # compact False s)"

definition encode_raw :: "raw_fields \<Rightarrow> string" where
  "encode_raw fs = ''{'' @ join_comma (map (\<lambda>f. quote (fst f) @ '':'' @ compact False (snd f)) fs) @ ''}''"

section \<open>Forwarding\<close>

datatype outbound_error = PayloadNotObject decode_error | MissingFields "string list"

definition scalarFromRaw :: "string option \<Rightarrow> string option" where
  "scalarFromRaw raw = (case raw of
     None \<Rightarrow> None
   | Some r \<Rightarrow>
       (case r of
          [] \<Rightarrow> None
        | c # _ \<Rightarrow>
            if c = CHR 0x22 then (case Unmarshal r of Some (JStr s) \<Rightarrow> Some s | _ \<Rightarrow> None)
            else if c = CHR ''-'' \<or> is_digit c then (case Unmarshal r of Some (JNum n) \<Rightarrow> Some n | _ \<Rightarrow> None)
            else None))"

definition fillTargetURL :: "string \<Rightarrow> raw_fields \<Rightarrow> outbound_error + (string \<times> raw_fields)" where
  "fillTargetURL rawURL doc =
     (let value = (\<lambda>f. scalarFromRaw (map_of doc f)); missing = filter (\<lambda>f. value f = None) (fields_of rawURL)
      in if missing \<noteq> [] then Inl (MissingFields (first_by id [] missing))
         else Inr (fill_pieces value rawURL, filter (\<lambda>f. fst f \<notin> set (fields_of rawURL)) doc))"

definition prepareOutbound :: "target_cfg \<Rightarrow> string \<Rightarrow> outbound_error + (string \<times> string)" where
  "prepareOutbound t payload =
     (let templated = (fields_of (tg_url t) \<noteq> []); inject = (tg_inject t = InjectBodyField)
      in if \<not> templated \<and> \<not> inject then Inr (tg_url t, payload)
         else case raw_object payload of
           Inl e \<Rightarrow> Inl (PayloadNotObject e)
         | Inr doc \<Rightarrow>
             (case (if templated then fillTargetURL (tg_url t) doc else Inr (tg_url t, doc)) of
                Inl e \<Rightarrow> Inl e
              | Inr (callURL, doc') \<Rightarrow>
                  Inr (callURL, encode_raw (if inject then raw_put (tg_key_field t) (quote (tg_api_key t)) doc' else doc'))))"

definition authHeaders :: "target_cfg \<Rightarrow> headers" where
  "authHeaders t = (if tg_inject t = InjectHeader then [(tg_key_header t, tg_api_key t)] else [])"

definition ForwardToTarget :: "client \<Rightarrow> (outbound \<Rightarrow> wire) \<Rightarrow> string \<Rightarrow> target_cfg \<Rightarrow> string \<Rightarrow> up_error + (nat \<times> string)" where
  "ForwardToTarget cl net name t payload =
     (let op = ''target '' @ name
      in case prepareOutbound t payload of
           Inl _ \<Rightarrow> Inl (up_failure op 0 False (OtherCause ''payload''))
         | Inr (callURL, out) \<Rightarrow> call cl net op (tg_method t) callURL (Some out) (authHeaders t) (tg_timeout t))"

definition CheckTargetPayload :: "target_cfg \<Rightarrow> string \<Rightarrow> outbound_error option" where
  "CheckTargetPayload t payload = (case prepareOutbound t payload of Inl e \<Rightarrow> Some e | Inr _ \<Rightarrow> None)"

section \<open>Paths into responses\<close>

datatype path_failure = NotJSON | Segment eval_error

fun follow :: "json \<Rightarrow> string list \<Rightarrow> eval_error + json" where
  "follow cur [] = Inr cur"
| "follow cur (seg # segs) = (case path_child cur seg of Inl e \<Rightarrow> Inl e | Inr v \<Rightarrow> follow v segs)"

definition jsonPath :: "string \<Rightarrow> string \<Rightarrow> path_failure + json" where
  "jsonPath body path = (case Decode body of
     None \<Rightarrow> Inl NotJSON
   | Some doc \<Rightarrow> (case follow doc (split_on CHR ''.'' path) of Inl e \<Rightarrow> Inl (Segment e) | Inr v \<Rightarrow> Inr v))"

definition ExtractPath :: "string \<Rightarrow> string \<Rightarrow> path_failure + string" where
  "ExtractPath body path = (if path = '''' then Inr body else map_sum id encode (jsonPath body path))"

section \<open>Polling\<close>

definition jobIDPattern :: "string \<Rightarrow> bool" where
  "jobIDPattern s \<longleftrightarrow> 1 \<le> length s \<and> length s \<le> 256 \<and> (\<forall>c \<in> set s. unreserved c)"

datatype job_id_error = IdPath path_failure | IdType | IdUnsafe

definition ExtractJobID :: "string \<Rightarrow> poll_cfg \<Rightarrow> job_id_error + string" where
  "ExtractJobID acceptBody poll = (case jsonPath acceptBody (po_id_path poll) of
     Inl e \<Rightarrow> Inl (IdPath e)
   | Inr v \<Rightarrow>
       (case (case v of JStr s \<Rightarrow> Some s | JNum n \<Rightarrow> Some n | _ \<Rightarrow> None) of
          None \<Rightarrow> Inl IdType
        | Some i \<Rightarrow> if jobIDPattern i then Inr i else Inl IdUnsafe))"

text \<open>The text \<^verbatim>\<open>fmt.Sprintf("%v", v)\<close> gives a decoded value.\<close>

fun show_value :: "json \<Rightarrow> string" where
  "show_value JNull = ''<nil>''"
| "show_value (JBool b) = (if b then ''true'' else ''false'')"
| "show_value (JNum n) = n"
| "show_value (JStr s) = s"
| "show_value (JArr xs) = ''['' @ join_text '' '' (map show_value xs) @ '']''"
| "show_value (JObj fs) = ''map['' @ join_text '' '' (map (\<lambda>f. fst f @ '':'' @ show_value (snd f)) fs) @ '']''"

record poll_status =
  ps_done :: bool
  ps_failed :: bool
  ps_raw :: string

definition id_url :: "string \<Rightarrow> string \<Rightarrow> string" where
  "id_url template targetJobID = ReplaceAll template ''{id}'' (PathEscape targetJobID)"

definition PollTarget :: "client \<Rightarrow> (outbound \<Rightarrow> wire) \<Rightarrow> string \<Rightarrow> target_cfg \<Rightarrow> poll_cfg \<Rightarrow> string \<Rightarrow> up_error + poll_status" where
  "PollTarget cl net name t poll targetJobID =
     (let op = ''poll '' @ name
      in case call cl net op ''GET'' (id_url (po_url poll) targetJobID) None (authHeaders t) (tg_timeout t) of
           Inl e \<Rightarrow> Inl e
         | Inr (_, body) \<Rightarrow>
             (case jsonPath body (po_status_path poll) of
                Inl _ \<Rightarrow> Inl (up_failure op 0 False (OtherCause ''status''))
              | Inr v \<Rightarrow> (let raw = show_value v in Inr \<lparr>ps_done = raw \<in> set (po_done poll), ps_failed = raw \<in> set (po_failed poll), ps_raw = raw\<rparr>)))"

definition CancelTarget :: "client \<Rightarrow> (outbound \<Rightarrow> wire) \<Rightarrow> string \<Rightarrow> target_cfg \<Rightarrow> poll_cfg \<Rightarrow> string \<Rightarrow> up_error option" where
  "CancelTarget cl net name t poll targetJobID =
     (case call cl net (''cancel '' @ name) ''DELETE'' (id_url (po_cancel_url poll) targetJobID) None (authHeaders t) (tg_timeout t) of
        Inl e \<Rightarrow> Some e | Inr _ \<Rightarrow> None)"

record result_stream =
  rs_ctype :: string
  rs_delivered :: string
  rs_error :: "cause option"

definition FetchResult :: "(outbound \<Rightarrow> wire) \<Rightarrow> string \<Rightarrow> target_cfg \<Rightarrow> poll_cfg \<Rightarrow> string \<Rightarrow> up_error + result_stream" where
  "FetchResult net name t poll targetJobID =
     (let op = ''result '' @ name
      in case send net op ''GET'' (id_url (po_result_url poll) targetJobID) None (authHeaders t) (ResultBudget poll) of
           Inl e \<Rightarrow> Inl e
         | Inr (status, ctype, delivered, err) \<Rightarrow>
             if status < 200 \<or> 300 \<le> status
             then Inl \<lparr>ue_op = op, ue_status = status, ue_transient = (status = 429 \<or> 500 \<le> status), ue_body = '''', ue_cause = None\<rparr>
             else Inr \<lparr>rs_ctype = ctype, rs_delivered = delivered, rs_error = err\<rparr>)"

section \<open>Resource APIs\<close>

datatype resource_error = NotScalar | FieldNotScalar string | ElementNotScalar string nat | MissingScalars "string list" | BadURL

definition strconvBool :: "bool \<Rightarrow> string" where
  "strconvBool b = (if b then ''true'' else ''false'')"

definition scalarString :: "json option \<Rightarrow> string option" where
  "scalarString v = (case v of
     Some (JStr s) \<Rightarrow> Some s | Some (JNum n) \<Rightarrow> Some n | Some (JBool b) \<Rightarrow> Some (strconvBool b) | _ \<Rightarrow> None)"

definition queryString :: "string \<Rightarrow> json \<Rightarrow> resource_error + string" where
  "queryString field v = (case v of
     JArr xs \<Rightarrow>
       map_sum id (join_with CHR '','')
         (traverse (\<lambda>x. case scalarString (Some x) of None \<Rightarrow> Inl () | Some s \<Rightarrow> Inr s) (\<lambda>i _. ElementNotScalar field i) 0 xs)
   | _ \<Rightarrow> (case scalarString (Some v) of None \<Rightarrow> Inl (FieldNotScalar field) | Some s \<Rightarrow> Inr s))"

definition fillPathPlaceholders :: "string \<Rightarrow> fields \<Rightarrow> resource_error + (string \<times> string list)" where
  "fillPathPlaceholders rawURL payload =
     (let value = (\<lambda>f. scalarString (obj_get payload f)); missing = filter (\<lambda>f. value f = None) (fields_of rawURL)
      in if missing \<noteq> [] then Inl (MissingScalars missing)
         else Inr (fill_pieces value rawURL, [''type'', ''name''] @ fields_of rawURL))"

fun addQueryFields :: "(string \<times> string list) list \<Rightarrow> fields \<Rightarrow> string list \<Rightarrow> (string \<Rightarrow> string option)
    \<Rightarrow> resource_error + (string \<times> string list) list" where
  "addQueryFields q [] consumed queryMap = Inr q"
| "addQueryFields q ((field, v) # fs) consumed queryMap =
     (if field \<in> set consumed then addQueryFields q fs consumed queryMap
      else case queryString field v of
        Inl e \<Rightarrow> Inl e
      | Inr s \<Rightarrow> addQueryFields (values_set (case queryMap field of Some p \<Rightarrow> p | None \<Rightarrow> field) s q) fs consumed queryMap)"

definition buildResolventURL :: "'u url_lib \<Rightarrow> string \<Rightarrow> fields \<Rightarrow> (string \<Rightarrow> string option) \<Rightarrow> resource_error + string" where
  "buildResolventURL lib rawURL payload queryMap =
     (case fillPathPlaceholders rawURL payload of
        Inl e \<Rightarrow> Inl e
      | Inr (templated, consumed) \<Rightarrow>
          (case url_parse lib templated of
             None \<Rightarrow> Inl BadURL
           | Some u \<Rightarrow>
               (case addQueryFields (url_query lib u) payload consumed queryMap of
                  Inl e \<Rightarrow> Inl e | Inr q \<Rightarrow> Inr (url_text lib u (values_encode q)))))"

definition ResolveResolvent :: "'u url_lib \<Rightarrow> client \<Rightarrow> (outbound \<Rightarrow> wire) \<Rightarrow> string \<Rightarrow> resolvent_cfg \<Rightarrow> fields \<Rightarrow> up_error + string" where
  "ResolveResolvent lib cl net typ r payload =
     (let op = ''resource '' @ typ;
          headers = (if rv_api_key r \<noteq> '''' then [(rv_key_header r, rv_api_key r)] else [])
      in if rv_method r = ''GET'' then
           (case buildResolventURL lib (rv_url r) payload (case rv_query_map r of None \<Rightarrow> (\<lambda>_. None) | Some m \<Rightarrow> map_of m) of
              Inl _ \<Rightarrow> Inl (up_failure op 0 False (OtherCause ''url''))
            | Inr callURL \<Rightarrow> map_sum id snd (call cl net op ''GET'' callURL None headers (rv_timeout r)))
         else map_sum id snd (call cl net op (rv_method r) (rv_url r) (Some (encode (JObj payload))) headers (rv_timeout r)))"

end
