(* ===== verification/Plan.thy ===== *)
theory Plan
  imports Upstream Chain
begin

text \<open>
  \<^verbatim>\<open>internal/plan/plan.go\<close>: inspecting a request without calling anyone. A problem carries the
  error it renders; \<open>problem_code\<close> is the code the job would fail with. The hash (SHA-256 in hexadecimal)
  is a parameter.
\<close>

datatype plan_error =
  TargetNotConfigured string | TargetPayload outbound_error | PayloadInvalid decode_error
| ResolventNotConfigured string | ReferencesInvalid chain_error

fun problem_code :: "plan_error \<Rightarrow> string" where
  "problem_code (TargetNotConfigured _) = ''unknown_target''"
| "problem_code (TargetPayload _) = ''target_error''"
| "problem_code (PayloadInvalid _) = ''invalid_payload''"
| "problem_code (ResolventNotConfigured _) = ''unknown_resolvent''"
| "problem_code (ReferencesInvalid _) = ''invalid_payload''"

definition ProblemCodes :: "string list" where
  "ProblemCodes = [''invalid_payload'', ''unknown_resolvent'', ''target_error'']"

text \<open>\<open>pl_bindings\<close> are the references \<^verbatim>\<open>Chain\<close> records in each found resolvent; levels hold positions in \<open>pl_found\<close>.\<close>

record plan =
  pl_target :: "target_cfg option"
  pl_root :: "fields option"
  pl_found :: "found list"
  pl_bindings :: "nat \<Rightarrow> (string \<times> nat) list"
  pl_levels :: "nat list list"
  pl_problems :: "plan_error list"

definition no_plan :: plan where
  "no_plan = \<lparr>pl_target = None, pl_root = None, pl_found = [], pl_bindings = (\<lambda>_. []), pl_levels = [], pl_problems = []\<rparr>"

definition plan_OK :: "plan \<Rightarrow> bool" where
  "plan_OK p \<longleftrightarrow> length (pl_problems p) = 0"

definition ContainerPath :: "target_cfg \<Rightarrow> string" where
  "ContainerPath t = (if tg_ts_path t = RootTimeseriesPath then '''' else tg_ts_path t)"

definition rehash_known :: "(string \<Rightarrow> string) \<Rightarrow> config \<Rightarrow> found \<Rightarrow> found" where
  "rehash_known sha c f = (case resolvent_of c (fd_type f) of None \<Rightarrow> f | Some r \<Rightarrow> Rehash sha (CacheIgnore r) f)"

definition Inspect :: "(string \<Rightarrow> string) \<Rightarrow> config \<Rightarrow> string \<Rightarrow> string \<Rightarrow> plan" where
  "Inspect sha c target payload =
     (case target_of c target of
        None \<Rightarrow> no_plan\<lparr>pl_problems := [TargetNotConfigured target]\<rparr>
      | Some t \<Rightarrow>
          (let p = no_plan\<lparr>pl_target := Some t\<rparr>
           in if tg_proxy t then
                (case CheckTargetPayload t payload of None \<Rightarrow> p | Some e \<Rightarrow> p\<lparr>pl_problems := [TargetPayload e]\<rparr>)
              else case ParsePayload payload of
                Inl e \<Rightarrow> p\<lparr>pl_problems := [PayloadInvalid e]\<rparr>
              | Inr doc \<Rightarrow>
                  (let found = Find sha doc (ContainerPath t);
                       unknown = filter (\<lambda>typ. resolvent_of c typ = None) (DistinctTypes found);
                       found' = map (rehash_known sha c) found;
                       p' = p\<lparr>pl_root := Some doc, pl_found := found', pl_problems := map ResolventNotConfigured unknown\<rparr>
                   in case Chain found' of
                        Inl e \<Rightarrow> p'\<lparr>pl_problems := pl_problems p' @ [ReferencesInvalid e]\<rparr>
                      | Inr (bs, levels) \<Rightarrow> p'\<lparr>pl_bindings := bs, pl_levels := levels\<rparr>)))"

section \<open>Discovery\<close>

record target_info =
  ti_name :: string
  ti_mode :: string
  ti_proxy :: bool
  ti_path :: string
  ti_attach :: "bool option"

definition attachResolvent :: "target_cfg \<Rightarrow> bool" where
  "attachResolvent t \<longleftrightarrow> tg_attach t = None \<or> tg_attach t = Some True"

definition Targets :: "config \<Rightarrow> target_info list" where
  "Targets c = map (\<lambda>(name, t). \<lparr>ti_name = name, ti_mode = re_mode (tg_response t), ti_proxy = tg_proxy t,
      ti_path = (if tg_proxy t then '''' else tg_ts_path t),
      ti_attach = (if tg_proxy t then None else Some (attachResolvent t))\<rparr>) (cf_targets c)"

text \<open>\<^verbatim>\<open>time.Duration.String\<close>.\<close>

fun frac_digits :: "nat \<Rightarrow> nat \<Rightarrow> string" where
  "frac_digits 0 v = []"
| "frac_digits (Suc n) v = frac_digits n (v div 10) @ [digit_char (v mod 10)]"

definition with_frac :: "nat \<Rightarrow> nat \<Rightarrow> string" where
  "with_frac prec v = (let f = drop_zeros (frac_digits prec (v mod 10 ^ prec))
     in show_nat (v div 10 ^ prec) @ (if f = [] then [] else ''.'' @ f))"

definition duration_text :: "duration \<Rightarrow> string" where
  "duration_text d =
     (let u = nat \<bar>d\<bar>; secs = u div 10 ^ 9;
          body = (if u = 0 then ''0s''
                  else if u < 10 ^ 3 then show_nat u @ ''ns''
                  else if u < 10 ^ 6 then with_frac 3 u @ map char_of [0xC2, 0xB5 :: nat] @ ''s''
                  else if u < 10 ^ 9 then with_frac 6 u @ ''ms''
                  else (if secs div 3600 = 0 then [] else show_nat (secs div 3600) @ ''h'')
                     @ (if secs div 60 = 0 then [] else show_nat (secs div 60 mod 60) @ ''m'')
                     @ with_frac 9 (u mod (60 * 10 ^ 9)) @ ''s'')
      in if d < 0 then ''-'' @ body else body)"

record resolvent_info =
  ri_type :: string
  ri_backend :: string
  ri_target :: string
  ri_cache_ttl :: string

definition Resolvents :: "config \<Rightarrow> resolvent_info list" where
  "Resolvents c = map (\<lambda>(typ, r). \<lparr>ri_type = typ,
      ri_backend = (if rv_target r \<noteq> '''' then ''target'' else if rv_method r = ''GET'' then ''get'' else ''post''),
      ri_target = rv_target r, ri_cache_ttl = duration_text (rv_cache_ttl r)\<rparr>) (cf_resolvents c)"

section \<open>Facts\<close>

lemma plan_problem_codes:
  assumes "e \<in> set (pl_problems (Inspect sha c target payload))" and "target_of c target \<noteq> None"
  shows "problem_code e \<in> set ProblemCodes"
  using assms by (auto simp: Inspect_def Let_def ProblemCodes_def no_plan_def split: option.splits sum.splits if_splits)

lemma plan_OK_found:
  assumes "plan_OK (Inspect sha c target payload)" "target_of c target = Some t" "\<not> tg_proxy t"
  obtains doc bs levels where "ParsePayload payload = Inr doc"
    and "pl_root (Inspect sha c target payload) = Some doc"
    and "pl_found (Inspect sha c target payload) = map (rehash_known sha c) (Find sha doc (ContainerPath t))"
    and "Chain (pl_found (Inspect sha c target payload)) = Inr (bs, levels)"
    and "pl_bindings (Inspect sha c target payload) = bs" and "pl_levels (Inspect sha c target payload) = levels"
    and "\<forall>f \<in> set (pl_found (Inspect sha c target payload)). resolvent_of c (fd_type f) \<noteq> None"
proof -
  let ?p = "Inspect sha c target payload"
  from assms obtain doc where r: "ParsePayload payload = Inr doc"
    by (auto simp: Inspect_def Let_def plan_OK_def split: option.splits sum.splits)
  let ?F = "Find sha doc (ContainerPath t)"
  from assms r obtain bs lv where ch: "Chain (map (rehash_known sha c) ?F) = Inr (bs, lv)"
    by (auto simp: Inspect_def Let_def plan_OK_def split: sum.splits)
  have p: "?p = \<lparr>pl_target = Some t, pl_root = Some doc, pl_found = map (rehash_known sha c) ?F, pl_bindings = bs,
      pl_levels = lv, pl_problems = map ResolventNotConfigured (filter (\<lambda>typ. resolvent_of c typ = None) (DistinctTypes ?F))\<rparr>"
    using assms r ch by (simp add: Inspect_def Let_def no_plan_def)
  have "filter (\<lambda>typ. resolvent_of c typ = None) (DistinctTypes ?F) = []" using assms(1) by (simp add: plan_OK_def p)
  moreover have "set (DistinctTypes ?F) = fd_type ` set ?F"
    using first_by_keys [of fd_type "[]" ?F] by (simp add: DistinctTypes_def)
  ultimately have "\<forall>f \<in> set ?F. resolvent_of c (fd_type f) \<noteq> None" by (auto simp: filter_empty_conv)
  then have "\<forall>f \<in> set (pl_found ?p). resolvent_of c (fd_type f) \<noteq> None"
    by (auto simp: p rehash_known_def Rehash_def split: option.splits)
  with that r ch show ?thesis by (simp add: p)
qed

end
