(* ===== verification/Worker.thy ===== *)
theory Worker
  imports Plan Job_Steps
begin

text \<open>
  \<^verbatim>\<open>internal/worker/process.go\<close> and \<^verbatim>\<open>pool.go\<close>: processing one claimed job. The state is the database, the
  files of the results directory and the jobs whose waiters were woken. Everything outside the program is in a
  record of parameters: the network per call, which store writes and file operations succeed, the clock, what
  other connections commit before each write, the jitter of a backoff, and the scheduling of the resolvent
  fetches. Rendered error texts are a parameter too. A fetch runs in some order with its siblings; what can vary is which later resolvents are skipped
  once one has failed, and that is what \<open>en_skip\<close> chooses. Logging and metrics are left out.
\<close>

section \<open>Errors\<close>

datatype fetch_error =
  UpFail up_error | CtxErr cause | BadBody string | RefFail fill_error | PlainErr string

fun IsTransient :: "fetch_error \<Rightarrow> bool" where
  "IsTransient (UpFail e) = ue_transient e"
| "IsTransient _ = False"

fun error_cause :: "fetch_error \<Rightarrow> cause option" where
  "error_cause (UpFail e) = ue_cause e"
| "error_cause (CtxErr c) = Some c"
| "error_cause _ = None"

definition isContextErr :: "fetch_error \<Rightarrow> bool" where
  "isContextErr e \<longleftrightarrow> error_cause e = Some Canceled \<or> error_cause e = Some DeadlineExceeded"

section \<open>The outside\<close>

record wenv =
  en_net :: "string \<Rightarrow> outbound \<Rightarrow> wire"
  en_up :: "string \<Rightarrow> bool"
  en_now :: "string \<Rightarrow> instant"
  en_fs :: "string \<Rightarrow> bool"
  en_tmp :: string
  en_jitter :: "duration \<Rightarrow> duration"
  en_skip :: "string \<Rightarrow> bool"
  en_ctx :: "string \<Rightarrow> cause option"
  en_other :: "string \<Rightarrow> db \<Rightarrow> db"
  en_text :: "fetch_error \<Rightarrow> string"

record world =
  w_db :: db
  w_files :: "(string \<times> string) list"
  w_notified :: "string list"

definition store_do :: "wenv \<Rightarrow> string \<Rightarrow> (bool \<Rightarrow> instant \<Rightarrow> db \<Rightarrow> 'a res \<times> db) \<Rightarrow> world \<Rightarrow> 'a res \<times> world" where
  "store_do e step f w =
     (let (r, d') = f (en_up e step) (en_now e step) (en_other e step (w_db w)) in (r, w\<lparr>w_db := d'\<rparr>))"

definition notify_job :: "job \<Rightarrow> world \<Rightarrow> world" where
  "notify_job job w = w\<lparr>w_notified := w_notified w @ [j_id job]\<rparr>"

section \<open>Files\<close>

definition file_put :: "string \<Rightarrow> string \<Rightarrow> world \<Rightarrow> world" where
  "file_put path body w = w\<lparr>w_files := (path, body) # filter (\<lambda>f. fst f \<noteq> path) (w_files w)\<rparr>"

definition file_remove :: "wenv \<Rightarrow> string \<Rightarrow> world \<Rightarrow> world" where
  "file_remove e path w = (if en_fs e ''remove'' then w\<lparr>w_files := filter (\<lambda>f. fst f \<noteq> path) (w_files w)\<rparr> else w)"

definition file_rename :: "string \<Rightarrow> string \<Rightarrow> world \<Rightarrow> world" where
  "file_rename from to w = (case map_of (w_files w) from of None \<Rightarrow> w
     | Some body \<Rightarrow> w\<lparr>w_files := (to, body) # filter (\<lambda>f. fst f \<noteq> from \<and> fst f \<noteq> to) (w_files w)\<rparr>)"

text \<open>\<^verbatim>\<open>filepath.Join\<close>: the cleaned concatenation.\<close>

fun clean_segs :: "bool \<Rightarrow> string list \<Rightarrow> string list \<Rightarrow> string list" where
  "clean_segs rooted stack [] = rev stack"
| "clean_segs rooted stack (seg # segs) =
     (if seg = '''' \<or> seg = ''.'' then clean_segs rooted stack segs
      else if seg = ''..'' then
        (case stack of
           [] \<Rightarrow> clean_segs rooted (if rooted then [] else [''..'']) segs
         | seg0 # rest \<Rightarrow> if seg0 = ''..'' then clean_segs rooted (''..'' # stack) segs else clean_segs rooted rest segs)
      else clean_segs rooted (seg # stack) segs)"

definition path_clean :: "string \<Rightarrow> string" where
  "path_clean p =
     (let rooted = HasPrefix p ''/''; segs = clean_segs rooted [] (split_on CHR ''/'' p)
      in if rooted then ''/'' @ join_with CHR ''/'' segs else if segs = [] then ''.'' else join_with CHR ''/'' segs)"

definition path_join :: "string \<Rightarrow> string \<Rightarrow> string" where
  "path_join dir name = path_clean (if dir = '''' then name else dir @ ''/'' @ name)"

definition resultExt :: "string \<Rightarrow> string" where
  "resultExt ct = (if Contains ct ''zip'' then ''.zip'' else if Contains ct ''json'' then ''.json'' else ''.bin'')"

section \<open>Outcomes\<close>

definition failJob :: "wenv \<Rightarrow> job \<Rightarrow> string \<Rightarrow> string \<Rightarrow> world \<Rightarrow> world" where
  "failJob e job code message w =
     (case store_do e ''fail'' (\<lambda>up now. MarkFailed up now (j_id job) code message) w of
        (Inl _, w') \<Rightarrow> w'
      | (Inr _, w') \<Rightarrow> notify_job job w')"

text \<open>The delay before the next attempt, without jitter: doubled per attempt on 64 bits, capped, and the cap when the shift overflowed.\<close>

definition backoff_of :: "worker_cfg \<Rightarrow> int \<Rightarrow> duration" where
  "backoff_of wc attempts =
     (let b = wrap64 (wk_backoff_base wc * 2 ^ nat (attempts - 1))
      in if wk_backoff_max wc < b \<or> b \<le> 0 then wk_backoff_max wc else b)"

definition round_ms :: "duration \<Rightarrow> duration" where
  "round_ms d = (if d < 0 then - (((- d + 500000) div 1000000) * 1000000) else ((d + 500000) div 1000000) * 1000000)"

definition retryOrFail :: "config \<Rightarrow> wenv \<Rightarrow> job \<Rightarrow> string \<Rightarrow> fetch_error \<Rightarrow> world \<Rightarrow> world" where
  "retryOrFail c e job permanentCode err w =
     (if \<not> IsTransient err \<and> \<not> isContextErr err then failJob e job permanentCode (en_text e err) w
      else if j_max_attempts job \<le> j_attempts job
      then failJob e job ''max_attempts_exceeded''
             (''gave up after '' @ show_int (j_attempts job) @ '' attempts, last error: '' @ en_text e err) w
      else let backoff = en_jitter e (backoff_of (cf_worker c) (j_attempts job));
               detail = ''attempt '' @ show_int (j_attempts job) @ ''/'' @ show_int (j_max_attempts job) @ '' failed ('' @ en_text e err
                 @ ''), retrying in '' @ duration_text (round_ms backoff)
           in snd (store_do e ''requeue'' (\<lambda>up now. Requeue up now (j_id job) (now + backoff) detail) w))"

definition discardLateResult :: "wenv \<Rightarrow> string \<Rightarrow> string \<Rightarrow> world \<Rightarrow> world" where
  "discardLateResult e jobID path w =
     (if path = '''' then w
      else case (if en_up e ''get'' then GetJob (en_other e ''get'' (w_db w)) jobID else Inl ErrDriver) of
        Inl _ \<Rightarrow> w
      | Inr current \<Rightarrow> if j_result_path current = path then w else file_remove e path w)"

definition markCompleted :: "wenv \<Rightarrow> job \<Rightarrow> int \<Rightarrow> string option \<Rightarrow> string \<Rightarrow> string \<Rightarrow> string \<Rightarrow> world \<Rightarrow> world" where
  "markCompleted e job status body path ct detail w =
     (case store_do e ''complete'' (\<lambda>up now. MarkCompleted up now (j_id job) status body path ct detail) w of
        (Inl err, w') \<Rightarrow> if err = ErrTerminalState then discardLateResult e (j_id job) path w' else w'
      | (Inr _, w') \<Rightarrow> notify_job job w')"

definition writeResultFile :: "config \<Rightarrow> wenv \<Rightarrow> string \<Rightarrow> string \<Rightarrow> string \<Rightarrow> world \<Rightarrow> string option \<times> world" where
  "writeResultFile c e jobID ct body w =
     (let path = path_join (sg_results_dir (cf_storage c)) (jobID @ resultExt ct)
      in if \<not> en_fs e ''mkdir'' \<or> \<not> en_fs e ''create'' then (None, w)
         else let w1 = file_put (en_tmp e) body w
              in if \<not> en_fs e ''write'' \<or> \<not> en_fs e ''close'' \<or> \<not> en_fs e ''rename'' then (None, file_remove e (en_tmp e) w1)
                 else (Some path, file_rename (en_tmp e) path w1))"

definition inlineResultLimit :: nat where "inlineResultLimit = 256 * 1024"

definition complete :: "config \<Rightarrow> wenv \<Rightarrow> job \<Rightarrow> int \<Rightarrow> string \<Rightarrow> string \<Rightarrow> string \<Rightarrow> world \<Rightarrow> world" where
  "complete c e job status contentType body detail w =
     (let isJSON = Valid body;
          ct = (if isJSON then ''application/json'' else if contentType = '''' then ''application/octet-stream'' else contentType)
      in if isJSON \<and> length body \<le> inlineResultLimit then markCompleted e job status (Some body) '''' '''' detail w
         else case writeResultFile c e (j_id job) ct body w of
           (None, w') \<Rightarrow> failJob e job ''internal'' (en_text e (PlainErr ''write result file'')) w'
         | (Some path, w') \<Rightarrow> markCompleted e job status None path ct detail w')"

section \<open>Fetching resolvents\<close>

definition zero_resolvent :: resolvent_cfg where
  "zero_resolvent = \<lparr>rv_url = '''', rv_method = '''', rv_api_key = '''', rv_key_header = '''', rv_timeout = 0, rv_cache_ttl = 0,
     rv_target = '''', rv_payload_field = '''', rv_response_path = '''', rv_query_map = None, rv_cache_ignore = None, rv_response_map = None\<rparr>"

definition rcfg_of :: "config \<Rightarrow> string \<Rightarrow> resolvent_cfg" where
  "rcfg_of c typ = (case resolvent_of c typ of None \<Rightarrow> zero_resolvent | Some r \<Rightarrow> r)"

definition callResolventBackend :: "'u url_lib \<Rightarrow> config \<Rightarrow> client \<Rightarrow> wenv \<Rightarrow> found \<Rightarrow> resolvent_cfg \<Rightarrow> fetch_error + string" where
  "callResolventBackend lib c cl e f r =
     (case (if rv_payload_field r \<noteq> ''''
            then (case obj_get (fd_input f) (rv_payload_field r) of Some (JObj nested) \<Rightarrow> Some nested | _ \<Rightarrow> None)
            else Some (fd_input f)) of
        None \<Rightarrow> Inl (PlainErr ''payload_field'')
      | Some payload \<Rightarrow>
          if rv_target r \<noteq> '''' then
            (case target_of c (rv_target r) of
               None \<Rightarrow> Inl (PlainErr ''backing target'')
             | Some t \<Rightarrow>
                 (case ForwardToTarget cl (en_net e (fd_hash f)) (rv_target r) t (encode (JObj payload)) of
                    Inl u \<Rightarrow> Inl (UpFail u) | Inr (_, body) \<Rightarrow> Inr body))
          else map_sum UpFail id (ResolveResolvent lib cl (en_net e (fd_hash f)) (fd_type f) r payload))"

text \<open>
  \<^verbatim>\<open>json.Unmarshal\<close> into a map without \<^verbatim>\<open>UseNumber\<close> also refuses numbers beyond the range of a
  double: those that would round to infinity.
\<close>

definition float_limit :: nat where "float_limit = 2 ^ 1024 - 2 ^ 970"

definition fits_float :: "string \<Rightarrow> bool" where
  "fits_float s =
     (let s0 = (if HasPrefix s ''-'' then tl s else s); ip = takeWhile is_digit s0; s1 = dropWhile is_digit s0;
          (fp, s2) = (if HasPrefix s1 ''.'' then (takeWhile is_digit (tl s1), dropWhile is_digit (tl s1)) else ('''', s1));
          m = (case digits_val 0 (ip @ fp) of Some n \<Rightarrow> n | None \<Rightarrow> 0);
          ed = (case s2 of _ # r \<Rightarrow> r | [] \<Rightarrow> ''''); neg = HasPrefix ed ''-'';
          ex = (case digits_val 0 (filter is_digit ed) of Some n \<Rightarrow> n | None \<Rightarrow> 0);
          k = (if neg then - int ex else int ex) - int (length fp)
      in m = 0 \<or> (if 0 \<le> k then k < 400 \<and> m * 10 ^ nat k < float_limit
                  else int (length (ip @ fp)) + k < 400 \<and> m < float_limit * 10 ^ nat (- k)))"

primrec floats_ok :: "json \<Rightarrow> bool" where
  "floats_ok JNull = True"
| "floats_ok (JBool b) = True"
| "floats_ok (JNum n) = fits_float n"
| "floats_ok (JStr s) = True"
| "floats_ok (JArr xs) = list_all id (map floats_ok xs)"
| "floats_ok (JObj fs) = list_all snd (map (map_prod id floats_ok) fs)"

definition probe :: "string \<Rightarrow> bool" where
  "probe body = (case Unmarshal body of Some (JObj fs) \<Rightarrow> floats_ok (JObj fs) | _ \<Rightarrow> False)"

definition adapt_response :: "resolvent_cfg \<Rightarrow> string \<Rightarrow> string option" where
  "adapt_response r body =
     (case (if rv_response_path r \<noteq> '''' then (case ExtractPath body (rv_response_path r) of Inl _ \<Rightarrow> None | Inr b \<Rightarrow> Some b) else Some body) of
        None \<Rightarrow> None
      | Some b \<Rightarrow>
          (case (case rv_response_map r of
                   None \<Rightarrow> Some b
                 | Some m \<Rightarrow> if m = [] then Some b else (case ApplyMap b m of Inl _ \<Rightarrow> None | Inr b' \<Rightarrow> Some b')) of
             None \<Rightarrow> None
           | Some b' \<Rightarrow> if probe b' then Some b' else None))"

definition cache_key :: "string \<Rightarrow> string \<Rightarrow> string" where
  "cache_key step hash = step @ '' '' @ hash"

definition fetchOne :: "'u url_lib \<Rightarrow> config \<Rightarrow> client \<Rightarrow> wenv \<Rightarrow> string \<Rightarrow> found \<Rightarrow> db \<Rightarrow> (fetch_error + (string \<times> bool)) \<times> db" where
  "fetchOne lib c cl e cacheMode f d =
     (let rd = cache_key ''read'' (fd_hash f); d0 = en_other e rd d;
          hit = (if cacheMode \<noteq> CacheBypass \<and> cacheMode \<noteq> CacheRefresh
                 then (case GetSeries (en_up e rd) (en_now e rd) (fd_hash f) d0 of Inr (Some body) \<Rightarrow> Some body | _ \<Rightarrow> None)
                 else None);
          r = rcfg_of c (fd_type f)
      in case hit of
           Some body \<Rightarrow> (Inr (body, True), d0)
         | None \<Rightarrow>
             (case callResolventBackend lib c cl e f r of
                Inl err \<Rightarrow> (Inl err, d0)
              | Inr raw \<Rightarrow>
                  (case adapt_response r raw of
                     None \<Rightarrow> (Inl (BadBody (fd_type f)), d0)
                   | Some body \<Rightarrow>
                       if cacheMode = CacheBypass then (Inr (body, False), d0)
                       else let wr = cache_key ''write'' (fd_hash f)
                            in (Inr (body, False),
                                snd (PutSeries (en_up e wr) (en_now e wr) (fd_hash f) (fd_type f) body (rv_cache_ttl r) (en_other e wr d0))))))"

definition uniqueByHash :: "found list \<Rightarrow> found list" where
  "uniqueByHash fs = first_by fd_hash [] fs"

text \<open>One result per unique resolvent, in document order; \<open>stopped\<close> says that an earlier one has failed.\<close>

fun feedResolvents :: "'u url_lib \<Rightarrow> config \<Rightarrow> client \<Rightarrow> wenv \<Rightarrow> string \<Rightarrow> bool \<Rightarrow> found list \<Rightarrow> db
    \<Rightarrow> (found \<times> (fetch_error + (string \<times> bool))) list \<times> db" where
  "feedResolvents lib c cl e cacheMode stopped [] d = ([], d)"
| "feedResolvents lib c cl e cacheMode stopped (f # fs) d =
     (let (r, d') = (case en_ctx e (fd_hash f) of
                       Some x \<Rightarrow> (Inl (CtxErr x), d)
                     | None \<Rightarrow> if stopped \<and> en_skip e (fd_hash f) then (Inl (CtxErr Canceled), d)
                              else fetchOne lib c cl e cacheMode f d);
          (rs, d'') = feedResolvents lib c cl e cacheMode (stopped \<or> isl r) fs d'
      in ((f, r) # rs, d''))"

definition pickResolveError :: "(found \<times> (fetch_error + 'a)) list \<Rightarrow> fetch_error option" where
  "pickResolveError rs =
     (let errs = List.map_filter (\<lambda>(_, r). case r of Inl x \<Rightarrow> Some x | Inr _ \<Rightarrow> None) rs
      in case find (\<lambda>x. \<not> isContextErr x) errs of
           Some x \<Rightarrow> Some x
         | None \<Rightarrow> (case errs of [] \<Rightarrow> None | x # _ \<Rightarrow> Some x))"

definition collectFetches :: "(found \<times> (fetch_error + (string \<times> bool))) list \<Rightarrow> fetch_error + ((string \<times> string) list \<times> nat)" where
  "collectFetches rs = (case pickResolveError rs of
     Some x \<Rightarrow> Inl x
   | None \<Rightarrow> Inr (map (\<lambda>(f, r). (fd_hash f, fst (projr r))) rs, length (filter (\<lambda>(f, r). snd (projr r)) rs)))"

definition fetchAll :: "'u url_lib \<Rightarrow> config \<Rightarrow> client \<Rightarrow> wenv \<Rightarrow> string \<Rightarrow> found list \<Rightarrow> db
    \<Rightarrow> (fetch_error + ((string \<times> string) list \<times> nat)) \<times> db" where
  "fetchAll lib c cl e cacheMode fs d =
     (let (rs, d') = feedResolvents lib c cl e cacheMode False (uniqueByHash fs) d in (collectFetches rs, d'))"

text \<open>The found resolvents with the references of one level filled and their hashes renewed.\<close>

fun fill_level :: "(string \<Rightarrow> string) \<Rightarrow> config \<Rightarrow> (nat \<Rightarrow> (string \<times> nat) list) \<Rightarrow> (string \<times> string) list \<Rightarrow> nat list \<Rightarrow> found list
    \<Rightarrow> fill_error + found list" where
  "fill_level sha c bs series [] fs = Inr fs"
| "fill_level sha c bs series (i # is) fs =
     (case Fill (\<lambda>j. map_of series (fd_hash (fs ! j))) (bs i) (fs ! i) of
        Inl x \<Rightarrow> Inl x
      | Inr (filled, f') \<Rightarrow>
          fill_level sha c bs series is (fs[i := if filled then Rehash sha (CacheIgnore (rcfg_of c (fd_type f'))) f' else f']))"

fun fetchChain :: "'u url_lib \<Rightarrow> (string \<Rightarrow> string) \<Rightarrow> config \<Rightarrow> client \<Rightarrow> wenv \<Rightarrow> string \<Rightarrow> (nat \<Rightarrow> (string \<times> nat) list)
    \<Rightarrow> nat list list \<Rightarrow> found list \<Rightarrow> (string \<times> string) list \<Rightarrow> nat \<Rightarrow> db
    \<Rightarrow> (fetch_error + (found list \<times> (string \<times> string) list \<times> nat)) \<times> db" where
  "fetchChain lib sha c cl e cacheMode bs [] fs series cached d = (Inr (fs, series, cached), d)"
| "fetchChain lib sha c cl e cacheMode bs (lv # levels) fs series cached d =
     (case fill_level sha c bs series lv fs of
        Inl x \<Rightarrow> (Inl (RefFail x), d)
      | Inr fs' \<Rightarrow>
          (case fetchAll lib c cl e cacheMode (map (\<lambda>i. fs' ! i) lv) d of
             (Inl x, d') \<Rightarrow> (Inl x, d')
           | (Inr (got, n), d') \<Rightarrow> fetchChain lib sha c cl e cacheMode bs levels fs' (got @ series) (cached + n) d'))"

fun substitute_all :: "found list \<Rightarrow> (string \<times> string) list \<Rightarrow> bool \<Rightarrow> json \<Rightarrow> decode_error + json" where
  "substitute_all [] series attach doc = Inr doc"
| "substitute_all (f # fs) series attach doc =
     (case Substitute f (case map_of series (fd_hash f) of Some b \<Rightarrow> b | None \<Rightarrow> '''') attach doc of
        Inl x \<Rightarrow> Inl x
      | Inr (_, doc') \<Rightarrow> substitute_all fs series attach doc')"

definition substitute :: "fields \<Rightarrow> found list \<Rightarrow> (string \<times> string) list \<Rightarrow> bool \<Rightarrow> decode_error + string" where
  "substitute doc fs series attach = map_sum id encode (substitute_all fs series attach (JObj doc))"

section \<open>Forwarding and polling\<close>

definition parkForPolling :: "wenv \<Rightarrow> job \<Rightarrow> poll_cfg \<Rightarrow> nat \<Rightarrow> string \<Rightarrow> world \<Rightarrow> world" where
  "parkForPolling e job poll status body w =
     (case ExtractJobID body poll of
        Inl _ \<Rightarrow> failJob e job ''target_error'' (en_text e (PlainErr ''extract job id'')) w
      | Inr tid \<Rightarrow>
          snd (store_do e ''await'' (\<lambda>up now. MarkAwaitingTarget up now (j_id job) tid (int status) body
                 (now + po_interval poll) (now + po_timeout poll)) w))"

definition forward :: "config \<Rightarrow> client \<Rightarrow> wenv \<Rightarrow> job \<Rightarrow> target_cfg \<Rightarrow> string \<Rightarrow> world \<Rightarrow> world" where
  "forward c cl e job t resolved w =
     (case ForwardToTarget cl (en_net e ''forward'') (j_target job) t resolved of
        Inl u \<Rightarrow>
          if ue_cause u = Some DeadlineExceeded \<and> \<not> RetriesOnTimeout t
          then failJob e job ''target_timeout''
                 (''target '' @ j_target job @ '' did not answer before the deadline (call timeout '' @ duration_text (tg_timeout t)
                  @ ''); not retried because retry_on_timeout is false'') w
          else retryOrFail c e job ''target_error'' (UpFail u) w
      | Inr (status, body) \<Rightarrow>
          if re_mode (tg_response t) = ModePoll
          then (case re_poll (tg_response t) of Some poll \<Rightarrow> parkForPolling e job poll status body w | None \<Rightarrow> failJob e job ''internal'' (en_text e (PlainErr ''panic'')) w)
          else complete c e job (int status) '''' body (''target responded with status '' @ show_nat status) w)"

definition forwardResolved :: "config \<Rightarrow> client \<Rightarrow> wenv \<Rightarrow> job \<Rightarrow> target_cfg \<Rightarrow> string \<Rightarrow> nat \<Rightarrow> nat \<Rightarrow> world \<Rightarrow> world" where
  "forwardResolved c cl e job t resolved count cached w =
     (let detail = ''resolved '' @ show_nat count @ '' resolvent(s), '' @ show_nat cached @ '' from cache''
      in case store_do e ''resolved'' (\<lambda>up now. SetResolved up now (j_id job) resolved detail) w of
           (Inl _, w') \<Rightarrow> w'
         | (Inr _, w') \<Rightarrow> forward c cl e job t resolved w')"

definition handThrough :: "config \<Rightarrow> client \<Rightarrow> wenv \<Rightarrow> job \<Rightarrow> target_cfg \<Rightarrow> world \<Rightarrow> world" where
  "handThrough c cl e job t w =
     (case store_do e ''resolved'' (\<lambda>up now. SetResolved up now (j_id job) (j_payload job)
              ''proxy target: payload handed through unresolved'') w of
        (Inl _, w') \<Rightarrow> w'
      | (Inr _, w') \<Rightarrow> forward c cl e job t (j_payload job) w')"

definition failResolution :: "config \<Rightarrow> wenv \<Rightarrow> job \<Rightarrow> fetch_error \<Rightarrow> world \<Rightarrow> world" where
  "failResolution c e job err w = (case err of
     BadBody _ \<Rightarrow> failJob e job ''invalid_resource_response'' (en_text e err) w
   | RefFail _ \<Rightarrow> failJob e job ''invalid_payload'' (en_text e err) w
   | _ \<Rightarrow> retryOrFail c e job ''resource_error'' err w)"

definition processNew :: "'u url_lib \<Rightarrow> (string \<Rightarrow> string) \<Rightarrow> config \<Rightarrow> client \<Rightarrow> wenv \<Rightarrow> job \<Rightarrow> world \<Rightarrow> world" where
  "processNew lib sha c cl e job w =
     (case target_of c (j_target job) of
        None \<Rightarrow> failJob e job ''unknown_target'' (''target '' @ j_target job @ '' is no longer configured'') w
      | Some t \<Rightarrow>
          if tg_proxy t then handThrough c cl e job t w
          else let pl = Inspect sha c (j_target job) (j_payload job)
               in if \<not> plan_OK pl then failJob e job (problem_code (hd (pl_problems pl))) (en_text e (PlainErr ''plan'')) w
                  else case fetchChain lib sha c cl e (opt_cache (j_options job)) (pl_bindings pl) (pl_levels pl) (pl_found pl) [] 0 (w_db w) of
                    (Inl err, d') \<Rightarrow> failResolution c e job err (w\<lparr>w_db := d'\<rparr>)
                  | (Inr (fs, series, cached), d') \<Rightarrow>
                      (case substitute (the (pl_root pl)) fs series (attachResolvent t) of
                         Inl _ \<Rightarrow> failJob e job ''invalid_resource_response'' (en_text e (PlainErr ''substitute'')) (w\<lparr>w_db := d'\<rparr>)
                       | Inr resolved \<Rightarrow> forwardResolved c cl e job t resolved (length fs) cached (w\<lparr>w_db := d'\<rparr>)))"

record spooled =
  sp_path :: string
  sp_size :: int
  sp_ctype :: string

definition spoolResult :: "config \<Rightarrow> wenv \<Rightarrow> job \<Rightarrow> result_stream \<Rightarrow> world \<Rightarrow> (up_error + spooled) \<times> world" where
  "spoolResult c e job stream w =
     (let op = ''result '' @ j_target job; limit = sg_max_result (cf_storage c); lim = wrap64 (limit + 1);
          body = take (nat lim) (rs_delivered stream);
          err = (if int (length (rs_delivered stream)) < lim then rs_error stream else None)
      in if \<not> en_fs e ''mkdir'' \<or> \<not> en_fs e ''create'' then (Inl (up_failure op 0 True (OtherCause ''spool'')), w)
         else let w1 = file_put (en_tmp e) body w
              in if err \<noteq> None \<or> \<not> en_fs e ''close''
                 then (Inl (up_failure op 0 True (case err of Some x \<Rightarrow> x | None \<Rightarrow> OtherCause ''close'')), file_remove e (en_tmp e) w1)
                 else if limit < int (length body)
                 then (Inl (up_failure op 0 False (OtherCause ''max_result_bytes'')), file_remove e (en_tmp e) w1)
                 else (Inr \<lparr>sp_path = en_tmp e, sp_size = int (length body), sp_ctype = rs_ctype stream\<rparr>, w1))"

definition completeSpooled :: "config \<Rightarrow> wenv \<Rightarrow> job \<Rightarrow> spooled \<Rightarrow> string \<Rightarrow> world \<Rightarrow> world" where
  "completeSpooled c e job sp detail w =
     (if sp_size sp \<le> cf_max_response c then
        (let w1 = file_remove e (sp_path sp) w
         in if \<not> en_fs e ''read'' then failJob e job ''internal'' (''read spooled result: '' @ en_text e (PlainErr ''read'')) w1
            else complete c e job 200 (sp_ctype sp) (case map_of (w_files w) (sp_path sp) of Some b \<Rightarrow> b | None \<Rightarrow> '''') detail w1)
      else let ct = (if sp_ctype sp = '''' then ''application/octet-stream'' else sp_ctype sp);
               path = path_join (sg_results_dir (cf_storage c)) (j_id job @ resultExt ct)
           in if \<not> en_fs e ''rename'' then failJob e job ''internal'' (''store result file: '' @ en_text e (PlainErr ''rename'')) (file_remove e (sp_path sp) w)
              else markCompleted e job 200 None path ct detail (file_rename (sp_path sp) path w))"

definition fetchAndComplete :: "config \<Rightarrow> wenv \<Rightarrow> job \<Rightarrow> target_cfg \<Rightarrow> poll_cfg \<Rightarrow> string \<Rightarrow> bool \<Rightarrow> world \<Rightarrow> world" where
  "fetchAndComplete c e job t poll rawStatus pastDeadline w =
     (let give_up = (\<lambda>u w'. if ue_transient u \<and> \<not> pastDeadline then w' else failJob e job ''target_error'' (en_text e (UpFail u)) w')
      in case FetchResult (en_net e ''result'') (j_target job) t poll (j_target_job_id job) of
           Inl u \<Rightarrow> give_up u w
         | Inr stream \<Rightarrow>
             (case spoolResult c e job stream w of
                (Inl u, w') \<Rightarrow> give_up u w'
              | (Inr sp, w') \<Rightarrow> completeSpooled c e job sp
                  (''target job '' @ j_target_job_id job @ '' finished with status '' @ rawStatus) w'))"

definition poll_of :: "config \<Rightarrow> string \<Rightarrow> (target_cfg \<times> poll_cfg) option" where
  "poll_of c target = (case target_of c target of
     None \<Rightarrow> None
   | Some t \<Rightarrow> if re_mode (tg_response t) = ModePoll then map_option (Pair t) (re_poll (tg_response t)) else None)"

definition pollInterval :: "config \<Rightarrow> string \<Rightarrow> duration" where
  "pollInterval c target = (case poll_of c target of Some (t, p) \<Rightarrow> po_interval p | None \<Rightarrow> wk_poll_interval (cf_worker c))"

definition reschedulePoll :: "config \<Rightarrow> wenv \<Rightarrow> job \<Rightarrow> world \<Rightarrow> world" where
  "reschedulePoll c e job w =
     snd (store_do e ''reschedule'' (\<lambda>up now. ReschedulePoll up (j_id job) (now + pollInterval c (j_target job)) now) w)"

definition poll_tick :: "config \<Rightarrow> client \<Rightarrow> wenv \<Rightarrow> job \<Rightarrow> world \<Rightarrow> world" where
  "poll_tick c cl e job w =
     (case poll_of c (j_target job) of
        None \<Rightarrow> failJob e job ''unknown_target'' (''target '' @ j_target job @ '' is no longer configured for polling'') w
      | Some (t, poll) \<Rightarrow>
          (let past = (case j_poll_deadline job of None \<Rightarrow> False | Some dl \<Rightarrow> parseTS dl < en_now e ''poll'');
               late = ''target job '' @ j_target_job_id job @ '' did not finish before the poll deadline''
           in case PollTarget cl (en_net e ''poll'') (j_target job) t poll (j_target_job_id job) of
                Inl u \<Rightarrow>
                  if ue_transient u \<and> \<not> past then w
                  else if ue_transient u then failJob e job ''target_timeout''
                         (late @ '' (status endpoint unreachable: '' @ en_text e (UpFail u) @ '')'') w
                  else failJob e job ''target_error'' (en_text e (UpFail u)) w
              | Inr st \<Rightarrow>
                  if ps_failed st then failJob e job ''target_job_failed''
                         (''target job '' @ j_target_job_id job @ '' reported status '' @ ps_raw st) w
                  else if ps_done st then fetchAndComplete c e job t poll (ps_raw st) past w
                  else if past then failJob e job ''target_timeout'' late w
                  else w))"

definition processPoll :: "config \<Rightarrow> client \<Rightarrow> wenv \<Rightarrow> job \<Rightarrow> world \<Rightarrow> world" where
  "processPoll c cl e job w = reschedulePoll c e job (poll_tick c cl e job w)"

definition process :: "'u url_lib \<Rightarrow> (string \<Rightarrow> string) \<Rightarrow> config \<Rightarrow> client \<Rightarrow> wenv \<Rightarrow> job \<Rightarrow> world \<Rightarrow> world" where
  "process lib sha c cl e job w =
     (if j_state job = StateResolving then processNew lib sha c cl e job w
      else if j_state job = StateAwaitingTarget then processPoll c cl e job w
      else w)"

section \<open>The pool\<close>

definition pollLease :: "config \<Rightarrow> string \<Rightarrow> duration" where
  "pollLease c target = (case poll_of c target of
     Some (t, p) \<Rightarrow> wrap64 (wrap64 (tg_timeout t + ResultBudget p) + po_interval p)
   | None \<Rightarrow> wk_poll_interval (cf_worker c))"

definition claimPolicy :: "config \<Rightarrow> claim_policy" where
  "claimPolicy c = \<lparr>PollLease = Some (pollLease c),
     MaxConcurrent = (if HasConcurrencyCeilings c then Some (MaxConcurrentFor c) else None)\<rparr>"

text \<open>At most \<open>n\<close> rounds of \<^verbatim>\<open>drain\<close>, whose loop ends when nothing is claimed; \<open>es\<close> gives the environment of each round.\<close>

fun drain :: "'u url_lib \<Rightarrow> (string \<Rightarrow> string) \<Rightarrow> config \<Rightarrow> client \<Rightarrow> (nat \<Rightarrow> wenv) \<Rightarrow> nat \<Rightarrow> world \<Rightarrow> world" where
  "drain lib sha c cl es 0 w = w"
| "drain lib sha c cl es (Suc n) w =
     (case store_do (es n) ''claim'' (\<lambda>up now. ClaimNext up now (claimPolicy c)) w of
        (Inr (Some job), w') \<Rightarrow> drain lib sha c cl es n (process lib sha c cl (es n) job w')
      | (_, w') \<Rightarrow> w')"

definition pool_start :: "config \<Rightarrow> wenv \<Rightarrow> (string \<Rightarrow> duration) \<Rightarrow> world \<Rightarrow> world" where
  "pool_start c e rnd w =
     (let w1 = w\<lparr>w_db := snd (RecoverInFlight (\<lambda>i. en_up e ''recover'') (en_now e ''recover'') (w_db w))\<rparr>
      in w1\<lparr>w_db := snd (ResetPollSchedules (en_up e ''reset'') (pollInterval c) rnd (en_now e ''reset'') (w_db w1))\<rparr>)"

end
