(* ===== verification/Worker_Properties.thy ===== *)
theory Worker_Properties
  imports Worker Upstream_Properties Resolver_Properties Worked_Runs
begin

text \<open>
  The worker against the store. The contract \<open>worker_store\<close> lists what an invariant must survive for the worker to
  keep it; it is met by reachability, so that every run of the worker, interleaved with other connections, is a run of
  the store, and by the consistency of the database.
\<close>

section \<open>The contract between worker and store\<close>

definition tolerates :: "(db \<Rightarrow> bool) \<Rightarrow> wenv \<Rightarrow> bool" where
  "tolerates I e \<longleftrightarrow> (\<forall>step d. I d \<longrightarrow> I (en_other e step d))"

lemma store_do_db:
  "w_db (snd (store_do e step f w)) = snd (f (en_up e step) (en_now e step) (en_other e step (w_db w)))"
  "fst (store_do e step f w) = fst (f (en_up e step) (en_now e step) (en_other e step (w_db w)))"
  by (auto simp: store_do_def split: prod.split)

lemma files_keep [simp]:
  "w_db (file_put p b w) = w_db w" "w_db (file_remove e p w) = w_db w" "w_db (file_rename p q w) = w_db w"
  "w_db (notify_job job w) = w_db w" "w_db (discardLateResult e i p w) = w_db w"
  by (auto simp: file_put_def file_remove_def file_rename_def notify_job_def discardLateResult_def split: option.splits sum.splits)

lemma writeResultFile_db: "writeResultFile c e i ct body w = (r, w') \<Longrightarrow> w_db w' = w_db w"
  by (auto simp: writeResultFile_def Let_def split: if_splits)

lemma spoolResult_db: "spoolResult c e job stream w = (r, w') \<Longrightarrow> w_db w' = w_db w"
  by (auto simp: spoolResult_def Let_def split: if_splits)

lemma problem_code_known: "problem_code x \<in> set JobErrorCodes"
  by (cases x) (simp_all add: JobErrorCodes_def)

text \<open>Fetching resolvents writes to nothing but the series cache.\<close>

locale series_writer =
  fixes I :: "db \<Rightarrow> bool"
  assumes caching: "I d \<Longrightarrow> I (snd (PutSeries up now h typ series ttl d))"
begin

lemma fetchOne_keeps: "tolerates I e \<Longrightarrow> I d \<Longrightarrow> I (snd (fetchOne lib c cl e m f d))"
  unfolding fetchOne_def Let_def tolerates_def by (auto split: option.splits sum.splits intro: caching)

lemma feed_keeps: "tolerates I e \<Longrightarrow> I d \<Longrightarrow> I (snd (feedResolvents lib c cl e m stopped fs d))"
proof (induction fs arbitrary: stopped d)
  case (Cons f fs)
  define x where "x = (case en_ctx e (fd_hash f) of
      Some x \<Rightarrow> (Inl (CtxErr x), d)
    | None \<Rightarrow> if stopped \<and> en_skip e (fd_hash f) then (Inl (CtxErr Canceled), d) else fetchOne lib c cl e m f d)"
  have "I (snd x)" using Cons.prems fetchOne_keeps [OF Cons.prems] by (auto simp: x_def split: option.splits)
  then show ?case using Cons.IH [OF Cons.prems(1), of "snd x"]
    by (simp add: x_def [symmetric] Let_def case_prod_beta)
qed simp

lemma fetchChain_keeps: "tolerates I e \<Longrightarrow> I d \<Longrightarrow> I (snd (fetchChain lib sha c cl e m bs lvs fs series n d))"
proof (induction lvs arbitrary: fs series n d)
  case (Cons lv lvs)
  show ?case
  proof (cases "fill_level sha c bs series lv fs")
    case (Inr fs')
    obtain r d' where f: "fetchAll lib c cl e m (map (\<lambda>i. fs' ! i) lv) d = (r, d')" by (rule prod.exhaust)
    have "I d'" using f feed_keeps [OF Cons.prems, of lib c cl m False "uniqueByHash (map (\<lambda>i. fs' ! i) lv)"]
      by (auto simp: fetchAll_def split: prod.splits)
    with Cons Inr f show ?thesis by (auto split: sum.splits prod.splits)
  qed (use Cons in simp)
qed simp

end

locale worker_store = series_writer +
  assumes resolve: "I d \<Longrightarrow> I (snd (SetResolved up now i payload detail d))"
    and await: "I d \<Longrightarrow> I (snd (MarkAwaitingTarget up now i tid status body fp dl d))"
    and completing: "I d \<Longrightarrow> I (snd (MarkCompleted up now i status response path ct detail d))"
    and failing: "code \<in> set JobErrorCodes \<Longrightarrow> I d \<Longrightarrow> I (snd (MarkFailed up now i code message d))"
    and requeue: "I d \<Longrightarrow> I (snd (Requeue up now i due detail d))"
    and repoll: "I d \<Longrightarrow> I (snd (ReschedulePoll up i due now d))"
begin

lemma store_do_keeps:
  assumes "tolerates I e" "I (w_db w)" "\<And>up now d. I d \<Longrightarrow> I (snd (f up now d))"
  shows "I (w_db (snd (store_do e step f w)))"
  using assms by (simp add: store_do_db tolerates_def)

lemma store_do_case:
  assumes "tolerates I e" "I (w_db w)" "\<And>up now d. I d \<Longrightarrow> I (snd (f up now d))" "store_do e step f w = (r, w')"
  shows "I (w_db w')"
  using store_do_keeps [of e w f step] assms by simp

lemma failJob_keeps:
  "tolerates I e \<Longrightarrow> I (w_db w) \<Longrightarrow> code \<in> set JobErrorCodes \<Longrightarrow> I (w_db (failJob e job code message w))"
  unfolding failJob_def by (auto split: prod.splits sum.splits intro: store_do_case [OF _ _ failing])

lemma retryOrFail_keeps:
  "tolerates I e \<Longrightarrow> I (w_db w) \<Longrightarrow> code \<in> set JobErrorCodes \<Longrightarrow> I (w_db (retryOrFail c e job code err w))"
  unfolding retryOrFail_def Let_def by (auto intro: failJob_keeps store_do_keeps requeue simp: JobErrorCodes_def)

lemma markCompleted_keeps:
  "tolerates I e \<Longrightarrow> I (w_db w) \<Longrightarrow> I (w_db (markCompleted e job status body path ct detail w))"
  unfolding markCompleted_def by (auto split: prod.splits sum.splits intro: store_do_case [OF _ _ completing])

lemma complete_keeps:
  "tolerates I e \<Longrightarrow> I (w_db w) \<Longrightarrow> I (w_db (complete c e job status ct body detail w))"
  unfolding complete_def Let_def
  by (auto split: prod.splits option.splits dest!: writeResultFile_db intro!: failJob_keeps markCompleted_keeps simp: JobErrorCodes_def)

lemma forward_keeps:
  "tolerates I e \<Longrightarrow> I (w_db w) \<Longrightarrow> I (w_db (forward c cl e job t resolved w))"
  unfolding forward_def parkForPolling_def
  by (auto split: sum.splits option.splits prod.splits intro!: failJob_keeps retryOrFail_keeps complete_keeps store_do_keeps await
      simp: JobErrorCodes_def)

lemma failResolution_keeps:
  "tolerates I e \<Longrightarrow> I (w_db w) \<Longrightarrow> I (w_db (failResolution c e job err w))"
  unfolding failResolution_def by (cases err) (auto intro!: failJob_keeps retryOrFail_keeps simp: JobErrorCodes_def)

lemma forwardResolved_keeps:
  "tolerates I e \<Longrightarrow> I (w_db w) \<Longrightarrow> I (w_db (forwardResolved c cl e job t resolved n k w))"
  unfolding forwardResolved_def Let_def
  by (auto split: prod.splits sum.splits intro!: forward_keeps intro: store_do_case [OF _ _ resolve])

lemma handThrough_keeps:
  "tolerates I e \<Longrightarrow> I (w_db w) \<Longrightarrow> I (w_db (handThrough c cl e job t w))"
  unfolding handThrough_def
  by (auto split: prod.splits sum.splits intro!: forward_keeps intro: store_do_case [OF _ _ resolve])

lemma processNew_keeps:
  assumes "tolerates I e" "I (w_db w)"
  shows "I (w_db (processNew lib sha c cl e job w))"
proof (cases "target_of c (j_target job)")
  case (Some t)
  let ?pl = "Inspect sha c (j_target job) (j_payload job)"
  obtain r d' where f: "fetchChain lib sha c cl e (opt_cache (j_options job)) (pl_bindings ?pl) (pl_levels ?pl) (pl_found ?pl) [] 0 (w_db w)
      = (r, d')" by (rule prod.exhaust)
  have d': "I d'" using fetchChain_keeps [OF assms] f by (metis snd_conv)
  show ?thesis unfolding processNew_def Let_def Some f using assms d'
    by (auto split: sum.splits prod.splits intro!: handThrough_keeps failJob_keeps failResolution_keeps forwardResolved_keeps
        problem_code_known simp: JobErrorCodes_def)
qed (use assms in \<open>simp add: processNew_def failJob_keeps JobErrorCodes_def\<close>)

lemma completeSpooled_keeps:
  "tolerates I e \<Longrightarrow> I (w_db w) \<Longrightarrow> I (w_db (completeSpooled c e job sp detail w))"
  unfolding completeSpooled_def Let_def by (auto intro!: failJob_keeps complete_keeps markCompleted_keeps simp: JobErrorCodes_def)

lemma fetchAndComplete_keeps:
  assumes "tolerates I e" "I (w_db w)"
  shows "I (w_db (fetchAndComplete c e job t poll raw past w))"
proof -
  have "I (w_db w')" if "spoolResult c e job s w = (r, w')" for s r w'
    using spoolResult_db [OF that] assms(2) by simp
  then show ?thesis unfolding fetchAndComplete_def Let_def using assms
    by (auto split: sum.splits prod.splits intro!: failJob_keeps completeSpooled_keeps simp: JobErrorCodes_def)
qed

lemma poll_tick_keeps:
  "tolerates I e \<Longrightarrow> I (w_db w) \<Longrightarrow> I (w_db (poll_tick c cl e job w))"
  unfolding poll_tick_def Let_def
  by (auto split: sum.splits prod.splits option.splits intro!: failJob_keeps fetchAndComplete_keeps simp: JobErrorCodes_def)

lemma process_keeps:
  assumes "tolerates I e" "I (w_db w)"
  shows "I (w_db (process lib sha c cl e job w))"
  using processNew_keeps [OF assms] store_do_keeps [OF assms(1) poll_tick_keeps [OF assms] repoll] assms
  by (auto simp: process_def processPoll_def reschedulePoll_def)

end

text \<open>Each write of the worker is a step of the store.\<close>

lemma worker_writes:
  "store_step pol d (snd (SetResolved up now i payload detail d))"
  "store_step pol d (snd (MarkAwaitingTarget up now i tid status body fp dl d))"
  "store_step pol d (snd (MarkCompleted up now i status response path ct detail d))"
  "code \<in> set JobErrorCodes \<Longrightarrow> store_step pol d (snd (MarkFailed up now i code message d))"
  "store_step pol d (snd (Requeue up now i due detail d))"
  "store_step pol d (snd (ReschedulePoll up i due now d))"
  "store_step pol d (snd (PutSeries up now h typ series ttl d))"
  unfolding Requeue_def
  by (rule store_step.resolve store_step.await store_step.complete store_step.fail store_step.requeue store_step.repoll
      store_step.put_series; (rule prod.collapse [symmetric] | assumption))+

interpretation reach: worker_store "reachable_db pol" for pol
  by unfold_locales (blast intro: reachable_db.step worker_writes)+

interpretation consistent: worker_store db_ok
  by unfold_locales (blast intro: store_step_ok worker_writes)+


text \<open>An environment in which nothing fails and nobody else writes; every call answers 200 with an empty object.\<close>

definition quiet_env :: wenv where
  "quiet_env = \<lparr>en_net = (\<lambda>_ _. Reply 200 ''application/json'' ''{}'' None), en_up = (\<lambda>_. True), en_now = (\<lambda>_. 2 * second),
     en_fs = (\<lambda>_. True), en_tmp = ''tmp'', en_jitter = id, en_skip = (\<lambda>_. False), en_ctx = (\<lambda>_. None),
     en_other = (\<lambda>_ d. d), en_text = (\<lambda>_. ''error'')\<rparr>"

definition demo_client :: client where
  "demo_client = \<lparr>cl_max_body = 1024, cl_secrets = []\<rparr>"

definition demo_world :: world where
  "demo_world = \<lparr>w_db = demo_claimed, w_files = [], w_notified = []\<rparr>"

definition demo_worker_config :: config where
  "demo_worker_config = demo_config\<lparr>cf_targets := [(''t'', target_defaults demo_target)]\<rparr>"

definition demo_row :: job where
  "demo_row = demo_job\<lparr>j_seq := 1, j_state := StateResolving, j_attempts := 1, j_updated_at := 1000\<rparr>"


end
