(* ===== verification/Attempt_Properties.thy ===== *)
theory Attempt_Properties
  imports Worker_Properties
begin

text \<open>
  What one attempt of the worker guarantees when the store answers: the job always leaves the states that count
  as in flight, the retry delay stays within the configured bounds, a failed fetch reports the same error whatever
  the scheduling of its siblings was, and substitution puts each series into its own slot and nowhere else.
\<close>

section \<open>A transition that is allowed happens\<close>

context audited_transition
begin

lemma moves:
  assumes "db_ok d" and "find_job d i = Some j" and "\<not> IsTerminal (j_state j)" and "guard (j_state j) = None"
    and "transitionGuarded True now i guard to detail build d = (r, d')"
  shows "r = Inr ()" and "db_ok d'" and "find_job d' i = Some (buildUpdate to now build j)"
    and "j_state (buildUpdate to now build j) = to"
proof -
  have "refusal d i guard = None" using assms by (simp add: refusal_None may_move_def)
  with answer [OF assms(1), of True i detail] assms(5) show r: "r = Inr ()" by simp
  show "db_ok d'" using preserves [OF assms(1,5)] .
  show "find_job d' i = Some (buildUpdate to now build j)" using find_after [OF assms(1,5), of i] assms(2) r by simp
  show "j_state (buildUpdate to now build j) = to" by (simp add: buildUpdate_def keeps_state)
qed

end

section \<open>Every attempt settles its job\<close>

definition quiet :: "wenv \<Rightarrow> bool" where
  "quiet e \<longleftrightarrow> (\<forall>step. en_up e step) \<and> (\<forall>step d. en_other e step d = d)"

text \<open>The job with key \<open>i\<close> is stored in one of the states \<open>S\<close> of a consistent database.\<close>

definition stored_in :: "job_state set \<Rightarrow> string \<Rightarrow> world \<Rightarrow> bool" where
  "stored_in S i w \<longleftrightarrow> db_ok (w_db w) \<and> (\<exists>r. find_job (w_db w) i = Some r \<and> j_state r \<in> S)"

definition open_states :: "job_state set" where
  "open_states = {s. \<not> IsTerminal s}"

text \<open>Settled: not in flight, and back in the queue only when an attempt is left.\<close>

definition settled_states :: "job \<Rightarrow> job_state set" where
  "settled_states job = {s. \<not> in_flight s \<and> (s = StateReceived \<longrightarrow> j_attempts job < j_max_attempts job)}"

lemma stored_in_files [simp]:
  "stored_in S i (notify_job job w) = stored_in S i w" "stored_in S i (discardLateResult e k p w) = stored_in S i w"
  "stored_in S i (file_remove e p w) = stored_in S i w" "stored_in S i (file_rename p q w) = stored_in S i w"
  by (simp_all add: stored_in_def)

lemma stored_in_mono: "stored_in S i w \<Longrightarrow> S \<subseteq> T \<Longrightarrow> stored_in T i w"
  by (auto simp: stored_in_def)

lemma transition_eq: "transition up now i frm = transitionGuarded up now i (from_guard frm)"
  by (simp add: fun_eq_iff transition_def)

lemmas write_defs = SetResolved_def MarkAwaitingTarget_def MarkCompleted_def MarkFailed_def Requeue_def transition_eq

lemma store_do_moves:
  assumes "quiet e" and "stored_in S i w" and "\<And>now. audited_transition now guard to (build now)"
    and "\<And>s. s \<in> S \<Longrightarrow> \<not> IsTerminal s \<and> guard s = None"
    and "store_do e step (\<lambda>up now. transitionGuarded up now i guard to detail (build now)) w = (r, w')"
  shows "r = Inr () \<and> stored_in {to} i w'"
proof -
  let ?now = "en_now e step"
  from assms(2) obtain j where j: "db_ok (w_db w)" "find_job (w_db w) i = Some j" "j_state j \<in> S"
    by (auto simp: stored_in_def)
  obtain d' where d': "transitionGuarded True ?now i guard to detail (build ?now) (w_db w) = (r, d')" "w_db w' = d'"
    using assms(1,5) by (auto simp: store_do_def quiet_def Let_def split: prod.splits)
  from audited_transition.moves [OF assms(3) j(1,2) _ _ d'(1)] assms(4) [OF j(3)] d'(2) show ?thesis
    by (auto simp: stored_in_def)
qed

lemma failJob_settles:
  assumes "quiet e" and "stored_in open_states (j_id job) w" and "code \<in> set JobErrorCodes"
  shows "stored_in {StateFailed} (j_id job) (failJob e job code message w)"
proof -
  obtain r w' where s: "store_do e ''fail'' (\<lambda>up now. MarkFailed up now (j_id job) code message) w = (r, w')" by (rule prod.exhaust)
  from store_do_moves [OF assms(1,2) failed_contract [OF assms(3)] _ s [unfolded write_defs]]
  show ?thesis by (auto simp: failJob_def s open_states_def)
qed

lemma markCompleted_settles:
  assumes "quiet e" and "stored_in open_states (j_id job) w"
  shows "stored_in {StateCompleted} (j_id job) (markCompleted e job status body path ct detail w)"
proof -
  obtain r w' where s: "store_do e ''complete'' (\<lambda>up now. MarkCompleted up now (j_id job) status body path ct detail) w = (r, w')"
    by (rule prod.exhaust)
  from store_do_moves [OF assms completed.audited_transition_axioms _ s [unfolded write_defs]]
  show ?thesis by (auto simp: markCompleted_def s open_states_def)
qed

lemma Requeue_settles:
  assumes "quiet e" and "stored_in open_states (j_id job) w"
  shows "stored_in {StateReceived} (j_id job)
    (snd (store_do e ''requeue'' (\<lambda>up now. Requeue up now (j_id job) (now + backoff) detail) w))"
proof -
  obtain r w' where s: "store_do e ''requeue'' (\<lambda>up now. Requeue up now (j_id job) (now + backoff) detail) w = (r, w')"
    by (rule prod.exhaust)
  from store_do_moves [OF assms requeued.audited_transition_axioms _ s [unfolded write_defs]]
  show ?thesis by (auto simp: s open_states_def)
qed

lemma settled_members [simp]:
  "StateFailed \<in> settled_states job" "StateCompleted \<in> settled_states job" "StateAwaitingTarget \<in> settled_states job"
  "StateReceived \<in> settled_states job \<longleftrightarrow> j_attempts job < j_max_attempts job"
  by (simp_all add: settled_states_def in_flight_def)

lemma retryOrFail_settles:
  assumes "quiet e" and "stored_in open_states (j_id job) w" and "code \<in> set JobErrorCodes"
  shows "stored_in (settled_states job) (j_id job) (retryOrFail c e job code err w)"
proof -
  have "stored_in (settled_states job) (j_id job) (failJob e job code message w)" if "code \<in> set JobErrorCodes" for code message
    by (rule stored_in_mono [OF failJob_settles [OF assms(1,2) that]]) simp
  moreover have "stored_in (settled_states job) (j_id job)
      (snd (store_do e ''requeue'' (\<lambda>up now. Requeue up now (j_id job) (now + b) detail) w))"
    if "\<not> j_max_attempts job \<le> j_attempts job" for b detail
    by (rule stored_in_mono [OF Requeue_settles [OF assms(1,2)]]) (use that in simp)
  ultimately show ?thesis using assms(3) unfolding retryOrFail_def Let_def by (simp add: JobErrorCodes_def)
qed

lemma complete_settles:
  assumes "quiet e" and "stored_in open_states (j_id job) w"
  shows "stored_in (settled_states job) (j_id job) (complete c e job status ct body detail w)"
proof -
  have "stored_in open_states (j_id job) w'" if "writeResultFile c e i t b w = (r, w')" for i t b r w'
    using assms(2) writeResultFile_db [OF that] by (simp add: stored_in_def)
  then show ?thesis unfolding complete_def Let_def using assms
    by (auto split: prod.splits option.splits simp: JobErrorCodes_def
        intro!: stored_in_mono [OF failJob_settles] stored_in_mono [OF markCompleted_settles])
qed

lemma await_settles:
  assumes "quiet e" and "stored_in {StateForwarding} i w"
  shows "stored_in {StateAwaitingTarget} i (snd (store_do e ''await'' (\<lambda>up now. MarkAwaitingTarget up now i tid status body
    (now + p) (now + q)) w))"
proof -
  obtain r w' where s: "store_do e ''await'' (\<lambda>up now. MarkAwaitingTarget up now i tid status body (now + p) (now + q)) w = (r, w')"
    by (rule prod.exhaust)
  from store_do_moves [OF assms awaiting.audited_transition_axioms _ s [unfolded write_defs]] show ?thesis by (simp add: s)
qed

lemma forward_settles:
  assumes "quiet e" and "stored_in {StateForwarding} (j_id job) w"
  shows "stored_in (settled_states job) (j_id job) (forward c cl e job t resolved w)"
proof -
  have w: "stored_in open_states (j_id job) w" by (rule stored_in_mono [OF assms(2)]) (simp add: open_states_def)
  have fail: "stored_in (settled_states job) (j_id job) (failJob e job code message w)" if "code \<in> set JobErrorCodes" for code message
    by (rule stored_in_mono [OF failJob_settles [OF assms(1) w that]]) simp
  have park: "stored_in (settled_states job) (j_id job) (snd (store_do e ''await'' (\<lambda>up now. MarkAwaitingTarget up now (j_id job)
      tid status body (now + p) (now + q)) w))" for tid status body p q
    by (rule stored_in_mono [OF await_settles [OF assms]]) simp
  show ?thesis unfolding forward_def parkForPolling_def
    using fail park retryOrFail_settles [OF assms(1) w] complete_settles [OF assms(1) w]
    by (simp add: JobErrorCodes_def split: sum.split option.split prod.split)
qed

lemma resolved_settles:
  assumes "quiet e" and "stored_in {StateResolving} i w"
    and "store_do e ''resolved'' (\<lambda>up now. SetResolved up now i payload detail) w = (r, w')"
  shows "r = Inr () \<and> stored_in {StateForwarding} i w'"
  using store_do_moves [OF assms(1,2) resolved.audited_transition_axioms _ assms(3) [unfolded write_defs]] by simp

lemma forwardResolved_settles:
  assumes "quiet e" and "stored_in {StateResolving} (j_id job) w"
  shows "stored_in (settled_states job) (j_id job) (forwardResolved c cl e job t resolved n k w)"
    and "stored_in (settled_states job) (j_id job) (handThrough c cl e job t w)"
  unfolding forwardResolved_def handThrough_def Let_def using resolved_settles [OF assms] forward_settles [OF assms(1)]
  by (auto split: prod.split sum.split)

interpretation consistent_rows: series_writer "\<lambda>d. db_ok d \<and> jobs d = js" for js
proof unfold_locales
  show "db_ok (snd (PutSeries up now h ty series ttl d)) \<and> jobs (snd (PutSeries up now h ty series ttl d)) = js"
    if "db_ok d \<and> jobs d = js" for up now h ty series ttl d
    using that consistent.caching by (simp add: PutSeries_def)
qed

lemma processNew_settles:
  assumes q: "quiet e" and w: "stored_in {StateResolving} (j_id job) w"
  shows "stored_in (settled_states job) (j_id job) (processNew lib sha c cl e job w)"
proof -
  have fail: "stored_in (settled_states job) (j_id job) (failJob e job code message v)"
    if "stored_in {StateResolving} (j_id job) v" "code \<in> set JobErrorCodes" for code message v
    by (rule stored_in_mono [OF failJob_settles [OF q stored_in_mono [OF that(1)] that(2)]]) (simp_all add: open_states_def)
  have retry: "stored_in (settled_states job) (j_id job) (retryOrFail c e job code err v)"
    if "stored_in {StateResolving} (j_id job) v" "code \<in> set JobErrorCodes" for code err v
    by (rule retryOrFail_settles [OF q stored_in_mono [OF that(1)] that(2)]) (simp add: open_states_def)
  have kept: "stored_in {StateResolving} (j_id job) (w\<lparr>w_db := d'\<rparr>)"
    if "fetchChain lib sha c cl e m bs lvs fs series n (w_db w) = (r, d')" for m bs lvs fs series n r d'
    using consistent_rows.fetchChain_keeps [of "jobs (w_db w)" e "w_db w" lib sha c cl m bs lvs fs series n] that q w
    by (simp add: tolerates_def quiet_def stored_in_def find_job_def)
  show ?thesis unfolding processNew_def failResolution_def Let_def
    using w fail retry kept forwardResolved_settles [OF q] problem_code_known
    by (auto split: option.split prod.split sum.split fetch_error.split simp: JobErrorCodes_def)
qed

text \<open>C31: An attempt always settles its job. When the store answers and no other connection interferes, a job claimed
  for resolution is, after the worker has processed it, completed, failed, parked at its target or back in the queue,
  never left in a state that counts as in flight; it is back in the queue only if it has attempts left. This
  holds whatever the network answers, the file system does, the configuration says or the payload holds.\<close>

theorem attempt_settles:
  assumes "quiet e" and "reachable_db pol (w_db w)"
    and "find_job (w_db w) (j_id job) = Some row" and "j_state row = StateResolving" and "j_state job = StateResolving"
  shows "\<exists>row'. find_job (w_db (process lib sha c cl e job w)) (j_id job) = Some row'
    \<and> \<not> in_flight (j_state row')
    \<and> (j_state row' = StateReceived \<longrightarrow> j_attempts job < j_max_attempts job)"
proof -
  have "stored_in {StateResolving} (j_id job) w"
    using assms reachable_ok [OF assms(2)] by (simp add: stored_in_def)
  from processNew_settles [OF assms(1) this, of lib sha c cl] show ?thesis
    using assms(5) by (auto simp: process_def stored_in_def settled_states_def)
qed

theorem attempt_settles_witness:
  "\<exists>row'. find_job (w_db (process plain_urls id demo_worker_config demo_client quiet_env demo_row demo_world)) ''a'' = Some row'
    \<and> \<not> in_flight (j_state row')"
proof -
  have row: "find_job (w_db demo_world) ''a'' = Some demo_row"
    by (simp add: demo_world_def find_job_def demo_claimed_jobs demo_row_def demo_job_def)
  have id: "j_id demo_row = ''a''" "j_state demo_row = StateResolving" by (simp_all add: demo_row_def demo_job_def)
  have q: "quiet quiet_env" by (simp add: quiet_def quiet_env_def)
  have r: "reachable_db demo_policy (w_db demo_world)" by (simp add: demo_world_def demo_reachable)
  from attempt_settles [OF q r, of demo_row demo_row plain_urls id demo_worker_config demo_client] row id
  show ?thesis by auto
qed

section \<open>The delay before a retry\<close>

lemma backoff_of_range:
  assumes "0 < wk_backoff_max wc"
  shows "0 < backoff_of wc n" and "backoff_of wc n \<le> wk_backoff_max wc"
  using assms by (auto simp: backoff_of_def Let_def)

lemma backoff_of_exact:
  assumes "0 < wk_backoff_base wc" and "1 \<le> n" and "wk_backoff_base wc * 2 ^ nat (n - 1) < 2 ^ 63"
  shows "backoff_of wc n = min (wk_backoff_max wc) (wk_backoff_base wc * 2 ^ nat (n - 1))"
proof -
  have "0 < wk_backoff_base wc * 2 ^ nat (n - 1)" using assms(1) by simp
  with assms(3) have "wrap64 (wk_backoff_base wc * 2 ^ nat (n - 1)) = wk_backoff_base wc * 2 ^ nat (n - 1)"
    by (intro wrap64_id) auto
  with assms(1) show ?thesis by (simp add: backoff_of_def Let_def min_def mult_le_0_iff)
qed

text \<open>A shift past 64 bits need not end at or below zero: with a base of \<open>2^32 + 1\<close> nanoseconds the delay of the
  33rd attempt falls back from the cap to about the base.\<close>

lemma backoff_shift_wraps:
  assumes "wk_backoff_base wc = 2 ^ 32 + 1" and "wk_backoff_max wc = 600 * 10 ^ 9"
  shows "backoff_of wc 32 = wk_backoff_max wc" and "backoff_of wc 33 = 2 ^ 32"
  using assms by (simp_all add: backoff_of_def Let_def wrap64_def)

lemma Requeue_row:
  assumes "quiet e" and "db_ok (w_db w)" and "find_job (w_db w) i = Some row" and "\<not> IsTerminal (j_state row)"
  shows "find_job (w_db (snd (store_do e ''requeue'' (\<lambda>up now. Requeue up now i (now + b) detail) w))) i
    = Some (row\<lparr>j_state := StateReceived, j_updated_at := ts (en_now e ''requeue''),
        j_next_attempt_at := Some (ts (en_now e ''requeue'' + b))\<rparr>)"
proof -
  let ?now = "en_now e ''requeue''"
  obtain r d' where d': "transitionGuarded True ?now i (from_guard None) StateReceived detail
      (set_next_attempt (Some (ts (?now + b)))) (w_db w) = (r, d')" by (rule prod.exhaust)
  then have "w_db (snd (store_do e ''requeue'' (\<lambda>up now. Requeue up now i (now + b) detail) w)) = d'"
    using assms(1) by (simp add: store_do_db quiet_def write_defs)
  with requeued.moves [OF assms(2-4) _ d'] show ?thesis by (simp add: buildUpdate_def set_next_attempt_def)
qed

text \<open>C32: A transient failure with attempts left puts the job back in the queue with a bounded delay. The delay
  before jitter is the configured base doubled per attempt, or the cap if that is smaller, for every attempt whose
  doubling fits 64 bits, and is positive and at most the cap for every attempt at all; the jitter moves it by at most
  a fifth (up to rounding), so the job is due again no later than 1.21 times the cap.\<close>

theorem retry_delay_bounds:
  assumes "quiet e" and "reachable_db pol (w_db w)"
    and "find_job (w_db w) (j_id job) = Some row" and "\<not> IsTerminal (j_state row)"
    and "IsTransient err \<or> isContextErr err" and "1 \<le> j_attempts job" and "j_attempts job < j_max_attempts job"
    and "0 < wk_backoff_base (cf_worker c)" and "0 < wk_backoff_max (cf_worker c)" and "wk_backoff_max (cf_worker c) < 2 ^ 62"
    and jitter: "\<forall>b. 0 < b \<and> b < 2 ^ 62 \<longrightarrow> 79 * b - 100 \<le> 100 * en_jitter e b \<and> 100 * en_jitter e b \<le> 121 * b"
  shows "\<exists>row' b delay. find_job (w_db (retryOrFail c e job code err w)) (j_id job) = Some row'
    \<and> j_state row' = StateReceived \<and> j_next_attempt_at row' = Some (ts (en_now e ''requeue'' + delay))
    \<and> 79 * b - 100 \<le> 100 * delay \<and> 100 * delay \<le> 121 * b
    \<and> 0 < b \<and> b \<le> wk_backoff_max (cf_worker c)
    \<and> (wk_backoff_base (cf_worker c) * 2 ^ nat (j_attempts job - 1) < 2 ^ 63 \<longrightarrow>
         b = min (wk_backoff_max (cf_worker c)) (wk_backoff_base (cf_worker c) * 2 ^ nat (j_attempts job - 1)))"
proof -
  let ?b = "backoff_of (cf_worker c) (j_attempts job)"
  note range = backoff_of_range [OF assms(9), of "j_attempts job"]
  have "79 * ?b - 100 \<le> 100 * en_jitter e ?b \<and> 100 * en_jitter e ?b \<le> 121 * ?b"
    using jitter range assms(10) by (meson order.strict_trans1)
  moreover have "\<exists>row'. find_job (w_db (retryOrFail c e job code err w)) (j_id job) = Some row'
      \<and> j_state row' = StateReceived \<and> j_next_attempt_at row' = Some (ts (en_now e ''requeue'' + en_jitter e ?b))"
    using assms(5,7) Requeue_row [OF assms(1) reachable_ok [OF assms(2)] assms(3,4)]
    by (auto simp: retryOrFail_def Let_def)
  ultimately show ?thesis using range backoff_of_exact [OF assms(8,6)] by blast
qed

theorem retry_delay_bounds_witness:
  "\<exists>row'. find_job (w_db (retryOrFail demo_worker_config quiet_env demo_row ''target_error'' (CtxErr DeadlineExceeded) demo_world)) ''a''
      = Some row' \<and> j_state row' = StateReceived"
proof -
  have row: "find_job (w_db demo_world) (j_id demo_row) = Some demo_row"
    by (simp add: demo_world_def find_job_def demo_claimed_jobs demo_row_def demo_job_def)
  have f: "\<not> IsTerminal (j_state demo_row)" "1 \<le> j_attempts demo_row" "j_attempts demo_row < j_max_attempts demo_row"
    "j_id demo_row = ''a''" by (simp_all add: demo_row_def demo_job_def)
  have q: "quiet quiet_env" by (simp add: quiet_def quiet_env_def)
  have r: "reachable_db demo_policy (w_db demo_world)" by (simp add: demo_world_def demo_reachable)
  have c: "0 < wk_backoff_base (cf_worker demo_worker_config)" "0 < wk_backoff_max (cf_worker demo_worker_config)"
    "wk_backoff_max (cf_worker demo_worker_config) < 2 ^ 62" by code_simp+
  have j: "\<forall>b. 0 < b \<and> b < 2 ^ 62 \<longrightarrow> 79 * b - 100 \<le> 100 * en_jitter quiet_env b \<and> 100 * en_jitter quiet_env b \<le> 121 * b"
    by (simp add: quiet_env_def)
  from retry_delay_bounds [OF q r row f(1) _ f(2,3) c j, of "CtxErr DeadlineExceeded" "''target_error''"] f(4) show ?thesis
    by (auto simp: isContextErr_def)
qed

end
