(* ===== verification/Fetch_Properties.thy ===== *)
theory Fetch_Properties
  imports Attempt_Properties
begin

text \<open>
  Fetching the resolvents of a job concurrently: the outcome, success or the error that is reported, does not depend
  on how the fetches were scheduled. And what substitution then does to the payload: each series goes into its
  own slot and nowhere else.
\<close>

section \<open>Fetches are independent\<close>

lemma find_snoc: "\<not> Q x \<Longrightarrow> find Q (xs @ [x]) = find Q xs"
  by (induction xs) auto

lemma find_update_other:
  "(\<And>r. P r \<Longrightarrow> \<not> Q r \<and> \<not> Q (f r)) \<Longrightarrow> find Q (update_where P f rows) = find Q rows"
  by (induction rows) auto

lemma GetSeries_other:
  assumes "h \<noteq> k"
  shows "GetSeries up now h (snd (PutSeries up' now' k ty series ttl d)) = GetSeries up now h d"
proof -
  have "find (\<lambda>r. c_hash r = h \<and> ts now < c_expires_at r) (put_series_row k ty series now' ttl rows)
      = find (\<lambda>r. c_hash r = h \<and> ts now < c_expires_at r) rows" for rows
    unfolding put_series_row_def using assms by (auto intro!: find_update_other find_snoc)
  then show ?thesis by (simp add: GetSeries_def PutSeries_def)
qed

lemma fetchOne_reads_own_row:
  assumes "\<And>up now. GetSeries up now (fd_hash f) d' = GetSeries up now (fd_hash f) d" and "\<forall>step d. en_other e step d = d"
  shows "fst (fetchOne lib c cl e m f d') = fst (fetchOne lib c cl e m f d)"
  unfolding fetchOne_def Let_def using assms by (auto split: option.split sum.split)

lemma fetchOne_writes_own_row:
  assumes "fd_hash g \<noteq> fd_hash f" and "\<forall>step d. en_other e step d = d"
  shows "GetSeries up now (fd_hash g) (snd (fetchOne lib c cl e m f d)) = GetSeries up now (fd_hash g) d"
  unfolding fetchOne_def Let_def using assms by (auto split: option.split sum.split simp: GetSeries_other)

text \<open>Feeding in document order: every resolvent up to and including the first that fails gets its own result.\<close>

lemma feed_prefix:
  assumes "\<forall>step d. en_other e step d = d" and "\<forall>h. en_ctx e h = None" and "distinct (map fd_hash fs)"
    and "\<And>f. f \<in> set fs \<Longrightarrow> fst (fetchOne lib c cl e m f d) = own f"
  shows "\<exists>rest. fst (feedResolvents lib c cl e m False fs d) =
    map (\<lambda>f. (f, own f)) (takeWhile (\<lambda>f. \<not> isl (own f)) fs)
    @ (case find (\<lambda>f. isl (own f)) fs of None \<Rightarrow> [] | Some f \<Rightarrow> (f, own f) # rest)"
  using assms(3,4)
proof (induction fs arbitrary: d)
  case (Cons f fs)
  obtain r d' where f: "fetchOne lib c cl e m f d = (r, d')" by (rule prod.exhaust)
  have r: "r = own f" using Cons.prems(2) [of f] f by simp
  show ?case
  proof (cases "isl r")
    case True
    with assms(2) f r show ?thesis by (auto simp: Let_def case_prod_beta)
  next
    case False
    have "fst (fetchOne lib c cl e m g d') = own g" if "g \<in> set fs" for g
    proof -
      have "fd_hash g \<noteq> fd_hash f" using Cons.prems(1) that by (metis distinct.simps(2) image_eqI list.set_map list.simps(9))
      with fetchOne_writes_own_row [OF this assms(1), of _ _ lib c cl m d] f
      have "fst (fetchOne lib c cl e m g d') = fst (fetchOne lib c cl e m g d)"
        by (intro fetchOne_reads_own_row assms(1)) simp
      with Cons.prems(2) [of g] that show ?thesis by simp
    qed
    with Cons.IH [of d'] Cons.prems(1) obtain rest where
      "fst (feedResolvents lib c cl e m False fs d') = map (\<lambda>f. (f, own f)) (takeWhile (\<lambda>f. \<not> isl (own f)) fs)
        @ (case find (\<lambda>f. isl (own f)) fs of None \<Rightarrow> [] | Some f \<Rightarrow> (f, own f) # rest)" by auto
    with False assms(2) f r show ?thesis by (auto simp: Let_def case_prod_beta)
  qed
qed simp

lemma errors_of_prefix:
  "\<forall>f \<in> set fs. \<not> isl (own f) \<Longrightarrow>
   List.map_filter (\<lambda>(_, r). case r of Inl x \<Rightarrow> Some x | Inr _ \<Rightarrow> None) (map (\<lambda>f. (f, own f)) fs @ rs)
     = List.map_filter (\<lambda>(_, r). case r of Inl x \<Rightarrow> Some x | Inr _ \<Rightarrow> None) rs"
  by (induction fs) (auto simp: map_filter_simps split: sum.split)


text \<open>Two resolvents whose backend wants a nested payload they do not carry.\<close>

definition demo_found :: "string \<Rightarrow> found" where
  "demo_found h = \<lparr>fd_type = ''resolvent-pv1'', fd_hash = h, fd_object = [], fd_input = [], fd_path = h, fd_name = h, fd_slot = [Key h]\<rparr>"

definition demo_nested_config :: config where
  "demo_nested_config = demo_worker_config\<lparr>cf_resolvents := [(''resolvent-pv1'', demo_resolvent\<lparr>rv_payload_field := ''p''\<rparr>)]\<rparr>"

lemma demo_fetch:
  "fst (fetchOne plain_urls demo_nested_config demo_client quiet_env CacheRefresh (demo_found h) d) = Inl (PlainErr ''payload_field'')"
  by (simp add: fetchOne_def callResolventBackend_def demo_nested_config_def demo_found_def rcfg_of_def CacheRefresh_def obj_get_def)


section \<open>Substitution\<close>

lemma fill_level_slots:
  "fill_level sha c bs series is fs = Inr fs' \<Longrightarrow> map fd_slot fs' = map fd_slot fs \<and> map fd_object fs' = map fd_object fs"
proof (induction "is" arbitrary: fs)
  case (Cons i "is")
  from Cons.prems obtain filled f' where f: "Fill (\<lambda>j. map_of series (fd_hash (fs ! j))) (bs i) (fs ! i) = Inr (filled, f')"
    and step: "fill_level sha c bs series is (fs[i := if filled then Rehash sha (CacheIgnore (rcfg_of c (fd_type f'))) f' else f']) = Inr fs'"
    by (auto split: sum.splits prod.splits)
  from f have "fd_slot f' = fd_slot (fs ! i) \<and> fd_object f' = fd_object (fs ! i)"
    by (auto simp: Fill_def split: if_splits sum.splits)
  with Cons.IH [OF step] show ?case
    by (cases "i < length fs"; cases filled) (simp_all add: map_update Rehash_def list_update_same_conv list_update_beyond)
qed simp

lemma fetchChain_slots:
  "fetchChain lib sha c cl e m bs lvs fs series n d = (Inr (fs', series', n'), d') \<Longrightarrow>
   map fd_slot fs' = map fd_slot fs \<and> map fd_object fs' = map fd_object fs"
proof (induction lvs arbitrary: fs series n d)
  case (Cons lv lvs)
  from Cons.prems obtain fs1 got k d1 where l: "fill_level sha c bs series lv fs = Inr fs1"
    and "fetchChain lib sha c cl e m bs lvs fs1 (got @ series) (n + k) d1 = (Inr (fs', series', n'), d')"
    by (auto split: sum.splits prod.splits)
  with Cons.IH fill_level_slots [OF l] show ?case by metis
qed simp

text \<open>The series of one resolvent as it is put into the payload.\<close>

definition slot_value :: "bool \<Rightarrow> found \<Rightarrow> fields \<Rightarrow> json" where
  "slot_value attach f series = JObj (if attach then obj_put ResolventKey (JObj (fd_object f)) series else series)"

definition series_for :: "(string \<times> string) list \<Rightarrow> found \<Rightarrow> decode_error + fields" where
  "series_for series f = decodeObject (case map_of series (fd_hash f) of Some b \<Rightarrow> b | None \<Rightarrow> [])"

lemma substitute_all_put:
  "substitute_all fs series attach doc =
     (case find (\<lambda>f. isl (series_for series f)) fs of
        Some f \<Rightarrow> Inl (projl (series_for series f))
      | None \<Rightarrow> Inr (put_all (map (\<lambda>f. (fd_slot f, slot_value attach f (projr (series_for series f)))) fs) doc))"
  by (induction fs arbitrary: doc)
    (auto simp: put_all_def Substitute_def series_for_def slot_value_def Let_def isl_def split: sum.split option.split)

lemma no_series: "map_of series (fd_hash f) = None \<Longrightarrow> isl (series_for series f)"
  by (simp add: series_for_def) code_simp

text \<open>C34: Substitution is exact. For a payload whose resolvents were found, chained and fetched, substitution succeeds exactly when
  every resolvent has a series that is a JSON object; then each resolvent's slot holds its series (with the
  resolvent attached under the marker key when the target wants it), the value at every position apart from those slots is
  what it was, and the text forwarded is the encoding of that document.\<close>

theorem substitute_exact:
  assumes "json_ok (JObj payload)"
    and "fetchChain lib sha c cl e m bs lvs (Find sha' payload path) [] 0 d = (Inr (fs, series, n), d')"
  shows "(case substitute payload fs series attach of
      Inl _ \<Rightarrow> \<exists>f \<in> set fs. map_of series (fd_hash f) = None \<or> (\<exists>b x. map_of series (fd_hash f) = Some b \<and> decodeObject b = Inl x)
    | Inr text \<Rightarrow> \<exists>doc. text = encode doc
        \<and> (\<forall>f \<in> set fs. \<exists>b s. map_of series (fd_hash f) = Some b \<and> decodeObject b = Inr s
             \<and> get_at doc (fd_slot f) = Some (JObj (if attach then obj_put ResolventKey (JObj (fd_object f)) s else s)))
        \<and> (\<forall>q. (\<forall>f \<in> set fs. apart (fd_slot f) q) \<longrightarrow> get_at doc q = get_at (JObj payload) q))"
proof -
  let ?ups = "map (\<lambda>f. (fd_slot f, slot_value attach f (projr (series_for series f)))) fs"
  note F = Find_found [OF assms(1), where path = path and sha = sha'] and S = fetchChain_slots [OF assms(2)]
  have slots: "map fst ?ups = map fd_slot (Find sha' payload path)" using S by (simp add: comp_def)
  have finds: "\<exists>g. finds payload path (fst u) g" if "u \<in> set ?ups" for u
  proof -
    have "fst u \<in> set (map fst ?ups)" using that by auto
    then obtain f where "f \<in> set (Find sha' payload path)" "fst u = fd_slot f" unfolding slots by auto
    with F(4) show ?thesis by metis
  qed
  have got: "map_of series (fd_hash f) = Some b \<Longrightarrow> series_for series f = decodeObject b" for f b by (simp add: series_for_def)
  show ?thesis
  proof (cases "find (\<lambda>f. isl (series_for series f)) fs")
    case None
    then have ok: "\<exists>b s. map_of series (fd_hash f) = Some b \<and> decodeObject b = Inr s" if "f \<in> set fs" for f
      using that got no_series [of series f] by (auto simp: find_None_iff isl_def) (metis sum.exhaust option.exhaust)
    have "distinct (map fst ?ups)" using F(2) unfolding slots .
    moreover have "\<forall>u \<in> set ?ups. \<forall>w \<in> set ?ups. fst u \<noteq> fst w \<longrightarrow> apart (fst u) (fst w)"
      using finds finds_apart by metis
    moreover have "\<forall>u \<in> set ?ups. get_at (JObj payload) (fst u) \<noteq> None" using finds finds_get by fastforce
    ultimately have put: "get_at (put_all ?ups (JObj payload)) (fd_slot f) = Some (slot_value attach f (projr (series_for series f)))"
      if "f \<in> set fs" for f using that by (intro put_all_get) auto
    have each: "\<exists>b s. map_of series (fd_hash f) = Some b \<and> decodeObject b = Inr s
        \<and> get_at (put_all ?ups (JObj payload)) (fd_slot f) = Some (JObj (if attach then obj_put ResolventKey (JObj (fd_object f)) s else s))"
      if f: "f \<in> set fs" for f
    proof -
      from ok [OF f] obtain b s where b: "map_of series (fd_hash f) = Some b" "decodeObject b = Inr s" by blast
      with got [OF b(1)] put [OF f] show ?thesis by (simp add: slot_value_def)
    qed
    have rest: "get_at (put_all ?ups (JObj payload)) q = get_at (JObj payload) q" if "\<forall>f \<in> set fs. apart (fd_slot f) q" for q
      using that by (intro put_all_frame) auto
    have out: "substitute payload fs series attach = Inr (encode (put_all ?ups (JObj payload)))"
      by (simp add: substitute_def substitute_all_put None)
    have "\<forall>f \<in> set fs. \<exists>b s. map_of series (fd_hash f) = Some b \<and> decodeObject b = Inr s \<and> get_at (put_all ?ups (JObj payload)) (fd_slot f)
        = Some (JObj (if attach then obj_put ResolventKey (JObj (fd_object f)) s else s))" using each by blast
    moreover have "\<forall>q. (\<forall>f \<in> set fs. apart (fd_slot f) q) \<longrightarrow> get_at (put_all ?ups (JObj payload)) q = get_at (JObj payload) q"
      using rest by blast
    ultimately show ?thesis unfolding out sum.case by blast
  next
    case (Some f)
    then have "f \<in> set fs" "isl (series_for series f)" by (auto simp: find_Some_iff)
    with got [of f] have "\<exists>f \<in> set fs. map_of series (fd_hash f) = None
        \<or> (\<exists>b x. map_of series (fd_hash f) = Some b \<and> decodeObject b = Inl x)"
      by (cases "map_of series (fd_hash f)") (auto simp: isl_def)
    moreover have "substitute payload fs series attach = Inl (projl (series_for series f))"
      by (simp add: substitute_def substitute_all_put Some)
    ultimately show ?thesis by simp
  qed
qed

text \<open>The payload with one panel, resolved by a call that answers the empty object.\<close>

definition demo_fetched :: "(fetch_error + (found list \<times> (string \<times> string) list \<times> nat)) \<times> db" where
  "demo_fetched = fetchChain plain_urls id demo_worker_config demo_client quiet_env CacheRefresh (\<lambda>_. []) [[0]]
     (Find id demo_payload ''model'') [] 0 demo_claimed"

lemma demo_fetched_slots:
  "case demo_fetched of
     (Inr (fs, series, n), _) \<Rightarrow> map fd_slot fs = [[Key ''model'', Key ''pv'']] \<and> \<not> isl (substitute demo_payload fs series False)
   | _ \<Rightarrow> False"
  by code_simp

theorem substitute_exact_witness:
  "\<exists>doc. (case demo_fetched of (Inr (fs, series, n), _) \<Rightarrow> substitute demo_payload fs series False = Inr (encode doc) | _ \<Rightarrow> False)
     \<and> get_at doc [Key ''name''] = get_at (JObj demo_payload) [Key ''name'']"
proof -
  obtain fs series n d' where f: "demo_fetched = (Inr (fs, series, n), d')"
    and slots: "map fd_slot fs = [[Key ''model'', Key ''pv'']]" and ok: "\<not> isl (substitute demo_payload fs series False)"
    using demo_fetched_slots by (auto split: prod.splits sum.splits)
  from ok obtain out where t: "substitute demo_payload fs series False = Inr out"
    by (metis isl_def sum.exhaust)
  have "\<forall>f \<in> set fs. apart (fd_slot f) [Key ''name'']" using slots by (auto simp: apart_def map_eq_Cons_conv)
  with substitute_exact [OF demo_payload_ok f [unfolded demo_fetched_def], of False] t obtain doc
    where "out = encode doc" and "get_at doc [Key ''name''] = get_at (JObj demo_payload) [Key ''name'']" by (auto simp del: get_at.simps)
  with t show ?thesis unfolding f by (auto simp del: get_at.simps)
qed

end
