(* ===== verification/Jobview.thy ===== *)
theory Jobview
  imports Upstream Job_Store Timestamps
begin

text \<open>
  \<^verbatim>\<open>internal/jobview/jobview.go\<close>: the public document of a job, which the API answers and a completion callback
  delivers, and its text as \<^verbatim>\<open>json.Marshal\<close> writes it: the fields in declaration order, those marked
  \<^verbatim>\<open>omitempty\<close> left out when empty, raw values compacted.
\<close>

record result_view =
  rw_status :: int
  rw_response :: string
  rw_href :: string
  rw_ctype :: string

record callback_info =
  ci_url :: string
  ci_state :: string
  ci_attempts :: int
  ci_last_status :: "int option"
  ci_last_error :: string

record job_view =
  jv_id :: string
  jv_target :: string
  jv_state :: string
  jv_attempts :: int
  jv_priority :: int
  jv_options :: "string option"
  jv_target_job_id :: string
  jv_not_before :: "string option"
  jv_created_at :: string
  jv_updated_at :: string
  jv_completed_at :: "string option"
  jv_result :: "result_view option"
  jv_error :: "(string \<times> string) option"
  jv_callback :: "callback_info option"

definition stamp_text :: "stamp \<Rightarrow> string" where
  "stamp_text s = rfc3339 (parseTS s)"

definition RawOrQuoted :: "string \<Rightarrow> string" where
  "RawOrQuoted b = (if Valid b then b else quote b)"

definition ResultFor :: "job \<Rightarrow> result_view option" where
  "ResultFor j = (case j_target_status j of
     None \<Rightarrow> None
   | Some st \<Rightarrow>
       (let res = \<lparr>rw_status = st, rw_response = '''', rw_href = '''', rw_ctype = ''''\<rparr>;
            body = (case j_target_response j of None \<Rightarrow> '''' | Some b \<Rightarrow> b)
        in Some (if j_result_path j \<noteq> ''''
                 then res\<lparr>rw_href := ''/v1/requests/'' @ j_id j @ ''/result'', rw_ctype := j_result_ct j\<rparr>
                 else if body \<noteq> '''' then res\<lparr>rw_response := RawOrQuoted body\<rparr> else res)))"

definition From :: "job \<Rightarrow> job_view" where
  "From j = \<lparr>jv_id = j_id j, jv_target = j_target j, jv_state = state_name (j_state j), jv_attempts = j_attempts j,
     jv_priority = j_priority j, jv_options = (if options_zero (j_options j) then None else Some (opt_cache (j_options j))),
     jv_target_job_id = j_target_job_id j, jv_not_before = map_option stamp_text (j_not_before j),
     jv_created_at = stamp_text (j_created_at j), jv_updated_at = stamp_text (j_updated_at j),
     jv_completed_at = map_option stamp_text (j_completed_at j),
     jv_result = (if j_state j = StateCompleted then ResultFor j else None),
     jv_error = (if j_state j = StateFailed then Some (j_error_code j, j_error_message j) else None),
     jv_callback = None\<rparr>"

section \<open>Text\<close>

definition struct_text :: "(string \<times> string) list \<Rightarrow> string" where
  "struct_text fs = ''{'' @ join_comma (map (\<lambda>f. quote (fst f) @ '':'' @ snd f) fs) @ ''}''"

definition str_text :: "string \<Rightarrow> string \<Rightarrow> (string \<times> string) list" where
  "str_text k s = [(k, quote s)]"

definition str_nonempty :: "string \<Rightarrow> string \<Rightarrow> (string \<times> string) list" where
  "str_nonempty k s = (if s = '''' then [] else [(k, quote s)])"

definition opt_text :: "string \<Rightarrow> string option \<Rightarrow> (string \<times> string) list" where
  "opt_text k x = (case x of None \<Rightarrow> [] | Some t \<Rightarrow> [(k, t)])"

definition options_text :: "string \<Rightarrow> string" where
  "options_text cache = struct_text (str_nonempty ''cache'' cache)"

definition result_text :: "result_view \<Rightarrow> string" where
  "result_text r = struct_text ([(''target_status'', show_int (rw_status r))]
     @ (if rw_response r = '''' then [] else [(''target_response'', compact False (rw_response r))])
     @ str_nonempty ''href'' (rw_href r) @ str_nonempty ''content_type'' (rw_ctype r))"

definition callback_text :: "callback_info \<Rightarrow> string" where
  "callback_text c = struct_text (str_text ''url'' (ci_url c) @ str_text ''state'' (ci_state c)
     @ [(''attempts'', show_int (ci_attempts c))] @ opt_text ''last_status'' (map_option show_int (ci_last_status c))
     @ str_nonempty ''last_error'' (ci_last_error c))"

definition job_text :: "job_view \<Rightarrow> string" where
  "job_text v = struct_text
     (str_text ''id'' (jv_id v) @ str_text ''target'' (jv_target v) @ str_text ''state'' (jv_state v)
      @ [(''attempts'', show_int (jv_attempts v))]
      @ (if jv_priority v = 0 then [] else [(''priority'', show_int (jv_priority v))])
      @ opt_text ''options'' (map_option options_text (jv_options v))
      @ str_nonempty ''target_job_id'' (jv_target_job_id v)
      @ opt_text ''not_before'' (map_option quote (jv_not_before v))
      @ str_text ''created_at'' (jv_created_at v) @ str_text ''updated_at'' (jv_updated_at v)
      @ opt_text ''completed_at'' (map_option quote (jv_completed_at v))
      @ [(''result'', case jv_result v of None \<Rightarrow> ''null'' | Some r \<Rightarrow> result_text r)]
      @ [(''error'', case jv_error v of None \<Rightarrow> ''null''
           | Some (code, message) \<Rightarrow> struct_text (str_text ''code'' code @ str_text ''message'' message))]
      @ opt_text ''callback'' (map_option callback_text (jv_callback v)))"

end
