(* ===== verification/Callback.thy ===== *)
theory Callback
  imports Jobview Worker
begin

text \<open>
  \<^verbatim>\<open>internal/callback/allow.go\<close> and \<^verbatim>\<open>deliverer.go\<close>: which callback URLs are accepted, and one pass of the
  delivery loop over the outbox. The state is the database and the list of requests handed to the HTTP client. The environment
  gives the configuration, the clock, the store and the other connections per step, the answers of the network and
  the jitter; HMAC-SHA256 in hexadecimal, URL parsing, Unicode case folding and \<^verbatim>\<open>strconv.Quote\<close> are parameters. Logging and
  metrics are left out.
\<close>

section \<open>The allow-list\<close>

datatype check_error = ErrDisabled | NotAURL | NotHttps | HasCredentials | HasNoHost | HostNotAllowed string

record text_lib =
  tl_fold :: "string \<Rightarrow> string \<Rightarrow> bool"
  tl_quote :: "string \<Rightarrow> string"

definition check_text :: "text_lib \<Rightarrow> check_error \<Rightarrow> string" where
  "check_text tx e = (case e of
     ErrDisabled \<Rightarrow> ''callbacks are not enabled on this deployment''
   | NotAURL \<Rightarrow> ''callback_url is not a valid URL''
   | NotHttps \<Rightarrow> ''callback_url must use https''
   | HasCredentials \<Rightarrow> ''callback_url must not carry credentials''
   | HasNoHost \<Rightarrow> ''callback_url has no host''
   | HostNotAllowed h \<Rightarrow> ''callback_url host '' @ tl_quote tx h @ '' is not allow-listed'')"

definition Check :: "'u url_lib \<Rightarrow> text_lib \<Rightarrow> callbacks_cfg \<Rightarrow> string \<Rightarrow> check_error option" where
  "Check lib tx cb raw =
     (if \<not> CallbacksEnabled cb then Some ErrDisabled
      else case url_parse lib raw of
        None \<Rightarrow> Some NotAURL
      | Some u \<Rightarrow>
          if url_scheme lib u \<noteq> ''https'' then Some NotHttps
          else if url_user lib u then Some HasCredentials
          else if url_host lib u = '''' then Some HasNoHost
          else if \<exists>h \<in> set (cb_hosts cb). tl_fold tx h (url_host lib u) then None
          else Some (HostNotAllowed (url_host lib u)))"

section \<open>Signatures\<close>

type_synonym mac = "string \<Rightarrow> string \<Rightarrow> string"

definition Sign :: "mac \<Rightarrow> string \<Rightarrow> string \<Rightarrow> string" where
  "Sign hmac secret body = ''sha256='' @ hmac secret body"

definition Verify :: "mac \<Rightarrow> string \<Rightarrow> string \<Rightarrow> string \<Rightarrow> bool" where
  "Verify hmac secret body signature \<longleftrightarrow> Sign hmac secret body = signature"

section \<open>One attempt\<close>

datatype post_error = PostBuild | PostNet cause | PostStatus nat | Refused check_error

record cb_env =
  ce_cfg :: "string \<Rightarrow> config"
  ce_now :: "string \<Rightarrow> instant"
  ce_up :: "string \<Rightarrow> bool"
  ce_done :: "string \<Rightarrow> bool"
  ce_net :: "outbound \<Rightarrow> wire"
  ce_jitter :: "duration \<Rightarrow> duration"
  ce_other :: "string \<Rightarrow> db \<Rightarrow> db"
  ce_text :: "post_error \<Rightarrow> string"

record courier =
  co_db :: db
  co_sent :: "outbound list"

definition step_for :: "string \<Rightarrow> string \<Rightarrow> string" where
  "step_for step jobID = step @ '' '' @ jobID"

datatype outcome = Delivered | GivenUp | Retry

definition delivery_backoff :: "config \<Rightarrow> cb_env \<Rightarrow> int \<Rightarrow> duration" where
  "delivery_backoff c e attempts =
     (let b = wrap64 (wk_backoff_base (cf_worker c) * 2 ^ nat (attempts - 1));
          b' = (if wk_backoff_max (cf_worker c) < b \<or> b \<le> 0 then wk_backoff_max (cf_worker c) else b)
      in ce_jitter e b')"

definition classify :: "cb_env \<Rightarrow> string \<Rightarrow> int \<Rightarrow> nat \<Rightarrow> bool \<Rightarrow> outcome \<times> instant option" where
  "classify e jobID attempts status failed =
     (let c = ce_cfg e (step_for ''classify'' jobID)
      in if \<not> failed then (Delivered, None)
         else if 300 \<le> status \<and> status < 500 \<and> status \<noteq> 408 \<and> status \<noteq> 429 then (GivenUp, None)
         else if cb_max_attempts (cf_callbacks c) \<le> attempts then (GivenUp, None)
         else (Retry, Some (ce_now e (step_for ''classify'' jobID) + delivery_backoff c e attempts)))"

definition post :: "mac \<Rightarrow> cb_env \<Rightarrow> delivery \<Rightarrow> string \<Rightarrow> outbound \<times> nat \<times> post_error option" where
  "post hmac e del body =
     (let cb = cf_callbacks (ce_cfg e (step_for ''post'' (d_job del)));
          hs = [(''Content-Type'', ''application/json''), (''X-Tentacron-Event'', d_event del),
                (''X-Tentacron-Request-Id'', d_job del), (''X-Tentacron-Attempt'', show_int (d_attempts del + 1)),
                (''X-Tentacron-Signature'', Sign hmac (cb_secret cb) body)];
          ob = \<lparr>ob_method = ''POST'', ob_url = d_url del, ob_body = Some body,
                ob_headers = foldl (\<lambda>h (k, v). hdr_set k v h) [] hs, ob_timeout = cb_timeout cb\<rparr>
      in (ob, case ce_net e ob of
                CannotBuild \<Rightarrow> (0, Some PostBuild)
              | NetFail x \<Rightarrow> (0, Some (PostNet x))
              | Reply status _ _ _ \<Rightarrow> (status, if status < 200 \<or> 299 < status then Some (PostStatus status) else None)))"

definition record_attempt :: "cb_env \<Rightarrow> delivery \<Rightarrow> nat \<Rightarrow> post_error option \<Rightarrow> courier \<Rightarrow> courier" where
  "record_attempt e del status err s =
     (let i = d_job del; step = step_for ''record'' i; (result, next) = classify e i (d_attempts del + 1) status (err \<noteq> None);
          lastErr = (case err of None \<Rightarrow> '''' | Some x \<Rightarrow> ce_text e x)
      in s\<lparr>co_db := snd (RecordAttempt (ce_up e step) i (d_attempts del) (if status = 0 then None else Some (int status))
              lastErr (result = Delivered) next (ce_now e step) (ce_other e step (co_db s)))\<rparr>)"

definition refuse :: "cb_env \<Rightarrow> delivery \<Rightarrow> check_error \<Rightarrow> courier \<Rightarrow> courier" where
  "refuse e del reason s = record_attempt e del 0 (Some (Refused reason)) s"

text \<open>The document always encodes: its raw parts are valid JSON.\<close>

definition cb_attempt :: "mac \<Rightarrow> cb_env \<Rightarrow> delivery \<Rightarrow> courier \<Rightarrow> courier" where
  "cb_attempt hmac e del s =
     (let step = step_for ''get'' (d_job del); d0 = ce_other e step (co_db s)
      in case (if ce_up e step then GetJob d0 (d_job del) else Inl ErrDriver) of
           Inl _ \<Rightarrow> s\<lparr>co_db := d0\<rparr>
         | Inr job \<Rightarrow>
             (let (ob, status, err) = post hmac e del (job_text (From job))
              in record_attempt e del status err (s\<lparr>co_db := d0, co_sent := co_sent s @ (if err = Some PostBuild then [] else [ob])\<rparr>)))"

section \<open>One pass\<close>

definition cb_dueBatch :: nat where "cb_dueBatch = 50"

fun deliver_all :: "'u url_lib \<Rightarrow> text_lib \<Rightarrow> mac \<Rightarrow> config \<Rightarrow> cb_env \<Rightarrow> delivery list \<Rightarrow> courier \<Rightarrow> courier" where
  "deliver_all lib tx hmac c e [] s = s"
| "deliver_all lib tx hmac c e (del # dels) s =
     (if ce_done e (d_job del) then s
      else case Check lib tx (cf_callbacks c) (d_url del) of
        Some reason \<Rightarrow> deliver_all lib tx hmac c e dels (refuse e del reason s)
      | None \<Rightarrow> deliver_all lib tx hmac c e dels (cb_attempt hmac e del s))"

definition deliverDue :: "'u url_lib \<Rightarrow> text_lib \<Rightarrow> mac \<Rightarrow> cb_env \<Rightarrow> courier \<Rightarrow> courier" where
  "deliverDue lib tx hmac e s =
     (if \<not> ce_up e ''due'' then s
      else deliver_all lib tx hmac (ce_cfg e ''due'') e (DueDeliveries (co_db s) (ce_now e ''due'') cb_dueBatch) s)"

end
