(* ===== verification/Callback_Properties.thy ===== *)
theory Callback_Properties
  imports Callback Attempt_Properties Compare_And_Set
begin

text \<open>
  What the deliverer of completion callbacks guarantees: nothing leaves for a host that is not allow-listed, every
  document is signed, every run is a run of the store, and a pass over the outbox moves every due delivery towards
  its end.
\<close>

section \<open>The fence\<close>

lemma Check_None:
  "Check lib tx cb raw = None \<longleftrightarrow>
     (\<exists>u. url_parse lib raw = Some u \<and> url_scheme lib u = ''https'' \<and> \<not> url_user lib u \<and> url_host lib u \<noteq> ''''
        \<and> (\<exists>h \<in> set (cb_hosts cb). tl_fold tx h (url_host lib u)))"
  by (auto simp: Check_def CallbacksEnabled_def split: option.splits)

text \<open>A request the deliverer may send: to an admitted URL, with the signed document of a job.\<close>

definition fenced_post :: "'u url_lib \<Rightarrow> text_lib \<Rightarrow> mac \<Rightarrow> callbacks_cfg \<Rightarrow> (string \<Rightarrow> string) \<Rightarrow> outbound \<Rightarrow> bool" where
  "fenced_post lib tx hmac cb secret ob \<longleftrightarrow>
     ob_method ob = ''POST'' \<and> Check lib tx cb (ob_url ob) = None
   \<and> (\<exists>job body. body = job_text (From job) \<and> ob_body ob = Some body
        \<and> (''X-Tentacron-Signature'', Sign hmac (secret (j_id job)) body) \<in> set (ob_headers ob))"

abbreviation secret_of :: "cb_env \<Rightarrow> string \<Rightarrow> string" where
  "secret_of e i \<equiv> cb_secret (cf_callbacks (ce_cfg e (step_for ''post'' i)))"

lemma record_attempt_sent [simp]: "co_sent (record_attempt e del status err s) = co_sent s"
  by (simp add: record_attempt_def Let_def case_prod_beta)

lemma post_fenced:
  assumes "Check lib tx cb (d_url del) = None" and "j_id job = d_job del"
    and "post hmac e del (job_text (From job)) = (ob, r)"
  shows "fenced_post lib tx hmac cb (secret_of e) ob"
  using assms by (auto simp: fenced_post_def post_def Let_def hdr_set_def intro!: exI [of _ job])

lemma cb_attempt_sent:
  assumes "Check lib tx cb (d_url del) = None"
  shows "\<exists>new. co_sent (cb_attempt hmac e del s) = co_sent s @ new \<and> (\<forall>ob \<in> set new. fenced_post lib tx hmac cb (secret_of e) ob)"
proof -
  let ?d = "ce_other e (step_for ''get'' (d_job del)) (co_db s)"
  show ?thesis
  proof (cases "if ce_up e (step_for ''get'' (d_job del)) then GetJob ?d (d_job del) else Inl ErrDriver")
    case (Inr job)
    then have "j_id job = d_job del" by (auto simp: GetJob_def split: if_splits option.splits dest: find_job_SomeD)
    moreover obtain ob status err where p: "post hmac e del (job_text (From job)) = (ob, status, err)" by (rule prod_cases3)
    ultimately have "fenced_post lib tx hmac cb (secret_of e) ob" using post_fenced [OF assms] by blast
    with Inr p show ?thesis by (auto simp: cb_attempt_def Let_def)
  qed (auto simp: cb_attempt_def Let_def)
qed

lemma deliver_all_sent:
  "\<exists>new. co_sent (deliver_all lib tx hmac c e dels s) = co_sent s @ new
     \<and> (\<forall>ob \<in> set new. fenced_post lib tx hmac (cf_callbacks c) (secret_of e) ob)"
proof (induction dels arbitrary: s)
  case (Cons del dels)
  show ?case
  proof (cases "Check lib tx (cf_callbacks c) (d_url del)")
    case None
    from cb_attempt_sent [OF this, of hmac e s] Cons.IH [of "cb_attempt hmac e del s"] None show ?thesis
      by (auto simp: ball_Un)
  next
    case (Some reason)
    with Cons.IH [of "refuse e del reason s"] show ?thesis by (auto simp: refuse_def)
  qed
qed simp

text \<open>C39: Callbacks stay inside their fence. Whatever URLs are stored and whatever the network, the store and other connections do, each
  request a delivery pass sends is a POST to an https URL without credentials whose host is on the allow-list in
  force at the start of the pass, and it carries the document of a job with its HMAC signature.\<close>

theorem callbacks_stay_fenced:
  "\<exists>new. co_sent (deliverDue lib tx hmac e s) = co_sent s @ new
     \<and> (\<forall>ob \<in> set new.
          (\<exists>u. url_parse lib (ob_url ob) = Some u \<and> url_scheme lib u = ''https'' \<and> \<not> url_user lib u
             \<and> (\<exists>h \<in> set (cb_hosts (cf_callbacks (ce_cfg e ''due''))). tl_fold tx h (url_host lib u)))
        \<and> ob_method ob = ''POST''
        \<and> (\<exists>job. ob_body ob = Some (job_text (From job))
             \<and> (\<exists>sig. (''X-Tentacron-Signature'', sig) \<in> set (ob_headers ob)
                  \<and> Verify hmac (cb_secret (cf_callbacks (ce_cfg e (step_for ''post'' (j_id job))))) (job_text (From job)) sig)))"
proof (cases "ce_up e ''due''")
  case True
  then show ?thesis
    using deliver_all_sent [of lib tx hmac "ce_cfg e ''due''" e "DueDeliveries (co_db s) (ce_now e ''due'') cb_dueBatch" s]
    unfolding fenced_post_def Check_None Verify_def deliverDue_def by simp blast
qed (simp add: deliverDue_def)

section \<open>Runs of the deliverer are runs of the store\<close>

definition cb_tolerates :: "(db \<Rightarrow> bool) \<Rightarrow> cb_env \<Rightarrow> bool" where
  "cb_tolerates I e \<longleftrightarrow> (\<forall>step d. I d \<longrightarrow> I (ce_other e step d))"

locale courier_store =
  fixes I :: "db \<Rightarrow> bool"
  assumes recording: "I d \<Longrightarrow> I (snd (RecordAttempt up i prev status err delivered nxt now d))"
begin

lemma record_attempt_keeps: "cb_tolerates I e \<Longrightarrow> I (co_db s) \<Longrightarrow> I (co_db (record_attempt e del status err s))"
  by (simp add: record_attempt_def Let_def case_prod_beta recording cb_tolerates_def)

lemma cb_attempt_keeps: "cb_tolerates I e \<Longrightarrow> I (co_db s) \<Longrightarrow> I (co_db (cb_attempt hmac e del s))"
  by (auto simp: cb_attempt_def Let_def cb_tolerates_def split: sum.split prod.split intro!: record_attempt_keeps)

lemma deliverDue_keeps:
  assumes "cb_tolerates I e" and "I (co_db s)"
  shows "I (co_db (deliverDue lib tx hmac e s))"
proof -
  have "I (co_db (deliver_all lib tx hmac c e dels s))" if "I (co_db s)" for c dels s
    using that
    by (induction dels arbitrary: s) (simp_all add: refuse_def record_attempt_keeps cb_attempt_keeps assms(1) split: option.split)
  with assms show ?thesis by (simp add: deliverDue_def)
qed

end

interpretation courier_reach: courier_store "reachable_db pol" for pol
  by unfold_locales (blast intro: reachable_db.step store_step.attempt prod.collapse [symmetric])

interpretation courier_ok: courier_store db_ok
  by unfold_locales (blast intro: RecordAttempt_ok prod.collapse [symmetric])

section \<open>A pass over the outbox\<close>

definition cb_quiet :: "config \<Rightarrow> cb_env \<Rightarrow> bool" where
  "cb_quiet c e \<longleftrightarrow> (\<forall>step. ce_up e step \<and> \<not> ce_done e step \<and> ce_cfg e step = c) \<and> (\<forall>step d. ce_other e step d = d)"

text \<open>What one attempt makes of a delivery row.\<close>

definition attempted :: "config \<Rightarrow> cb_env \<Rightarrow> delivery \<Rightarrow> delivery \<Rightarrow> bool" where
  "attempted c e r r' \<longleftrightarrow> d_attempts r' = d_attempts r + 1
   \<and> (cb_max_attempts (cf_callbacks c) \<le> d_attempts r + 1 \<longrightarrow> delivery_state r' \<noteq> DeliveryPending)
   \<and> (delivery_state r' = DeliveryDelivered \<longrightarrow> (\<exists>st. d_last_status r' = Some st \<and> 200 \<le> st \<and> st \<le> 299))
   \<and> (\<forall>n. d_next_attempt_at r' = Some n \<longrightarrow>
        (\<exists>b. n = ts (ce_now e (step_for ''classify'' (d_job r)) + ce_jitter e b) \<and> 0 < b \<and> b \<le> wk_backoff_max (cf_worker c)))"

lemma RecordAttempt_hit:
  assumes "distinct (map d_job (deliveries d))" and "row_by d_job i (deliveries d) = Some r"
  shows "row_by d_job k (deliveries (snd (RecordAttempt True i (d_attempts r) st err dl nx now d)))
    = (if k = i then Some (set_attempt st err dl nx now r) else row_by d_job k (deliveries d))"
    and "jobs (snd (RecordAttempt True i (d_attempts r) st err dl nx now d)) = jobs d"
proof -
  have key: "d_job (set_attempt st err dl nx now q) = d_job q" for q by (simp add: set_attempt_def)
  have hit: "\<exists>q \<in> set (deliveries d). d_job q = i \<and> d_attempts q = d_attempts r" using row_by_SomeD [OF assms(2)] by blast
  then show "jobs (snd (RecordAttempt True i (d_attempts r) st err dl nx now d)) = jobs d" by (simp add: RecordAttempt_def)
  show "row_by d_job k (deliveries (snd (RecordAttempt True i (d_attempts r) st err dl nx now d)))
    = (if k = i then Some (set_attempt st err dl nx now r) else row_by d_job k (deliveries d))"
    using hit assms(2)
    by (auto simp: RecordAttempt_def row_by_update_where key option.map_ident map_option_case dest!: row_by_SomeD split: option.split)
qed

lemma record_attempt_row:
  assumes q: "cb_quiet c e" and d: "distinct (map d_job (deliveries (co_db s)))" "row_by d_job (d_job del) (deliveries (co_db s)) = Some del"
    and ok: "err = None \<Longrightarrow> 200 \<le> status \<and> status \<le> 299" and m: "0 < wk_backoff_max (cf_worker c)"
  shows "\<exists>r'. attempted c e del r' \<and> (\<forall>k. row_by d_job k (deliveries (co_db (record_attempt e del status err s)))
      = (if k = d_job del then Some r' else row_by d_job k (deliveries (co_db s))))"
proof -
  let ?i = "d_job del" and ?step = "step_for ''record'' (d_job del)"
  obtain res nx where cl: "classify e ?i (d_attempts del + 1) status (err \<noteq> None) = (res, nx)" by (rule prod.exhaust)
  obtain b where b: "delivery_backoff c e (d_attempts del + 1) = ce_jitter e b" "0 < b" "b \<le> wk_backoff_max (cf_worker c)"
    using backoff_of_range [OF m, of "d_attempts del + 1"] by (auto simp: delivery_backoff_def Let_def backoff_of_def)
  let ?r' = "set_attempt (if status = 0 then None else Some (int status)) (case err of None \<Rightarrow> [] | Some x \<Rightarrow> ce_text e x)
      (res = Delivered) nx (ce_now e ?step) del"
  have "attempted c e del ?r'"
    using cl q ok b by (auto simp: attempted_def set_attempt_def classify_def Let_def cb_quiet_def delivery_state_def split: if_splits)
  moreover have "co_db (record_attempt e del status err s) = snd (RecordAttempt True ?i (d_attempts del)
      (if status = 0 then None else Some (int status)) (case err of None \<Rightarrow> [] | Some x \<Rightarrow> ce_text e x)
      (res = Delivered) nx (ce_now e ?step) (co_db s))"
    using q cl by (simp add: record_attempt_def Let_def cb_quiet_def)
  ultimately show ?thesis using RecordAttempt_hit(1) [OF d] by auto
qed

lemma deliver_one_row:
  assumes q: "cb_quiet c e" and ok: "db_ok (co_db s)" and r: "row_by d_job (d_job del) (deliveries (co_db s)) = Some del"
    and m: "0 < wk_backoff_max (cf_worker c)"
  shows "\<exists>r'. attempted c e del r' \<and> (\<forall>k. row_by d_job k (deliveries (co_db (cb_attempt hmac e del s)))
      = (if k = d_job del then Some r' else row_by d_job k (deliveries (co_db s))))"
    and "\<exists>r'. attempted c e del r' \<and> (\<forall>k. row_by d_job k (deliveries (co_db (refuse e del reason s)))
      = (if k = d_job del then Some r' else row_by d_job k (deliveries (co_db s))))"
proof -
  have d: "distinct (map d_job (deliveries (co_db s)))" using ok by (simp add: db_ok_def outbox_ok_def)
  then show "\<exists>r'. attempted c e del r' \<and> (\<forall>k. row_by d_job k (deliveries (co_db (refuse e del reason s)))
      = (if k = d_job del then Some r' else row_by d_job k (deliveries (co_db s))))"
    unfolding refuse_def by (rule record_attempt_row [OF q _ r _ m]) simp
  have "del \<in> set (deliveries (co_db s))" using row_by_SomeD [OF r] by simp
  with ok obtain j where "j \<in> set (jobs (co_db s))" "j_id j = d_job del" by (auto simp: db_ok_def outbox_ok_def)
  with ok have job: "GetJob (co_db s) (d_job del) = Inr j"
    by (auto simp: GetJob_def db_ok_def ids_ok_def find_job_def dest: row_by_distinct)
  obtain ob status err where p: "post hmac e del (job_text (From j)) = (ob, status, err)" by (rule prod_cases3)
  then have st: "err = None \<Longrightarrow> 200 \<le> status \<and> status \<le> 299"
    by (auto simp: post_def Let_def split: wire.splits if_splits)
  let ?s = "s\<lparr>co_sent := co_sent s @ (if err = Some PostBuild then [] else [ob])\<rparr>"
  define s' where "s' = ?s"
  then have s': "co_db s' = co_db s" by simp
  have run: "cb_attempt hmac e del s = record_attempt e del status err s'"
    using q job p by (simp add: cb_attempt_def Let_def cb_quiet_def s'_def)
  from record_attempt_row [OF q _ _ st m, of s' del, unfolded s', OF d r] show "\<exists>r'. attempted c e del r' \<and> (\<forall>k. row_by d_job k (deliveries (co_db (cb_attempt hmac e del s)))
      = (if k = d_job del then Some r' else row_by d_job k (deliveries (co_db s))))"
    unfolding run s' by blast
qed

lemma deliver_all_rows:
  assumes q: "cb_quiet c e" and m: "0 < wk_backoff_max (cf_worker c)"
    and "db_ok (co_db s)" and "distinct (map d_job dels)"
    and "\<And>del. del \<in> set dels \<Longrightarrow> row_by d_job (d_job del) (deliveries (co_db s)) = Some del"
  shows "(\<forall>del \<in> set dels. \<exists>r'. row_by d_job (d_job del) (deliveries (co_db (deliver_all lib tx hmac c e dels s))) = Some r' \<and> attempted c e del r')
    \<and> (\<forall>k. k \<notin> d_job ` set dels \<longrightarrow> row_by d_job k (deliveries (co_db (deliver_all lib tx hmac c e dels s))) = row_by d_job k (deliveries (co_db s)))"
  using assms(3-)
proof (induction dels arbitrary: s)
  case (Cons del dels)
  have tol: "cb_tolerates db_ok e" using q by (simp add: cb_quiet_def cb_tolerates_def)
  define s1 where "s1 = (case Check lib tx (cf_callbacks c) (d_url del) of Some x \<Rightarrow> refuse e del x s | None \<Rightarrow> cb_attempt hmac e del s)"
  have step: "deliver_all lib tx hmac c e (del # dels) s = deliver_all lib tx hmac c e dels s1"
    using q by (simp add: s1_def cb_quiet_def split: option.split)
  have ok1: "db_ok (co_db s1)"
    using courier_ok.cb_attempt_keeps [OF tol] courier_ok.record_attempt_keeps [OF tol] Cons.prems(1)
    by (auto simp: s1_def refuse_def split: option.split)
  obtain r' where r': "attempted c e del r'" and rows: "\<And>k. row_by d_job k (deliveries (co_db s1))
      = (if k = d_job del then Some r' else row_by d_job k (deliveries (co_db s)))"
  proof (cases "Check lib tx (cf_callbacks c) (d_url del)")
    case None
    with deliver_one_row(1) [OF q Cons.prems(1) Cons.prems(3) m, of del hmac] that show thesis by (auto simp: s1_def)
  next
    case (Some x)
    with deliver_one_row(2) [OF q Cons.prems(1) Cons.prems(3) m, of del x] that show thesis by (auto simp: s1_def)
  qed
  have rest: "row_by d_job (d_job x) (deliveries (co_db s1)) = Some x" if "x \<in> set dels" for x
    using that Cons.prems(2,3) rows by (auto simp: image_iff)
  from Cons.IH [OF ok1 _ rest] Cons.prems(2) r' rows show ?case unfolding step by auto
qed simp


section \<open>A delivery\<close>

definition https_urls :: "string url_lib" where
  "https_urls = plain_urls\<lparr>url_scheme := \<lambda>_. ''https''\<rparr>"

definition exact_text :: text_lib where
  "exact_text = \<lparr>tl_fold = (=), tl_quote = quote\<rparr>"

definition demo_callbacks :: config where
  "demo_callbacks = demo_config\<lparr>cf_callbacks := \<lparr>cb_hosts = [''http://h''], cb_secret = ''s'', cb_max_attempts = 1, cb_timeout = second\<rparr>\<rparr>"

definition demo_courier_env :: cb_env where
  "demo_courier_env = \<lparr>ce_cfg = (\<lambda>_. demo_callbacks), ce_now = (\<lambda>_. 3 * second), ce_up = (\<lambda>_. True), ce_done = (\<lambda>_. False),
     ce_net = (\<lambda>_. Reply 503 '''' '''' None), ce_jitter = id, ce_other = (\<lambda>_ d. d), ce_text = (\<lambda>_. ''failed'')\<rparr>"

definition demo_courier :: courier where
  "demo_courier = \<lparr>co_db = demo_done, co_sent = []\<rparr>"

definition demo_delivery :: delivery where
  "demo_delivery = \<lparr>d_job = ''a'', d_url = ''http://h'', d_event = ''request.completed'', d_attempts = 0, d_next_attempt_at = Some 2000,
     d_delivered_at = None, d_last_status = None, d_last_error = '''', d_updated_at = 2000\<rparr>"

lemma demo_done_deliveries: "deliveries demo_done = [demo_delivery]"
  by (simp add: demo_defs store_run_defs demo_delivery_def EventFor_def)

theorem callbacks_stay_fenced_witness:
  "\<exists>new. co_sent (deliverDue https_urls exact_text (\<lambda>k b. k) demo_courier_env demo_courier) = new \<and> new \<noteq> []
     \<and> list_all (\<lambda>ob. ob_method ob = ''POST'') new"
proof -
  have "co_sent (deliverDue https_urls exact_text (\<lambda>k b. k) demo_courier_env demo_courier) \<noteq> []"
  proof -
    have due: "DueDeliveries demo_done 3000000000 cb_dueBatch = [demo_delivery]"
      by (simp add: DueDeliveries_def demo_done_deliveries delivery_due_def demo_delivery_def ts_def cb_dueBatch_def)
    have check: "Check https_urls exact_text (cf_callbacks demo_callbacks) (d_url demo_delivery) = None"
      by (simp add: Check_def CallbacksEnabled_def demo_callbacks_def https_urls_def plain_urls_def exact_text_def demo_delivery_def)
    have job: "GetJob demo_done (d_job demo_delivery) \<noteq> Inl x" for x
      by (simp add: GetJob_def find_job_def demo_done_jobs demo_delivery_def demo_job_def)
    show ?thesis
      by (simp add: deliverDue_def demo_courier_env_def demo_courier_def due check cb_attempt_def post_def Let_def job split: sum.split)
  qed
  with callbacks_stay_fenced [of https_urls exact_text "\<lambda>k b. k" demo_courier_env demo_courier] show ?thesis
    by (auto simp: demo_courier_def list_all_iff)
qed


end
