(* ===== verification/Spec2Isabelle.thy ===== *)
theory Spec2Isabelle
  imports Store_Properties Claim_Properties Compare_And_Set Job_Listing Scheduler Resolver_Properties Chain_Properties
    Cors Config_Validate Upstream_Properties Plan Fetch_Properties Callback_Properties
begin

text \<open>
  A verification library for TentaCron, a service that accepts requests over HTTP, resolves the placeholders
  (\<^emph>\<open>resolvents\<close>) in their payloads by calling resource APIs, forwards the resolved payload to a configured target, follows
  the target's own job by polling where needed, and keeps the result, with schedules that submit
  requests and callbacks that announce their end.

  \<^bold>\<open>Parts and how they meet.\<close> All state that survives is in one SQLite database (\<^verbatim>\<open>internal/store\<close>). The API, the worker
  pool, the scheduler, the sweeper and the callback deliverer run concurrently and meet only in that database, one
  transaction at a time. The model is built the same way: the record \<open>db\<close> of theory Store_Data is the set of tables, every
  store operation is a function on it, and \<open>store_step\<close> (Job_Steps) has one rule per transaction with arbitrary,
  possibly stale, arguments. \<open>reachable_db\<close> is what any interleaving of them makes of an empty database. The other
  components are functions that call store operations; where another connection can commit in between, the
  environment of the component supplies what it did.

  \<^bold>\<open>Theories, in the order of the code.\<close>

  \<^item> Prelude: instants (nanoseconds), stored timestamps (milliseconds), tables as lists of rows in rowid order, decimal
    rendering. Go_Strings, Go_Url: the parts of \<^verbatim>\<open>strings\<close>, \<^verbatim>\<open>strconv\<close> and \<^verbatim>\<open>net/url\<close> the code uses; Timestamps: the stored text of
    an instant. Parsing a URL is the parameter record \<open>url_lib\<close>.
  \<^item> Store_Data, Job_Store, Job_Claim, Delivery_Store, Schedule_Store, Job_Listing: \<^verbatim>\<open>internal/store/jobs.go\<close>,
    \<^verbatim>\<open>events.go\<close>, \<^verbatim>\<open>deliveries.go\<close>, \<^verbatim>\<open>cache.go\<close>, \<^verbatim>\<open>schedules.go\<close>. A row is a record with the columns as fields. The first
    argument \<open>up\<close> of an operation says whether the driver answers; an error leaves the tables as they were (rollback).
  \<^item> Job_Lifecycle, Job_Steps: the documented state machine \<open>lifecycle_edge\<close>, the invariant \<open>db_ok\<close>, the contract
    \<open>audited_transition\<close> that each caller of \<^verbatim>\<open>transitionGuarded\<close> meets, and \<open>store_step\<close>. Worked_Runs: concrete runs.
  \<^item> Store_Properties, Claim_Properties, Compare_And_Set: audit trail, outbox, finality, ceilings, idempotent
    creation, cancellation, recovery, retention, the order and the soundness and liveness of claims, and the contract
    \<open>cas_cell\<close> of the compare-and-set updates with its three interpretations.
  \<^item> Scheduler: \<^verbatim>\<open>internal/schedule\<close>, \<^verbatim>\<open>internal/worker/scheduler.go\<close> and \<^verbatim>\<open>sweep.go\<close>. The cron calendar is a third-party
    library, the parameter record \<open>cron_lib\<close>; what is relied on is \<open>cron_contract\<close> (the next time lies in the future).
  \<^item> Json, Json_Text, Json_Roundtrip: JSON documents, and what \<^verbatim>\<open>encoding/json\<close> reads and writes, byte for byte. The parser's
    fuel is the length of its input, enough because each call consumes a byte.
  \<^item> Resolver, Response_Map, Chain with Resolver_Properties, Chain_Properties: \<^verbatim>\<open>internal/resolver\<close>. SHA-256 is a
    parameter. The fuel of \<open>level\<close> is the number of resolvents plus one, enough because a path that repeats one is a cycle.
  \<^item> Config, Config_Validate, Cors: \<^verbatim>\<open>internal/config/config.go\<close>, \<^verbatim>\<open>validate.go\<close>, \<^verbatim>\<open>internal/cors\<close>.
  \<^item> Upstream, Upstream_Properties: \<^verbatim>\<open>internal/upstream\<close>; the network is a function from requests to answers.
  \<^item> Plan: \<^verbatim>\<open>internal/plan\<close>, the inspection shared by the dry run and the worker.
  \<^item> Worker with Worker_Properties, Attempt_Properties, Fetch_Properties: \<^verbatim>\<open>internal/worker/process.go\<close> and \<^verbatim>\<open>pool.go\<close>. The
    record \<open>wenv\<close> holds everything outside: network, clock, store and file failures, jitter, other connections and which
    fetches the scheduler skipped. The contracts \<open>series_writer\<close> and \<open>worker_store\<close> list the writes an invariant must survive.
  \<^item> Jobview, Callback, Callback_Properties: \<^verbatim>\<open>internal/jobview\<close> and \<^verbatim>\<open>internal/callback\<close>: the document of a job, the
    allow-list, and a pass of the delivery loop. HMAC-SHA256, case folding and \<^verbatim>\<open>strconv.Quote\<close> are parameters.

  \<^bold>\<open>What is shown.\<close> For the store: invariants of every interleaving (audit trail, outbox, uniqueness, ceilings), the exact
  outcome of each operation on every branch, and that claims are fair, sound and live. For the resolver: the scan is exact,
  chains are ordered and bounded, encoding is lossless. For the worker: its runs are runs of the store, an attempt
  always settles its job, retry delays are bounded, the reported error does not depend on scheduling, substitution
  touches only its slots. For the edges: credentials do not leak into stored errors, CORS answers are safe, callbacks
  stay on the allow-list and make progress, a validated configuration has consistent timeouts.

  \<^bold>\<open>Bounds and fuel.\<close> \<open>claimLoop\<close> runs the source's fixed number of rounds; \<open>createJobLoop\<close> the source's retries; \<open>drain\<close> takes
  the number of rounds as an argument, since the loop of the source runs while there is work.

  \<^bold>\<open>Not modelled.\<close> Logging and metrics; the SQL text, schema migration and SQLite maintenance; YAML decoding and file
  reading; connection pooling, the idle watchdog of downloads and TLS; process start-up, signals and flags; configuration reload.
\<close>

end
